theory Spec2Isabelle
  imports Complex_Main "HOL-Library.Word"
begin

section \<open>Lightmap tracer: direct light, indirect light and the indirect filter\<close>

text \<open>
  A shallow embedding of the lightmap tracer (\<^verbatim>\<open>ParallelFor\<close>,
  \<^verbatim>\<open>RandomDirection\<close>, \<^verbatim>\<open>GetKernel\<close>,
  \<^verbatim>\<open>CalculateEdgeWeight\<close>, \<^verbatim>\<open>BakeDirectionalLight\<close>,
  \<^verbatim>\<open>BakeIndirectLight\<close>, \<^verbatim>\<open>FilterIndirectLight\<close>).

  Conventions of the embedding:
  \<^item> \<^verbatim>\<open>unsigned\<close> is a 32-bit word: \<open>+\<close>, \<open>-\<close> and \<open>*\<close> wrap around.
  \<^item> \<^verbatim>\<open>float\<close> is idealised as \<open>real\<close>: rounding is not modelled. A float
    division whose divisor is zero has an infinity or a NaN as its IEEE result; the
    reals have neither, so such a division is the outcome \<open>NotFinite\<close>.
  \<^item> Undefined behaviour of the source (an index out of range, an integer division by
    zero) is an outcome of its own, never a value.
  \<^item> \<^verbatim>\<open>std::async\<close> tasks are run one after the other in the order they were
    posted, each to completion (the schedule of the deferred launch policy).
\<close>

type_synonym u32 = "32 word"

type_synonym float = real

datatype error =
    DivisionByZero
  | OutOfBounds
  | AssertionFailed
  | NotFinite
  | RandomExhausted

subsection \<open>ParallelFor\<close>

text \<open>
  The lambda posted for thread \<open>i\<close> computes its own bounds:
  \<^verbatim>\<open>fromIndex = i * chunkSize; toIndex = min(fromIndex + chunkSize, count)\<close>.
\<close>

definition chunk_bounds :: "u32 \<Rightarrow> u32 \<Rightarrow> u32 \<Rightarrow> u32 \<times> u32" where
  "chunk_bounds count chunkSize i =
     (let fromIndex = i * chunkSize;
          toIndex = min (fromIndex + chunkSize) count
      in (fromIndex, toIndex))"

lemma unat_Suc_less: "(i::u32) < n \<Longrightarrow> unat (i + 1) = Suc (unat i)"
proof -
  assume "i < n"
  then have "unat i < unat n" by (simp add: word_less_nat_alt)
  moreover have "unat n < 2 ^ 32" using unsigned_less [of n] by simp
  ultimately have "unat i + 1 < 2 ^ 32" by linarith
  then show ?thesis by (simp add: unat_word_ariths)
qed

function post_tasks :: "u32 \<Rightarrow> u32 \<Rightarrow> u32 \<Rightarrow> u32 \<Rightarrow> (u32 \<times> u32) list \<Rightarrow> (u32 \<times> u32) list" where
  "post_tasks count numThreads chunkSize i tasks =
     (if i < numThreads
      then post_tasks count numThreads chunkSize (i + 1) (tasks @ [chunk_bounds count chunkSize i])
      else tasks)"
  by pat_completeness auto
termination
proof (relation "measure (\<lambda>(count, numThreads, chunkSize, i, tasks). unat numThreads - unat i)")
  show "wf (measure (\<lambda>(count, numThreads, chunkSize, i, tasks). unat numThreads - unat i))" by simp
next
  fix count numThreads chunkSize i :: u32 and tasks :: "(u32 \<times> u32) list"
  assume a: "i < numThreads"
  then have "unat i < unat numThreads" by (simp add: word_less_nat_alt)
  with unat_Suc_less [OF a]
  show "((count, numThreads, chunkSize, i + 1, tasks @ [chunk_bounds count chunkSize i]),
         (count, numThreads, chunkSize, i, tasks))
        \<in> measure (\<lambda>(count, numThreads, chunkSize, i, tasks). unat numThreads - unat i)"
    by simp
qed

declare post_tasks.simps [simp del]

text \<open>\<^verbatim>\<open>for (auto& task : tasks) task.wait();\<close> with every task run when waited for.\<close>

fun wait_tasks :: "(u32 \<Rightarrow> u32 \<Rightarrow> 's \<Rightarrow> error + 's) \<Rightarrow> (u32 \<times> u32) list \<Rightarrow> 's \<Rightarrow> error + 's" where
  "wait_tasks callback [] s = Inr s"
| "wait_tasks callback ((fromIndex, toIndex) # tasks) s =
     (case callback fromIndex toIndex s of
        Inl e \<Rightarrow> Inl e
      | Inr s' \<Rightarrow> wait_tasks callback tasks s')"

definition ParallelFor :: "u32 \<Rightarrow> u32 \<Rightarrow> (u32 \<Rightarrow> u32 \<Rightarrow> 's \<Rightarrow> error + 's) \<Rightarrow> 's \<Rightarrow> error + 's" where
  "ParallelFor count numThreads callback s =
     (if numThreads = 0 then Inl DivisionByZero
      else
        let chunkSize = (count + numThreads - 1) div numThreads;
            tasks = post_tasks count numThreads chunkSize 0 []
        in wait_tasks callback tasks s)"

text \<open>
  The loop every callback of the tracer runs over its chunk:
  \<^verbatim>\<open>for (unsigned i = fromIndex; i < toIndex; ++i) body\<close>, where \<open>continue\<close> is a body
  that returns the state it has.
\<close>

function for_range :: "(u32 \<Rightarrow> 's \<Rightarrow> error + 's) \<Rightarrow> u32 \<Rightarrow> u32 \<Rightarrow> 's \<Rightarrow> error + 's" where
  "for_range body i toIndex s =
     (if i < toIndex
      then (case body i s of
              Inl e \<Rightarrow> Inl e
            | Inr s' \<Rightarrow> for_range body (i + 1) toIndex s')
      else Inr s)"
  by pat_completeness auto
termination
proof (relation "measure (\<lambda>(body, i, toIndex, s). unat toIndex - unat i)")
  show "wf (measure (\<lambda>(body, i, toIndex, s). unat toIndex - unat i))" by simp
next
  fix body :: "u32 \<Rightarrow> 's \<Rightarrow> error + 's" and i toIndex :: u32 and s s' :: 's
  assume a: "i < toIndex"
  then have "unat i < unat toIndex" by (simp add: word_less_nat_alt)
  with unat_Suc_less [OF a]
  show "((body, i + 1, toIndex, s'), (body, i, toIndex, s))
        \<in> measure (\<lambda>(body, i, toIndex, s). unat toIndex - unat i)"
    by simp
qed

declare for_range.simps [simp del]

text \<open>A loop over a list of values, stopping at the first failure.\<close>

fun for_each :: "('a \<Rightarrow> 's \<Rightarrow> error + 's) \<Rightarrow> 'a list \<Rightarrow> 's \<Rightarrow> error + 's" where
  "for_each step [] s = Inr s"
| "for_each step (k # ks) s =
     (case step k s of Inl e \<Rightarrow> Inl e | Inr s' \<Rightarrow> for_each step ks s')"

text \<open>The indices a callback's loop visits on a chunk, and a callback that records its call.\<close>

definition chunk_indices :: "u32 \<times> u32 \<Rightarrow> nat list" where
  "chunk_indices task = [unat (fst task)..<unat (snd task)]"

definition record_chunk :: "u32 \<Rightarrow> u32 \<Rightarrow> (u32 \<times> u32) list \<Rightarrow> error + (u32 \<times> u32) list" where
  "record_chunk fromIndex toIndex calls = Inr (calls @ [(fromIndex, toIndex)])"


text \<open>
  The chunks as the specification words them: \<open>chunkSize = ceil(count / numThreads)\<close>,
  chunk \<open>k\<close> starts at \<open>k * chunkSize\<close> and ends at \<open>(k + 1) * chunkSize\<close> clipped to \<open>count\<close>.
\<close>

definition ceil_div :: "nat \<Rightarrow> nat \<Rightarrow> nat" where
  "ceil_div c n = nat \<lceil>real c / real n\<rceil>"

definition spec_chunks :: "nat \<Rightarrow> nat \<Rightarrow> (u32 \<times> u32) list" where
  "spec_chunks c n =
     map (\<lambda>k. (word_of_nat (k * ceil_div c n),
               word_of_nat (min (k * ceil_div c n + ceil_div c n) c))) [0..<n]"

subsection \<open>Vectors and colours\<close>

text \<open>
  Modelled from the spec: \<^verbatim>\<open>Vector2\<close>, \<^verbatim>\<open>Vector3\<close>, \<^verbatim>\<open>Vector4\<close>,
  \<^verbatim>\<open>IntVector2\<close> and \<^verbatim>\<open>Color\<close> are declared in the engine's math headers, which
  are not among the sources. Their operators are componentwise, a default-constructed
  vector is zero (the accumulator "starts at zero"), \<^verbatim>\<open>Length\<close> is the Euclidean
  length and \<^verbatim>\<open>Normalized\<close> scales to unit length and leaves the zero vector as it is.
\<close>

datatype Vector2 = Vector2 (v2x: float) (v2y: float)

datatype Vector3 = Vector3 (v3x: float) (v3y: float) (v3z: float)

datatype Vector4 = Vector4 (v4x: float) (v4y: float) (v4z: float) (v4w: float)

datatype Color = Color (color_r: float) (color_g: float) (color_b: float) (color_a: float)

type_synonym IntVector2 = "int \<times> int"

definition v3_zero :: Vector3 where
  "v3_zero = Vector3 0 0 0"

definition v3_add :: "Vector3 \<Rightarrow> Vector3 \<Rightarrow> Vector3" where
  "v3_add p q = Vector3 (v3x p + v3x q) (v3y p + v3y q) (v3z p + v3z q)"

definition v3_sub :: "Vector3 \<Rightarrow> Vector3 \<Rightarrow> Vector3" where
  "v3_sub p q = Vector3 (v3x p - v3x q) (v3y p - v3y q) (v3z p - v3z q)"

definition v3_neg :: "Vector3 \<Rightarrow> Vector3" where
  "v3_neg p = Vector3 (- v3x p) (- v3y p) (- v3z p)"

definition v3_mul :: "Vector3 \<Rightarrow> float \<Rightarrow> Vector3" where
  "v3_mul p c = Vector3 (v3x p * c) (v3y p * c) (v3z p * c)"

definition v3_div :: "Vector3 \<Rightarrow> float \<Rightarrow> Vector3" where
  "v3_div p c = Vector3 (v3x p / c) (v3y p / c) (v3z p / c)"

definition DotProduct :: "Vector3 \<Rightarrow> Vector3 \<Rightarrow> float" where
  "DotProduct p q = v3x p * v3x q + v3y p * v3y q + v3z p * v3z q"

definition LengthSquared :: "Vector3 \<Rightarrow> float" where
  "LengthSquared p = v3x p * v3x p + v3y p * v3y p + v3z p * v3z p"

definition Length :: "Vector3 \<Rightarrow> float" where
  "Length p = sqrt (LengthSquared p)"

definition Normalized :: "Vector3 \<Rightarrow> Vector3" where
  "Normalized p =
     (if LengthSquared p > 0 then v3_mul p (1 / sqrt (LengthSquared p)) else p)"

definition v4_add :: "Vector4 \<Rightarrow> Vector4 \<Rightarrow> Vector4" where
  "v4_add p q = Vector4 (v4x p + v4x q) (v4y p + v4y q) (v4z p + v4z q) (v4w p + v4w q)"

definition v4_mul :: "Vector4 \<Rightarrow> float \<Rightarrow> Vector4" where
  "v4_mul p c = Vector4 (v4x p * c) (v4y p * c) (v4z p * c) (v4w p * c)"

definition v4_div :: "Vector4 \<Rightarrow> float \<Rightarrow> Vector4" where
  "v4_div p c = Vector4 (v4x p / c) (v4y p / c) (v4z p / c) (v4w p / c)"

text \<open>\<^verbatim>\<open>Vector4(vector3, w)\<close> and \<^verbatim>\<open>Color::ToVector3\<close>.\<close>

definition Vector4_of :: "Vector3 \<Rightarrow> float \<Rightarrow> Vector4" where
  "Vector4_of p w = Vector4 (v3x p) (v3y p) (v3z p) w"

definition ToVector3 :: "Color \<Rightarrow> Vector3" where
  "ToVector3 c = Vector3 (color_r c) (color_g c) (color_b c)"

text \<open>Modelled from the spec: \<^verbatim>\<open>M_PI\<close> is declared in a header that is not among the
  sources; the specification writes it \<open>\<pi>\<close>.\<close>

definition M_PI :: float where
  "M_PI = pi"

subsection \<open>What the sources leave open\<close>

text \<open>
  The build and the engine parts that are declared outside the sources are parameters:
  whether \<^verbatim>\<open>assert\<close> is compiled in (it is not under \<^verbatim>\<open>NDEBUG\<close>), the constants
  \<^verbatim>\<open>M_EPSILON\<close> and \<^verbatim>\<open>LightmapTracingSettings::MaxBounces\<close>, the helpers
  \<^verbatim>\<open>Pow\<close>, \<^verbatim>\<open>Color::Luma\<close> and \<^verbatim>\<open>LightmapChartBakedDirect::SampleNearest\<close>, and
  the indeterminate contents of the uninitialised array \<^verbatim>\<open>incomingFactors\<close>.
\<close>

record LightmapChartBakedDirect =
  directLight :: "Vector3 list"

record LightmapChartBakedIndirect =
  light :: "Vector4 list"
  lightSwap :: "Vector4 list"

record Environment =
  assertions :: bool
  M_EPSILON :: float
  MaxBounces :: nat
  Pow :: "float \<Rightarrow> float \<Rightarrow> float"
  Luma :: "Color \<Rightarrow> float"
  SampleNearest :: "LightmapChartBakedDirect \<Rightarrow> Vector2 \<Rightarrow> Vector3"
  uninitialized :: "nat \<Rightarrow> float"

subsection \<open>Scene, geometry and settings\<close>

text \<open>
  The ray tracer is a collaborator. \<^verbatim>\<open>rtcIntersect1\<close> is a function of the ray's
  origin, direction and \<^verbatim>\<open>tfar\<close> (the other ray fields are the same constants in
  every call); \<open>None\<close> is a miss, which leaves \<^verbatim>\<open>hit.geomID\<close> at
  \<^verbatim>\<open>RTC_INVALID_GEOMETRY_ID\<close>, and \<open>Some\<close> carries the fields a hit writes.
\<close>

record RTCHit =
  hit_tfar :: float
  hit_geomID :: nat
  hit_primID :: nat
  hit_u :: float
  hit_v :: float
  hit_Ng :: Vector3

record 'g EmbreeScene =
  GetMaxDistance :: float
  GetEmbreeGeometryIndex :: "'g list"
  rtcIntersect1 :: "Vector3 \<Rightarrow> Vector3 \<Rightarrow> float \<Rightarrow> RTCHit option"
  rtcInterpolate0 :: "'g \<Rightarrow> nat \<Rightarrow> float \<Rightarrow> float \<Rightarrow> Vector2"

text \<open>The three location helpers are methods declared with the geometry, outside the
  sources; they are taken as given.\<close>

record LightmapChartBakedGeometry =
  geometryPositions :: "Vector3 list"
  smoothNormals :: "Vector3 list"
  geometryIds :: "nat list"
  IndexToLocation :: "nat \<Rightarrow> IntVector2"
  IsValidLocation :: "IntVector2 \<Rightarrow> bool"
  LocationToIndex :: "IntVector2 \<Rightarrow> nat"

record DirectionalLightParameters =
  direction :: Vector3
  color :: Color

record LightmapTracingSettings =
  numThreads :: u32
  numBounces :: u32
  rayPositionOffset :: float

record IndirectFilterParameters =
  kernelRadius :: int
  upscale :: int
  luminanceSigma :: float
  positionSigma :: float
  normalPower :: float

subsection \<open>Random directions\<close>

text \<open>
  The random number generator is global state. It is modelled by the list of the values
  its next calls return: \<^verbatim>\<open>Random(-1.0f, 1.0f)\<close> takes the head. A list that runs out
  is \<open>RandomExhausted\<close>: the rejection loop of \<^verbatim>\<open>RandomDirection\<close> ends only when
  a triple inside the unit ball is drawn.
\<close>

fun RandomDirection :: "float list \<Rightarrow> error + (Vector3 \<times> float list)" where
  "RandomDirection (rx # ry # rz # rng) =
     (let result = Vector3 rx ry rz;
          len = Length result
      in if len > 1 then RandomDirection rng
         else if len = 0 then Inl NotFinite
         else Inr (v3_div result len, rng))"
| "RandomDirection _ = Inl RandomExhausted"

definition RandomHemisphereDirection ::
  "Vector3 \<Rightarrow> float list \<Rightarrow> error + (Vector3 \<times> float list)" where
  "RandomHemisphereDirection normal rng =
     (case RandomDirection rng of
        Inl e \<Rightarrow> Inl e
      | Inr (result, rng') \<Rightarrow>
          Inr (if DotProduct result normal < 0 then v3_neg result else result, rng'))"

subsection \<open>Kernel, luminance and the edge-stopping weight\<close>

text \<open>With \<^verbatim>\<open>assert\<close> compiled out the default case falls through to \<^verbatim>\<open>return {}\<close>.\<close>

definition GetKernel :: "Environment \<Rightarrow> int \<Rightarrow> error + float list" where
  "GetKernel env radius =
     (if radius = 0 then Inr [1]
      else if radius = 1 then Inr [2 / 4, 1 / 4]
      else if radius = 2 then Inr [6 / 16, 4 / 16, 1 / 16]
      else if assertions env then Inl AssertionFailed
      else Inr [])"

definition GetLuminance :: "Environment \<Rightarrow> Vector4 \<Rightarrow> float" where
  "GetLuminance env color4 = Luma env (Color (v4x color4) (v4y color4) (v4z color4) 1)"

definition CalculateEdgeWeight ::
  "Environment \<Rightarrow> float \<Rightarrow> float \<Rightarrow> float \<Rightarrow> Vector3 \<Rightarrow> Vector3 \<Rightarrow> float \<Rightarrow>
   Vector3 \<Rightarrow> Vector3 \<Rightarrow> float \<Rightarrow> error + float" where
  "CalculateEdgeWeight env luminance1 luminance2 luminanceSigma' position1 position2
       positionSigma' normal1 normal2 normalPower' =
     (if luminanceSigma' = 0 \<or> positionSigma' = 0 then Inl NotFinite
      else
        let colorWeight = \<bar>luminance1 - luminance2\<bar> / luminanceSigma';
            positionWeight = LengthSquared (v3_sub position1 position2) / positionSigma';
            normalWeight = Pow env (max 0 (DotProduct normal1 normal2)) normalPower'
        in Inr (exp (0 - colorWeight - positionWeight) * normalWeight))"

subsection \<open>BakeDirectionalLight\<close>

text \<open>The body of the texel loop; the state is \<^verbatim>\<open>bakedDirect.light_\<close>.\<close>

definition direct_texel ::
  "'g EmbreeScene \<Rightarrow> LightmapChartBakedGeometry \<Rightarrow> Vector3 \<Rightarrow> float \<Rightarrow> Vector3 \<Rightarrow>
   u32 \<Rightarrow> Vector3 list \<Rightarrow> error + Vector3 list" where
  "direct_texel embreeScene bakedGeometry rayDirection maxDistance lightColor i buf =
     (let k = unat i in
      if k < length (geometryPositions bakedGeometry)
         \<and> k < length (smoothNormals bakedGeometry)
         \<and> k < length (geometryIds bakedGeometry)
      then
        let position = geometryPositions bakedGeometry ! k;
            smoothNormal = smoothNormals bakedGeometry ! k;
            geometryId = geometryIds bakedGeometry ! k
        in
          if geometryId = 0 then Inr buf
          else
            let org = Vector3 (v3x position + v3x rayDirection * 0.001)
                              (v3y position + v3y rayDirection * 0.001)
                              (v3z position + v3z rayDirection * 0.001);
                hit = rtcIntersect1 embreeScene org rayDirection maxDistance;
                shadowFactor = (if hit = None then 1 else 0);
                directLight = max 0 (DotProduct smoothNormal rayDirection)
            in
              if k < length buf
              then Inr (buf[k := v3_add (buf ! k)
                                  (v3_mul (v3_mul lightColor shadowFactor) directLight)])
              else Inl OutOfBounds
      else Inl OutOfBounds)"

definition BakeDirectionalLight ::
  "LightmapChartBakedDirect \<Rightarrow> LightmapChartBakedGeometry \<Rightarrow> 'g EmbreeScene \<Rightarrow>
   DirectionalLightParameters \<Rightarrow> LightmapTracingSettings \<Rightarrow> error + LightmapChartBakedDirect" where
  "BakeDirectionalLight bakedDirect bakedGeometry embreeScene light_params settings =
     (let rayDirection = v3_neg (Normalized (direction light_params));
          maxDistance = GetMaxDistance embreeScene;
          lightColor = ToVector3 (color light_params)
      in
        case ParallelFor (word_of_nat (length (directLight bakedDirect))) (numThreads settings)
               (for_range (direct_texel embreeScene bakedGeometry rayDirection maxDistance lightColor))
               (directLight bakedDirect) of
          Inl e \<Rightarrow> Inl e
        | Inr buf \<Rightarrow> Inr (bakedDirect\<lparr>directLight := buf\<rparr>))"

subsection \<open>BakeIndirectLight\<close>

text \<open>The locals of one texel's path, the two per-thread arrays and the generator.\<close>

record path_state =
  numSamples :: nat
  currentPosition :: Vector3
  currentNormal :: Vector3
  incomingSamples :: "Vector3 list"
  incomingFactors :: "float list"
  rng :: "float list"

text \<open>The body of the bounce loop, for bounce \<open>j\<close>. A miss is \<^verbatim>\<open>continue\<close>.\<close>

definition bounce ::
  "Environment \<Rightarrow> 'g EmbreeScene \<Rightarrow> LightmapChartBakedDirect list \<Rightarrow> LightmapTracingSettings \<Rightarrow>
   u32 \<Rightarrow> path_state \<Rightarrow> error + path_state" where
  "bounce env embreeScene bakedDirect settings j st =
     (case RandomHemisphereDirection (currentNormal st) (rng st) of
        Inl e \<Rightarrow> Inl e
      | Inr (rayDirection, rng') \<Rightarrow>
          let org = v3_add (currentPosition st)
                      (v3_mul (currentNormal st) (rayPositionOffset settings))
          in
            case rtcIntersect1 embreeScene org rayDirection (GetMaxDistance embreeScene) of
              None \<Rightarrow> Inr (st\<lparr>rng := rng'\<rparr>)
            | Some hit \<Rightarrow>
                if hit_geomID hit < length (GetEmbreeGeometryIndex embreeScene)
                then
                  let geometry = GetEmbreeGeometryIndex embreeScene ! hit_geomID hit;
                      lightmapUV = rtcInterpolate0 embreeScene geometry (hit_primID hit)
                                     (hit_u hit) (hit_v hit);
                      probability = 1 / (2 * M_PI);
                      cosTheta = DotProduct rayDirection (currentNormal st);
                      reflectance = 1 / M_PI;
                      brdf = reflectance / M_PI
                  in
                    case bakedDirect of
                      [] \<Rightarrow> Inl OutOfBounds
                    | chart0 # other_charts \<Rightarrow>
                        if unat j < length (incomingSamples st)
                           \<and> unat j < length (incomingFactors st)
                        then
                          let st1 = st\<lparr>rng := rng',
                                incomingSamples := (incomingSamples st)
                                  [unat j := SampleNearest env chart0 lightmapUV],
                                incomingFactors := (incomingFactors st)
                                  [unat j := brdf * cosTheta / probability],
                                numSamples := numSamples st + 1\<rparr>
                          in
                            if numSamples st1 < unat (numBounces settings)
                            then Inr (st1\<lparr>
                                   currentPosition := v3_add org (v3_mul rayDirection (hit_tfar hit)),
                                   currentNormal := Normalized (hit_Ng hit)\<rparr>)
                            else Inr st1
                        else Inl OutOfBounds
                else Inl OutOfBounds)"

text \<open>
  \<^verbatim>\<open>for (int j = numSamples - 1; j >= 0; --j)\<close>: the argument counts the slots left,
  so \<open>Suc j\<close> visits slot \<open>j\<close> next.
\<close>

fun accumulate_samples ::
  "Vector3 list \<Rightarrow> float list \<Rightarrow> nat \<Rightarrow> Vector3 \<Rightarrow> error + Vector3" where
  "accumulate_samples samples factors 0 indirectLighting = Inr indirectLighting"
| "accumulate_samples samples factors (Suc j) indirectLighting =
     (if j < length samples \<and> j < length factors
      then accumulate_samples samples factors j
             (v3_mul (v3_add indirectLighting (samples ! j)) (factors ! j))
      else Inl OutOfBounds)"

text \<open>The state of one thread's texel loop: the shared buffer and generator, and the
  thread's two arrays, which live across the texels of the chunk.\<close>

record worker_state =
  w_light :: "Vector4 list"
  w_rng :: "float list"
  w_samples :: "Vector3 list"
  w_factors :: "float list"

definition indirect_texel ::
  "Environment \<Rightarrow> 'g EmbreeScene \<Rightarrow> LightmapChartBakedDirect list \<Rightarrow>
   LightmapChartBakedGeometry \<Rightarrow> LightmapTracingSettings \<Rightarrow>
   u32 \<Rightarrow> worker_state \<Rightarrow> error + worker_state" where
  "indirect_texel env embreeScene bakedDirect bakedGeometry settings i w =
     (let k = unat i in
      if k < length (geometryPositions bakedGeometry)
         \<and> k < length (smoothNormals bakedGeometry)
         \<and> k < length (geometryIds bakedGeometry)
      then
        let position = geometryPositions bakedGeometry ! k;
            smoothNormal = smoothNormals bakedGeometry ! k;
            geometryId = geometryIds bakedGeometry ! k
        in
          if geometryId = 0 then Inr w
          else
            case for_range (bounce env embreeScene bakedDirect settings) 0 (numBounces settings)
                   \<lparr>numSamples = 0, currentPosition = position, currentNormal = smoothNormal,
                    incomingSamples = w_samples w, incomingFactors = w_factors w,
                    rng = w_rng w\<rparr> of
              Inl e \<Rightarrow> Inl e
            | Inr st \<Rightarrow>
                (case accumulate_samples (incomingSamples st) (incomingFactors st)
                        (numSamples st) v3_zero of
                   Inl e \<Rightarrow> Inl e
                 | Inr indirectLighting \<Rightarrow>
                     if k < length (w_light w)
                     then Inr \<lparr>w_light = (w_light w)
                                  [k := v4_add (w_light w ! k) (Vector4_of indirectLighting 1)],
                               w_rng = rng st,
                               w_samples = incomingSamples st,
                               w_factors = incomingFactors st\<rparr>
                     else Inl OutOfBounds)
      else Inl OutOfBounds)"

text \<open>The callback: the arrays are declared at its start, the samples default-constructed
  and the factors uninitialised.\<close>

definition indirect_chunk ::
  "Environment \<Rightarrow> 'g EmbreeScene \<Rightarrow> LightmapChartBakedDirect list \<Rightarrow>
   LightmapChartBakedGeometry \<Rightarrow> LightmapTracingSettings \<Rightarrow>
   u32 \<Rightarrow> u32 \<Rightarrow> Vector4 list \<times> float list \<Rightarrow> error + Vector4 list \<times> float list" where
  "indirect_chunk env embreeScene bakedDirect bakedGeometry settings fromIndex toIndex s =
     (case for_range (indirect_texel env embreeScene bakedDirect bakedGeometry settings)
             fromIndex toIndex
             \<lparr>w_light = fst s, w_rng = snd s,
              w_samples = replicate (MaxBounces env) v3_zero,
              w_factors = map (uninitialized env) [0..<MaxBounces env]\<rparr> of
        Inl e \<Rightarrow> Inl e
      | Inr w \<Rightarrow> Inr (w_light w, w_rng w))"

definition BakeIndirectLight ::
  "Environment \<Rightarrow> LightmapChartBakedIndirect \<Rightarrow> LightmapChartBakedDirect list \<Rightarrow>
   LightmapChartBakedGeometry \<Rightarrow> 'g EmbreeScene \<Rightarrow> LightmapTracingSettings \<Rightarrow> float list \<Rightarrow>
   error + LightmapChartBakedIndirect \<times> float list" where
  "BakeIndirectLight env bakedIndirect bakedDirect bakedGeometry embreeScene settings random =
     (if assertions env \<and> \<not> unat (numBounces settings) \<le> MaxBounces env
      then Inl AssertionFailed
      else
        case ParallelFor (word_of_nat (length (light bakedIndirect))) (numThreads settings)
               (indirect_chunk env embreeScene bakedDirect bakedGeometry settings)
               (light bakedIndirect, random) of
          Inl e \<Rightarrow> Inl e
        | Inr (buf, random') \<Rightarrow> Inr (bakedIndirect\<lparr>light := buf\<rparr>, random'))"

subsection \<open>FilterIndirectLight\<close>

text \<open>The body of the two offset loops, for one \<open>(dx, dy)\<close>; the state is
  \<open>(colorSum, colorWeight)\<close>.\<close>

definition filter_tap ::
  "Environment \<Rightarrow> LightmapChartBakedIndirect \<Rightarrow> LightmapChartBakedGeometry \<Rightarrow>
   IndirectFilterParameters \<Rightarrow> float list \<Rightarrow> IntVector2 \<Rightarrow> float \<Rightarrow> Vector3 \<Rightarrow> Vector3 \<Rightarrow>
   int \<Rightarrow> int \<Rightarrow> Vector4 \<times> float \<Rightarrow> error + Vector4 \<times> float" where
  "filter_tap env bakedIndirect bakedGeometry params kernelWeights centerLocation
       centerLuminance centerPosition centerNormal dy dx acc =
     (if dx = 0 \<and> dy = 0 then Inr acc
      else
        let offset = (dx * upscale params, dy * upscale params);
            otherLocation = (fst centerLocation + fst offset, snd centerLocation + snd offset)
        in
          if \<not> IsValidLocation bakedGeometry otherLocation then Inr acc
          else
            let dxdy = sqrt (real_of_int dx * real_of_int dx + real_of_int dy * real_of_int dy) in
            if nat \<bar>dx\<bar> < length kernelWeights \<and> nat \<bar>dy\<bar> < length kernelWeights
            then
              let kernel = kernelWeights ! nat \<bar>dx\<bar> * kernelWeights ! nat \<bar>dy\<bar>;
                  otherIndex = LocationToIndex bakedGeometry otherLocation
              in
                if otherIndex < length (geometryIds bakedGeometry)
                then
                  let otherGeometryId = geometryIds bakedGeometry ! otherIndex in
                  if otherGeometryId = 0 then Inr acc
                  else
                    if otherIndex < length (light bakedIndirect)
                       \<and> otherIndex < length (geometryPositions bakedGeometry)
                       \<and> otherIndex < length (smoothNormals bakedGeometry)
                    then
                      let otherColor = light bakedIndirect ! otherIndex in
                      case CalculateEdgeWeight env centerLuminance (GetLuminance env otherColor)
                             (luminanceSigma params)
                             centerPosition (geometryPositions bakedGeometry ! otherIndex)
                             (dxdy * positionSigma params)
                             centerNormal (smoothNormals bakedGeometry ! otherIndex)
                             (normalPower params) of
                        Inl e \<Rightarrow> Inl e
                      | Inr weight \<Rightarrow>
                          Inr (v4_add (fst acc) (v4_mul (v4_mul otherColor weight) kernel),
                               snd acc + weight * kernel)
                    else Inl OutOfBounds
                else Inl OutOfBounds
            else Inl OutOfBounds)"

text \<open>The two offset loops around it, \<open>dy\<close> outside and \<open>dx\<close> inside, started from the
  centre texel's own colour and weight.\<close>

definition filter_sums ::
  "Environment \<Rightarrow> LightmapChartBakedIndirect \<Rightarrow> LightmapChartBakedGeometry \<Rightarrow>
   IndirectFilterParameters \<Rightarrow> float list \<Rightarrow> nat \<Rightarrow> error + Vector4 \<times> float" where
  "filter_sums env bakedIndirect bakedGeometry params kernelWeights index =
     (let centerLocation = IndexToLocation bakedGeometry index;
          centerColor = light bakedIndirect ! index;
          centerLuminance = GetLuminance env centerColor;
          centerPosition = geometryPositions bakedGeometry ! index;
          centerNormal = smoothNormals bakedGeometry ! index;
          colorWeight = kernelWeights ! 0 * kernelWeights ! 0;
          colorSum = v4_mul centerColor colorWeight;
          radius = kernelRadius params
      in for_each
           (\<lambda>dy. for_each
              (filter_tap env bakedIndirect bakedGeometry params kernelWeights
                 centerLocation centerLuminance centerPosition centerNormal dy)
              [- radius..radius])
           [- radius..radius] (colorSum, colorWeight))"

text \<open>The body of the texel loop; the state is \<^verbatim>\<open>bakedIndirect.lightSwap_\<close>.\<close>

definition filter_texel ::
  "Environment \<Rightarrow> LightmapChartBakedIndirect \<Rightarrow> LightmapChartBakedGeometry \<Rightarrow>
   IndirectFilterParameters \<Rightarrow> float list \<Rightarrow> u32 \<Rightarrow> Vector4 list \<Rightarrow> error + Vector4 list" where
  "filter_texel env bakedIndirect bakedGeometry params kernelWeights i swap =
     (let index = unat i in
      if index < length (geometryIds bakedGeometry)
      then
        let geometryId = geometryIds bakedGeometry ! index in
        if geometryId = 0 then Inr swap
        else
          if index < length (light bakedIndirect)
             \<and> index < length (geometryPositions bakedGeometry)
             \<and> index < length (smoothNormals bakedGeometry)
             \<and> 0 < length kernelWeights
          then
            case filter_sums env bakedIndirect bakedGeometry params kernelWeights index of
              Inl e \<Rightarrow> Inl e
            | Inr (colorSum, colorWeight) \<Rightarrow>
                let denominator = max (M_EPSILON env) colorWeight in
                if denominator = 0 then Inl NotFinite
                else if index < length swap
                then Inr (swap[index := v4_div colorSum denominator])
                else Inl OutOfBounds
          else Inl OutOfBounds
      else Inl OutOfBounds)"

definition FilterIndirectLight ::
  "Environment \<Rightarrow> LightmapChartBakedIndirect \<Rightarrow> LightmapChartBakedGeometry \<Rightarrow>
   IndirectFilterParameters \<Rightarrow> u32 \<Rightarrow> error + LightmapChartBakedIndirect" where
  "FilterIndirectLight env bakedIndirect bakedGeometry params numThreads' =
     (case GetKernel env (kernelRadius params) of
        Inl e \<Rightarrow> Inl e
      | Inr kernelWeights \<Rightarrow>
          (case ParallelFor (word_of_nat (length (light bakedIndirect))) numThreads'
                  (for_range (filter_texel env bakedIndirect bakedGeometry params kernelWeights))
                  (lightSwap bakedIndirect) of
             Inl e \<Rightarrow> Inl e
           | Inr swap \<Rightarrow> Inr (bakedIndirect\<lparr>light := swap, lightSwap := light bakedIndirect\<rparr>)))"

subsection \<open>Quantities the claims speak of\<close>

text \<open>The three per-texel sequences of a chart of \<open>N\<close> texels.\<close>

definition chart_size :: "LightmapChartBakedGeometry \<Rightarrow> nat \<Rightarrow> bool" where
  "chart_size bakedGeometry N =
     (length (geometryPositions bakedGeometry) = N
      \<and> length (smoothNormals bakedGeometry) = N
      \<and> length (geometryIds bakedGeometry) = N)"

text \<open>
  What one directional light contributes to texel \<open>k\<close>:
  \<open>lightColor * visibility * max (0, dot (smoothNormal, reverse))\<close>, where \<open>reverse\<close> is the
  reversed, normalised light direction and the shadow ray starts \<open>0.001\<close> along it.
\<close>

definition direct_contribution ::
  "'g EmbreeScene \<Rightarrow> LightmapChartBakedGeometry \<Rightarrow> DirectionalLightParameters \<Rightarrow> nat \<Rightarrow> Vector3" where
  "direct_contribution embreeScene bakedGeometry light_params k =
     (let reverse = v3_neg (Normalized (direction light_params));
          origin = v3_add (geometryPositions bakedGeometry ! k) (v3_mul reverse 0.001);
          visibility = (if rtcIntersect1 embreeScene origin reverse (GetMaxDistance embreeScene) = None
                        then 1 else 0);
          lambert = max 0 (DotProduct (smoothNormals bakedGeometry ! k) reverse)
      in v3_mul (v3_mul (ToVector3 (color light_params)) visibility) lambert)"

text \<open>The same as the claim words it, with the reversed light direction as it is given.\<close>

definition claimed_direct_contribution ::
  "'g EmbreeScene \<Rightarrow> LightmapChartBakedGeometry \<Rightarrow> DirectionalLightParameters \<Rightarrow> nat \<Rightarrow> Vector3" where
  "claimed_direct_contribution embreeScene bakedGeometry light_params k =
     (let reverse = v3_neg (direction light_params);
          origin = v3_add (geometryPositions bakedGeometry ! k) (v3_mul reverse 0.001);
          visibility = (if rtcIntersect1 embreeScene origin reverse (GetMaxDistance embreeScene) = None
                        then 1 else 0);
          lambert = max 0 (DotProduct (smoothNormals bakedGeometry ! k) reverse)
      in v3_mul (v3_mul (ToVector3 (color light_params)) visibility) lambert)"

text \<open>
  The recorded pairs combined as the specification words it: from an accumulator of
  zero, from the last pair to the first, \<open>accumulator = (accumulator + sample) * weight\<close>.
\<close>

definition combine_back_to_front :: "(Vector3 \<times> float) list \<Rightarrow> Vector3" where
  "combine_back_to_front recorded =
     foldr (\<lambda>pair accumulator. v3_mul (v3_add accumulator (fst pair)) (snd pair))
       recorded v3_zero"

text \<open>
  The generator across the calls of \<^verbatim>\<open>RandomDirection\<close>: whether its values
  suffice for the next \<open>n\<close> calls to return a direction (a call may reject triples, and
  fails on a triple of length zero), and the values left after these calls.
\<close>

fun supplies :: "nat \<Rightarrow> float list \<Rightarrow> bool" where
  "supplies 0 rs = True"
| "supplies (Suc n) rs =
     (case RandomDirection rs of Inl e \<Rightarrow> False | Inr (d, rs') \<Rightarrow> supplies n rs')"

fun after_draws :: "nat \<Rightarrow> float list \<Rightarrow> float list" where
  "after_draws 0 rs = rs"
| "after_draws (Suc n) rs =
     (case RandomDirection rs of Inl e \<Rightarrow> rs | Inr (d, rs') \<Rightarrow> after_draws n rs')"

text \<open>
  The number of texels with geometry before texel \<open>i\<close>, and the generator when the path
  of texel \<open>i\<close> starts: the tasks run in posting order, each over its texels in
  ascending order, and every texel with geometry draws one direction per bounce.
\<close>

definition texels_before :: "LightmapChartBakedGeometry \<Rightarrow> nat \<Rightarrow> nat" where
  "texels_before bakedGeometry i =
     length (filter (\<lambda>k. geometryIds bakedGeometry ! k \<noteq> 0) [0..<i])"

definition generator_at ::
  "LightmapChartBakedGeometry \<Rightarrow> LightmapTracingSettings \<Rightarrow> float list \<Rightarrow> nat \<Rightarrow> float list" where
  "generator_at bakedGeometry settings random i =
     after_draws (unat (numBounces settings) * texels_before bakedGeometry i) random"

text \<open>
  The directions of the next \<open>n\<close> rays of a path that stays at a point with normal
  \<open>normal\<close>, which a path does as long as its rays miss.
\<close>

fun drawn_directions :: "Vector3 \<Rightarrow> nat \<Rightarrow> float list \<Rightarrow> Vector3 list" where
  "drawn_directions normal 0 rs = []"
| "drawn_directions normal (Suc n) rs =
     (case RandomHemisphereDirection normal rs of
        Inl e \<Rightarrow> []
      | Inr (d, rs') \<Rightarrow> d # drawn_directions normal n rs')"

text \<open>
  The pairs a path records, as the specification describes a path: each bounce draws a
  direction in the hemisphere about the current normal and casts a ray from the current
  position, offset along the normal; a hit records the sample of the chart at the hit's
  lightmap UV with the weight \<open>brdf * cosTheta / probability\<close>, and moves the path to
  the point hit and its geometric normal; a miss records nothing and leaves the path where
  it is. The pairs are given for the paths whose hits all come before their misses, and
  \<open>None\<close> otherwise (a hit after a miss, or a generator that runs out).
\<close>

fun path_pairs ::
  "Environment \<Rightarrow> 'g EmbreeScene \<Rightarrow> LightmapChartBakedDirect \<Rightarrow> LightmapTracingSettings \<Rightarrow>
   nat \<Rightarrow> Vector3 \<Rightarrow> Vector3 \<Rightarrow> float list \<Rightarrow> (Vector3 \<times> float) list option" where
  "path_pairs env embreeScene chart settings 0 position normal rs = Some []"
| "path_pairs env embreeScene chart settings (Suc bounces) position normal rs =
     (case RandomHemisphereDirection normal rs of
        Inl e \<Rightarrow> None
      | Inr (rayDirection, rs') \<Rightarrow>
          let origin = v3_add position (v3_mul normal (rayPositionOffset settings))
          in
            case rtcIntersect1 embreeScene origin rayDirection (GetMaxDistance embreeScene) of
              None \<Rightarrow>
                if list_all
                     (\<lambda>d. rtcIntersect1 embreeScene origin d (GetMaxDistance embreeScene) = None)
                     (drawn_directions normal bounces rs')
                then Some [] else None
            | Some hit \<Rightarrow>
                let brdf = (1 / pi) / pi;
                    cosTheta = DotProduct rayDirection normal;
                    probability = 1 / (2 * pi);
                    sample = SampleNearest env chart
                               (rtcInterpolate0 embreeScene
                                  (GetEmbreeGeometryIndex embreeScene ! hit_geomID hit)
                                  (hit_primID hit) (hit_u hit) (hit_v hit))
                in
                  case path_pairs env embreeScene chart settings bounces
                         (v3_add origin (v3_mul rayDirection (hit_tfar hit)))
                         (Normalized (hit_Ng hit)) rs' of
                    None \<Rightarrow> None
                  | Some pairs \<Rightarrow> Some ((sample, brdf * cosTheta / probability) # pairs))"

subsection \<open>Example inputs\<close>

text \<open>A chart of two texels in a row, the first without geometry, under an empty sky.\<close>

definition example_env :: Environment where
  "example_env =
     \<lparr>assertions = True, M_EPSILON = 1 / 1000000, MaxBounces = 16,
      Pow = (\<lambda>x y. x powr y),
      Luma = (\<lambda>c. 0.299 * color_r c + 0.587 * color_g c + 0.114 * color_b c),
      SampleNearest = (\<lambda>chart uv. case directLight chart of [] \<Rightarrow> v3_zero | c # cs \<Rightarrow> c),
      uninitialized = (\<lambda>k. 0)\<rparr>"

definition example_geometry :: LightmapChartBakedGeometry where
  "example_geometry =
     \<lparr>geometryPositions = [Vector3 0 0 0, Vector3 1 0 0],
      smoothNormals = [Vector3 0 0 1, Vector3 0 0 1],
      geometryIds = [0, 1],
      IndexToLocation = (\<lambda>k. (int k, 0)),
      IsValidLocation = (\<lambda>p. 0 \<le> fst p \<and> fst p < 2 \<and> snd p = 0),
      LocationToIndex = (\<lambda>p. nat (fst p))\<rparr>"

definition empty_scene :: "unit EmbreeScene" where
  "empty_scene =
     \<lparr>GetMaxDistance = 100, GetEmbreeGeometryIndex = [],
      rtcIntersect1 = (\<lambda>org dir tfar. None),
      rtcInterpolate0 = (\<lambda>geometry primID u v. Vector2 0 0)\<rparr>"

definition example_light :: DirectionalLightParameters where
  "example_light = \<lparr>direction = Vector3 0 0 (- 1), color = Color 1 1 1 1\<rparr>"

definition example_settings :: LightmapTracingSettings where
  "example_settings = \<lparr>numThreads = 2, numBounces = 0, rayPositionOffset = 1 / 1000\<rparr>"

definition example_direct :: LightmapChartBakedDirect where
  "example_direct = \<lparr>directLight = [Vector3 0 0 0, Vector3 0 0 0]\<rparr>"

definition example_indirect :: LightmapChartBakedIndirect where
  "example_indirect =
     \<lparr>light = [Vector4 5 5 5 5, Vector4 1 2 3 4],
      lightSwap = [Vector4 0 0 0 0, Vector4 0 0 0 0]\<rparr>"

definition example_filter :: IndirectFilterParameters where
  "example_filter =
     \<lparr>kernelRadius = 0, upscale = 1, luminanceSigma = 10, positionSigma = 10,
      normalPower = 4\<rparr>"

text \<open>A scene in which only a ray straight up hits something, one unit away.\<close>

definition ceiling_scene :: "unit EmbreeScene" where
  "ceiling_scene =
     \<lparr>GetMaxDistance = 100, GetEmbreeGeometryIndex = [()],
      rtcIntersect1 = (\<lambda>org dir tfar.
         if dir = Vector3 0 0 1
         then Some \<lparr>hit_tfar = 1, hit_geomID = 0, hit_primID = 0, hit_u = 0, hit_v = 0,
                    hit_Ng = Vector3 0 0 (- 1)\<rparr>
         else None),
      rtcInterpolate0 = (\<lambda>geometry primID u v. Vector2 0 0)\<rparr>"

definition example_path :: path_state where
  "example_path =
     \<lparr>numSamples = 0, currentPosition = Vector3 0 0 0, currentNormal = Vector3 0 0 1,
      incomingSamples = replicate 16 v3_zero, incomingFactors = replicate 16 0,
      rng = [0, 0, 1]\<rparr>"

definition one_bounce :: LightmapTracingSettings where
  "one_bounce = \<lparr>numThreads = 1, numBounces = 1, rayPositionOffset = 1 / 1000\<rparr>"

text \<open>Two charts of baked direct light, a build without assertions, a chart without any
  geometry, and settings outside the supported configuration.\<close>

definition lit_chart :: LightmapChartBakedDirect where
  "lit_chart = \<lparr>directLight = [Vector3 1 1 1]\<rparr>"

definition other_chart :: LightmapChartBakedDirect where
  "other_chart = \<lparr>directLight = [Vector3 9 9 9]\<rparr>"

definition ndebug_env :: Environment where
  "ndebug_env = example_env\<lparr>assertions := False\<rparr>"

definition blank_geometry :: LightmapChartBakedGeometry where
  "blank_geometry = example_geometry\<lparr>geometryIds := [0, 0]\<rparr>"

definition wide_filter :: IndirectFilterParameters where
  "wide_filter = example_filter\<lparr>kernelRadius := 3\<rparr>"

definition many_bounces :: LightmapTracingSettings where
  "many_bounces = \<lparr>numThreads = 1, numBounces = 17, rayPositionOffset = 1 / 1000\<rparr>"

text \<open>A light whose direction is not of unit length.\<close>

definition long_light :: DirectionalLightParameters where
  "long_light = \<lparr>direction = Vector3 0 0 (- 2), color = Color 1 1 1 1\<rparr>"

text \<open>A chart of one texel without geometry whose two buffers differ.\<close>

definition hole_geometry :: LightmapChartBakedGeometry where
  "hole_geometry =
     \<lparr>geometryPositions = [Vector3 0 0 0], smoothNormals = [Vector3 0 0 1],
      geometryIds = [0],
      IndexToLocation = (\<lambda>k. (int k, 0)),
      IsValidLocation = (\<lambda>p. fst p = 0 \<and> snd p = 0),
      LocationToIndex = (\<lambda>p. nat (fst p))\<rparr>"

definition hole_indirect :: LightmapChartBakedIndirect where
  "hole_indirect = \<lparr>light = [Vector4 1 1 1 1], lightSwap = [Vector4 0 0 0 0]\<rparr>"

text \<open>A chart of two texels with geometry, filtered with radius 1.\<close>

definition pair_geometry :: LightmapChartBakedGeometry where
  "pair_geometry = example_geometry\<lparr>geometryIds := [1, 1]\<rparr>"




text \<open>A chart of one texel with geometry, traced with two bounces.\<close>

definition lit_texel_geometry :: LightmapChartBakedGeometry where
  "lit_texel_geometry = hole_geometry\<lparr>geometryIds := [1]\<rparr>"

definition dark_indirect :: LightmapChartBakedIndirect where
  "dark_indirect = \<lparr>light = [Vector4 0 0 0 0], lightSwap = [Vector4 0 0 0 0]\<rparr>"

definition two_bounces :: LightmapTracingSettings where
  "two_bounces = \<lparr>numThreads = 1, numBounces = 2, rayPositionOffset = 1 / 1000\<rparr>"


text \<open>A floor: only a ray going down hits it. A dome: every ray going up hits it, one unit
  away. Two worker threads with one bounce, and a path about to trace its second bounce.\<close>

definition floor_scene :: "unit EmbreeScene" where
  "floor_scene =
     \<lparr>GetMaxDistance = 100, GetEmbreeGeometryIndex = [()],
      rtcIntersect1 = (\<lambda>org dir tfar.
         if v3z dir < 0
         then Some \<lparr>hit_tfar = 1, hit_geomID = 0, hit_primID = 0, hit_u = 0, hit_v = 0,
                    hit_Ng = Vector3 0 0 1\<rparr>
         else None),
      rtcInterpolate0 = (\<lambda>geometry primID u v. Vector2 0 0)\<rparr>"

definition dome_scene :: "unit EmbreeScene" where
  "dome_scene =
     \<lparr>GetMaxDistance = 100, GetEmbreeGeometryIndex = [()],
      rtcIntersect1 = (\<lambda>org dir tfar.
         if 0 < v3z dir
         then Some \<lparr>hit_tfar = 1, hit_geomID = 0, hit_primID = 0, hit_u = 0, hit_v = 0,
                    hit_Ng = Vector3 0 0 (- 1)\<rparr>
         else None),
      rtcInterpolate0 = (\<lambda>geometry primID u v. Vector2 0 0)\<rparr>"

definition two_workers :: LightmapTracingSettings where
  "two_workers = \<lparr>numThreads = 2, numBounces = 1, rayPositionOffset = 1 / 1000\<rparr>"

definition slanted_path :: path_state where
  "slanted_path = example_path\<lparr>rng := [0, 3 / 5, 4 / 5]\<rparr>"

text \<open>A closed room: every ray hits a wall one unit away.\<close>

definition closed_scene :: "unit EmbreeScene" where
  "closed_scene =
     \<lparr>GetMaxDistance = 100, GetEmbreeGeometryIndex = [()],
      rtcIntersect1 = (\<lambda>org dir tfar.
         Some \<lparr>hit_tfar = 1, hit_geomID = 0, hit_primID = 0, hit_u = 0, hit_v = 0,
               hit_Ng = Vector3 0 0 (- 1)\<rparr>),
      rtcInterpolate0 = (\<lambda>geometry primID u v. Vector2 0 0)\<rparr>"

section \<open>Properties\<close>

subsection \<open>ParallelFor\<close>

lemma post_tasks_unroll:
  "unat i \<le> unat threads \<Longrightarrow>
   post_tasks count threads chunkSize i tasks =
     tasks @ map (\<lambda>k. chunk_bounds count chunkSize (of_nat k)) [unat i..<unat threads]"
proof (induction count threads chunkSize i tasks rule: post_tasks.induct)
  case (1 count threads chunkSize i tasks)
  show ?case
  proof (cases "i < threads")
    case True
    then have lt: "unat i < unat threads" by (simp add: word_less_nat_alt)
    have suc: "unat (i + 1) = Suc (unat i)" by (rule unat_Suc_less [OF True])
    have "post_tasks count threads chunkSize i tasks =
          post_tasks count threads chunkSize (i + 1) (tasks @ [chunk_bounds count chunkSize i])"
      using True by (subst post_tasks.simps) simp
    also have "\<dots> = (tasks @ [chunk_bounds count chunkSize i]) @
        map (\<lambda>k. chunk_bounds count chunkSize (of_nat k)) [unat (i + 1)..<unat threads]"
      using "1.IH" [OF True] lt suc by simp
    also have "\<dots> = tasks @ map (\<lambda>k. chunk_bounds count chunkSize (of_nat k)) [unat i..<unat threads]"
      using lt suc by (simp add: upt_conv_Cons)
    finally show ?thesis .
  next
    case False
    then have "unat i = unat threads" using "1.prems" by (simp add: word_less_nat_alt)
    moreover have "post_tasks count threads chunkSize i tasks = tasks"
      using False by (subst post_tasks.simps) simp
    ultimately show ?thesis by simp
  qed
qed

text \<open>Arithmetic of the chunking on naturals.\<close>

lemma ceil_div_cover:
  assumes "0 < (n::nat)"
  shows "c \<le> n * ((c + n - 1) div n)"
proof -
  have "c + n - 1 = n * ((c + n - 1) div n) + (c + n - 1) mod n" by simp
  moreover have "(c + n - 1) mod n < n" using assms by simp
  ultimately show ?thesis by linarith
qed

lemma ceil_div_upper: "0 < (n::nat) \<Longrightarrow> n * ((c + n - 1) div n) \<le> c + n - 1"
  by simp

lemma chunk_end_bound:
  assumes "0 < (n::nat)" "k < n"
  shows "k * ((c + n - 1) div n) + (c + n - 1) div n \<le> c + n - 1"
proof -
  have "Suc k * ((c + n - 1) div n) \<le> n * ((c + n - 1) div n)"
    using assms by (intro mult_le_mono1) simp
  also have "\<dots> \<le> c + n - 1" by simp
  finally show ?thesis by simp
qed

lemma upt_join: "i \<le> j \<Longrightarrow> j \<le> k \<Longrightarrow> [i..<j] @ [j..<k] = [i..<(k::nat)]"
  using upt_add_eq_append [of i j "k - j"] by simp

lemma concat_chunks_nat:
  "concat (map (\<lambda>k. [k * cs..<min (k * cs + cs) c]) [0..<m]) = [0..<min (m * cs) c]"
proof (induction m)
  case 0
  show ?case by simp
next
  case (Suc m)
  show ?case
  proof (cases "m * cs \<le> c")
    case True
    then have "[0..<min (m * cs) c] @ [m * cs..<min (m * cs + cs) c] = [0..<min (m * cs + cs) c]"
      by (simp add: min_def upt_join)
    then show ?thesis using Suc by (simp add: add.commute)
  next
    case False
    then show ?thesis using Suc by (simp add: min_def)
  qed
qed


lemma unat_of_nat_u32: "k < 2 ^ 32 \<Longrightarrow> unat (word_of_nat k :: u32) = k"
  by (simp add: unat_of_nat)

lemma unat_chunkSize:
  fixes count threads :: u32
  assumes "threads \<noteq> 0" and "unat count + unat threads - 1 < 2 ^ 32"
  shows "unat ((count + threads - 1) div threads) =
         (unat count + unat threads - 1) div unat threads"
proof -
  have pos: "0 < unat threads" using assms(1) by (simp add: unat_gt_0)
  have "count + threads - 1 = word_of_nat (unat count + unat threads - 1)"
    using pos by (simp add: of_nat_diff)
  then have "unat (count + threads - 1) = unat count + unat threads - 1"
    using assms(2) by (simp add: unat_of_nat_u32)
  then show ?thesis by (simp add: unat_div)
qed

lemma unat_chunk_bounds:
  fixes count chunkSize :: u32
  assumes "k * unat chunkSize + unat chunkSize < 2 ^ 32"
  shows "chunk_bounds count chunkSize (word_of_nat k) =
           (word_of_nat (k * unat chunkSize),
            word_of_nat (min (k * unat chunkSize + unat chunkSize) (unat count)))"
    and "unat (fst (chunk_bounds count chunkSize (word_of_nat k))) = k * unat chunkSize"
    and "unat (snd (chunk_bounds count chunkSize (word_of_nat k))) =
           min (k * unat chunkSize + unat chunkSize) (unat count)"
proof -
  have lt: "k * unat chunkSize < 2 ^ 32" using assms by linarith
  have f: "word_of_nat k * chunkSize = (word_of_nat (k * unat chunkSize) :: u32)"
    by simp
  have uf: "unat (word_of_nat k * chunkSize) = k * unat chunkSize"
    unfolding f using lt by (rule unat_of_nat_u32)
  have t: "word_of_nat k * chunkSize + chunkSize = (word_of_nat (k * unat chunkSize + unat chunkSize) :: u32)"
    by simp
  have ut: "unat (word_of_nat k * chunkSize + chunkSize) = k * unat chunkSize + unat chunkSize"
    unfolding t using assms by (rule unat_of_nat_u32)
  have um: "unat (min (word_of_nat k * chunkSize + chunkSize) count) =
            min (k * unat chunkSize + unat chunkSize) (unat count)"
    using ut by (simp add: min_def word_le_nat_alt)
  show "unat (fst (chunk_bounds count chunkSize (word_of_nat k))) = k * unat chunkSize"
    using uf by (simp add: chunk_bounds_def Let_def)
  show "unat (snd (chunk_bounds count chunkSize (word_of_nat k))) =
           min (k * unat chunkSize + unat chunkSize) (unat count)"
    using um by (simp add: chunk_bounds_def Let_def)
  have "min (word_of_nat k * chunkSize + chunkSize) count =
        word_of_nat (min (k * unat chunkSize + unat chunkSize) (unat count))"
    using um by (metis of_nat_unat ucast_id)
  then show "chunk_bounds count chunkSize (word_of_nat k) =
           (word_of_nat (k * unat chunkSize),
            word_of_nat (min (k * unat chunkSize + unat chunkSize) (unat count)))"
    by (simp add: chunk_bounds_def Let_def)
qed


lemma for_each_append:
  "for_each step (ks @ ls) s =
     (case for_each step ks s of Inl e \<Rightarrow> Inl e | Inr s' \<Rightarrow> for_each step ls s')"
  by (induction ks arbitrary: s) (auto split: sum.splits)

lemma for_range_for_each:
  "for_range body i toIndex s =
     for_each (\<lambda>k. body (word_of_nat k)) [unat i..<unat toIndex] s"
proof (induction body i toIndex s rule: for_range.induct)
  case (1 body i toIndex s)
  show ?case
  proof (cases "i < toIndex")
    case True
    then have lt: "unat i < unat toIndex" by (simp add: word_less_nat_alt)
    have suc: "unat (i + 1) = Suc (unat i)" by (rule unat_Suc_less [OF True])
    show ?thesis
    proof (cases "body i s")
      case (Inl e)
      then show ?thesis using True lt
        by (subst for_range.simps) (simp add: upt_conv_Cons)
    next
      case (Inr s')
      then show ?thesis using True lt suc "1.IH" [OF True Inr]
        by (subst for_range.simps) (simp add: upt_conv_Cons)
    qed
  next
    case False
    then have "\<not> unat i < unat toIndex" by (simp add: word_less_nat_alt)
    then show ?thesis using False by (subst for_range.simps) simp
  qed
qed

lemma wait_tasks_for_range:
  "wait_tasks (for_range body) tasks s =
     for_each (\<lambda>k. body (word_of_nat k)) (concat (map chunk_indices tasks)) s"
proof (induction tasks arbitrary: s)
  case Nil
  show ?case by simp
next
  case (Cons t tasks)
  obtain f u where t: "t = (f, u)" by (cases t)
  have "wait_tasks (for_range body) (t # tasks) s =
        (case for_range body f u s of
           Inl e \<Rightarrow> Inl e
         | Inr s' \<Rightarrow> for_each (\<lambda>k. body (word_of_nat k)) (concat (map chunk_indices tasks)) s')"
    by (simp add: t Cons.IH cong: sum.case_cong)
  also have "\<dots> =
        (case for_each (\<lambda>k. body (word_of_nat k)) (chunk_indices t) s of
           Inl e \<Rightarrow> Inl e
         | Inr s' \<Rightarrow> for_each (\<lambda>k. body (word_of_nat k)) (concat (map chunk_indices tasks)) s')"
    by (simp only: for_range_for_each chunk_indices_def t fst_conv snd_conv)
  finally show ?case by (simp add: for_each_append)
qed

lemma post_tasks_chunks:
  fixes count threads :: u32
  assumes nz: "threads \<noteq> 0" and small: "unat count + unat threads - 1 < 2 ^ 32"
  shows "concat (map chunk_indices
           (post_tasks count threads ((count + threads - 1) div threads) 0 [])) =
         [0..<unat count]"
proof -
  let ?n = "unat threads" and ?c = "unat count"
  let ?cs = "(count + threads - 1) div threads"
  have pos: "0 < ?n" using nz by (simp add: unat_gt_0)
  have cs: "unat ?cs = (?c + ?n - 1) div ?n" by (rule unat_chunkSize [OF nz small])
  have bound: "k * unat ?cs + unat ?cs < 2 ^ 32" if "k < ?n" for k
    using chunk_end_bound [OF pos that, of ?c] small unfolding cs by linarith
  have "chunk_indices (chunk_bounds count ?cs (word_of_nat k)) =
        [k * unat ?cs..<min (k * unat ?cs + unat ?cs) ?c]" if "k < ?n" for k
    using unat_chunk_bounds(2,3) [OF bound [OF that], of count]
    by (simp add: chunk_indices_def)
  then have "map (\<lambda>k. chunk_indices (chunk_bounds count ?cs (word_of_nat k))) [0..<?n] =
        map (\<lambda>k. [k * unat ?cs..<min (k * unat ?cs + unat ?cs) ?c]) [0..<?n]"
    by (intro map_cong) simp_all
  moreover have "map chunk_indices (post_tasks count threads ?cs 0 []) =
        map (\<lambda>k. chunk_indices (chunk_bounds count ?cs (word_of_nat k))) [0..<?n]"
    by (simp add: post_tasks_unroll comp_def)
  ultimately have "concat (map chunk_indices (post_tasks count threads ?cs 0 [])) =
        concat (map (\<lambda>k. [k * unat ?cs..<min (k * unat ?cs + unat ?cs) ?c]) [0..<?n])"
    by (simp only:)
  also have "\<dots> = [0..<min (?n * unat ?cs) ?c]" by (rule concat_chunks_nat)
  also have "min (?n * unat ?cs) ?c = ?c"
    using ceil_div_cover [OF pos, of ?c] unfolding cs by simp
  finally show ?thesis .
qed

lemma ParallelFor_sequential:
  fixes count threads :: u32
  assumes "threads \<noteq> 0" and "unat count + unat threads - 1 < 2 ^ 32"
  shows "ParallelFor count threads (for_range body) s =
         for_each (\<lambda>k. body (word_of_nat k)) [0..<unat count] s"
  using assms by (simp add: ParallelFor_def Let_def wait_tasks_for_range post_tasks_chunks)


lemma ceil_div_eq:
  assumes "0 < n"
  shows "ceil_div c n = (c + n - 1) div n"
proof -
  let ?q = "(c + n - 1) div n"
  have up: "c \<le> n * ?q" by (rule ceil_div_cover [OF assms])
  have "n * ?q \<le> c + n - 1" by simp
  then have lo: "n * ?q < c + n" using assms by linarith
  have "real c \<le> real n * real ?q" using up by (metis of_nat_le_iff of_nat_mult)
  then have a: "real c / real n \<le> of_int (int ?q)"
    using assms by (simp add: divide_le_eq mult.commute)
  have "real n * real ?q < real c + real n" using lo by (metis of_nat_less_iff of_nat_mult of_nat_add)
  then have "real n * (real ?q - 1) < real c" by (simp add: algebra_simps)
  then have b: "of_int (int ?q) - 1 < real c / real n"
    using assms by (simp add: less_divide_eq mult.commute)
  have "\<lceil>real c / real n\<rceil> = int ?q" by (rule ceiling_unique [OF b a])
  then show ?thesis by (simp add: ceil_div_def)
qed

lemma wait_tasks_record: "wait_tasks record_chunk tasks calls = Inr (calls @ tasks)"
  by (induction tasks arbitrary: calls) (auto simp: record_chunk_def)


subsection \<open>Invariants of the loops\<close>

lemma for_each_invariant:
  assumes "\<And>k s s'. k \<in> set ks \<Longrightarrow> step k s = Inr s' \<Longrightarrow> P s \<Longrightarrow> P s'"
    and "for_each step ks s = Inr s'" and "P s"
  shows "P s'"
  using assms
proof (induction ks arbitrary: s)
  case Nil
  then show ?case by simp
next
  case (Cons k ks)
  from Cons.prems(2) obtain s1 where s1: "step k s = Inr s1"
    and rest: "for_each step ks s1 = Inr s'"
    by (auto split: sum.splits)
  have "P s1" using Cons.prems(1) [of k s s1] s1 Cons.prems(3) by simp
  moreover have "\<And>j t t'. j \<in> set ks \<Longrightarrow> step j t = Inr t' \<Longrightarrow> P t \<Longrightarrow> P t'"
    using Cons.prems(1) by (meson list.set_intros(2))
  ultimately show ?case using Cons.IH [OF _ rest] by blast
qed

lemma for_range_invariant:
  assumes "\<And>k s s'. body k s = Inr s' \<Longrightarrow> P s \<Longrightarrow> P s'"
    and "for_range body i toIndex s = Inr s'" and "P s"
  shows "P s'"
  using for_each_invariant [where step = "\<lambda>k. body (word_of_nat k)" and P = P
      and ks = "[unat i..<unat toIndex]" and s = s and s' = s'] assms
  unfolding for_range_for_each
  by blast

lemma wait_tasks_invariant:
  assumes "\<And>task s s'. task \<in> set tasks \<Longrightarrow> callback (fst task) (snd task) s = Inr s' \<Longrightarrow>
             P s \<Longrightarrow> P s'"
    and "wait_tasks callback tasks s = Inr s'" and "P s"
  shows "P s'"
  using assms
proof (induction tasks arbitrary: s)
  case Nil
  then show ?case by simp
next
  case (Cons task tasks)
  obtain f t where task: "task = (f, t)" by (cases task)
  from Cons.prems(2) obtain s1 where s1: "callback f t s = Inr s1"
    and rest: "wait_tasks callback tasks s1 = Inr s'"
    by (auto simp: task split: sum.splits)
  have "P s1" using Cons.prems(1) [of task s s1] s1 Cons.prems(3) by (simp add: task)
  moreover have "\<And>u t t'. u \<in> set tasks \<Longrightarrow> callback (fst u) (snd u) t = Inr t' \<Longrightarrow>
                   P t \<Longrightarrow> P t'"
    using Cons.prems(1) by (meson list.set_intros(2))
  ultimately show ?case using Cons.IH [OF _ rest] by blast
qed

lemma ParallelFor_invariant:
  assumes inv: "\<And>f t s s'. callback f t s = Inr s' \<Longrightarrow> P s \<Longrightarrow> P s'"
    and run: "ParallelFor count n callback s = Inr s'" and init: "P s"
  shows "P s'"
proof -
  from run have w: "wait_tasks callback
      (post_tasks count n ((count + n - 1) div n) 0 []) s = Inr s'"
    by (auto simp: ParallelFor_def Let_def split: if_splits)
  show "P s'"
    by (rule wait_tasks_invariant [where P = P, OF _ w init]) (rule inv)
qed

text \<open>A loop over \<open>[0, m)\<close> whose step \<open>k\<close> rewrites entry \<open>k\<close> of a buffer from its old value.\<close>

lemma for_each_pointwise:
  assumes step: "\<And>k buf. k < N \<Longrightarrow> length buf = N \<Longrightarrow>
                   step k buf = Inr (buf[k := f k (buf ! k)])"
    and m: "m \<le> N" and len: "length L = N"
  shows "for_each step [0..<m] L =
         Inr (map (\<lambda>k. if k < m then f k (L ! k) else L ! k) [0..<N])"
  using m
proof (induction m)
  case 0
  have "map (\<lambda>k. L ! k) [0..<N] = L" using len map_nth [of L] by simp
  then show ?case by simp
next
  case (Suc m)
  let ?Lm = "map (\<lambda>k. if k < m then f k (L ! k) else L ! k) [0..<N]"
  have mN: "m < N" using Suc.prems by simp
  have prev: "for_each step [0..<m] L = Inr ?Lm" using Suc by simp
  have lm: "length ?Lm = N" by simp
  have at: "?Lm ! m = L ! m" using mN by simp
  have "?Lm[m := f m (?Lm ! m)] =
        map (\<lambda>k. if k < Suc m then f k (L ! k) else L ! k) [0..<N]"
    by (rule nth_equalityI) (auto simp: nth_list_update less_Suc_eq mN)
  then have "step m ?Lm = Inr (map (\<lambda>k. if k < Suc m then f k (L ! k) else L ! k) [0..<N])"
    using step [OF mN lm] by simp
  then show ?case by (simp add: for_each_append prev)
qed

lemma unat_of_nat_small: "k < N \<Longrightarrow> N < 2 ^ 32 \<Longrightarrow> unat (word_of_nat k :: u32) = k"
  by (simp add: unat_of_nat_u32)

text \<open>The whole call as one loop over the buffer.\<close>

lemma ParallelFor_pointwise:
  fixes threads :: u32
  assumes step: "\<And>k buf. k < N \<Longrightarrow> length buf = N \<Longrightarrow>
                   body (word_of_nat k) buf = Inr (buf[k := f k (buf ! k)])"
    and nz: "threads \<noteq> 0" and small: "N + unat threads - 1 < 2 ^ 32" and len: "length L = N"
  shows "ParallelFor (word_of_nat N) threads (for_range body) L =
         Inr (map (\<lambda>k. f k (L ! k)) [0..<N])"
proof -
  have "0 < unat threads" using nz by (simp add: unat_gt_0)
  then have N: "N < 2 ^ 32" using small by linarith
  then have u: "unat (word_of_nat N :: u32) = N" by (rule unat_of_nat_u32)
  have "ParallelFor (word_of_nat N) threads (for_range body) L =
        for_each (\<lambda>k. body (word_of_nat k)) [0..<N] L"
    using ParallelFor_sequential [of threads "word_of_nat N" body L] nz small u by simp
  also have "\<dots> = Inr (map (\<lambda>k. if k < N then f k (L ! k) else L ! k) [0..<N])"
    by (rule for_each_pointwise [OF step _ len]) simp_all
  also have "map (\<lambda>k. if k < N then f k (L ! k) else L ! k) [0..<N] =
             map (\<lambda>k. f k (L ! k)) [0..<N]"
    by (rule map_cong) simp_all
  finally show ?thesis .
qed


subsection \<open>The example inputs, evaluated\<close>

lemmas run_simps = ParallelFor_def Let_def post_tasks.simps chunk_bounds_def
  for_range.simps

lemma ev_direct:
  "BakeDirectionalLight example_direct example_geometry empty_scene example_light example_settings
     = Inr \<lparr>directLight = [Vector3 0 0 0, Vector3 1 1 1]\<rparr>"
  by (simp add: BakeDirectionalLight_def run_simps direct_texel_def example_direct_def
      example_geometry_def empty_scene_def example_light_def example_settings_def
      Normalized_def LengthSquared_def v3_neg_def v3_mul_def v3_add_def ToVector3_def DotProduct_def)

lemma ev_indirect:
  "BakeIndirectLight example_env example_indirect [] example_geometry empty_scene example_settings []
     = Inr (\<lparr>light = [Vector4 5 5 5 5, Vector4 1 2 3 5], lightSwap = [Vector4 0 0 0 0, Vector4 0 0 0 0]\<rparr>, [])"
  by (simp add: BakeIndirectLight_def run_simps indirect_chunk_def indirect_texel_def
      example_indirect_def example_env_def
      example_geometry_def empty_scene_def example_settings_def
      v3_zero_def v4_add_def Vector4_of_def)

lemma ev_filter:
  "FilterIndirectLight example_env example_indirect example_geometry example_filter 2
     = Inr \<lparr>light = [Vector4 0 0 0 0, Vector4 1 2 3 4], lightSwap = [Vector4 5 5 5 5, Vector4 1 2 3 4]\<rparr>"
  by (simp add: FilterIndirectLight_def GetKernel_def run_simps filter_texel_def filter_sums_def filter_tap_def
      example_indirect_def example_env_def example_filter_def
      example_geometry_def v4_mul_def v4_div_def)

lemma ev_hemi: "RandomHemisphereDirection (Vector3 0 0 1) [0, 0, 1] = Inr (Vector3 0 0 1, [])"
  by (simp add: RandomHemisphereDirection_def Length_def LengthSquared_def v3_div_def DotProduct_def)

subsection \<open>C1: texels without geometry\<close>

lemma direct_texel_frame:
  assumes "geometryIds bakedGeometry ! i = 0"
    and "direct_texel embreeScene bakedGeometry rayDirection maxDistance lightColor k buf = Inr buf'"
  shows "buf' ! i = buf ! i"
proof (cases "unat k = i")
  case True
  then show ?thesis using assms by (auto simp: direct_texel_def Let_def split: if_splits)
next
  case False
  then show ?thesis using assms(2) by (auto simp: direct_texel_def Let_def split: if_splits)
qed

lemma indirect_texel_frame:
  assumes "geometryIds bakedGeometry ! i = 0"
    and "indirect_texel env embreeScene bakedDirect bakedGeometry settings k w = Inr w'"
  shows "w_light w' ! i = w_light w ! i"
proof (cases "unat k = i")
  case True
  then show ?thesis using assms
    by (auto simp: indirect_texel_def Let_def split: if_splits sum.splits)
next
  case False
  then show ?thesis using assms(2)
    by (auto simp: indirect_texel_def Let_def split: if_splits sum.splits)
qed

lemma indirect_chunk_frame:
  assumes zero: "geometryIds bakedGeometry ! i = 0"
    and run: "indirect_chunk env embreeScene bakedDirect bakedGeometry settings f t s = Inr s'"
  shows "fst s' ! i = fst s ! i"
proof -
  let ?w = "\<lparr>w_light = fst s, w_rng = snd s,
              w_samples = replicate (MaxBounces env) v3_zero,
              w_factors = map (uninitialized env) [0..<MaxBounces env]\<rparr>"
  from run obtain w' where w': "for_range (indirect_texel env embreeScene bakedDirect bakedGeometry settings)
      f t ?w = Inr w'" and s': "s' = (w_light w', w_rng w')"
    by (auto simp: indirect_chunk_def split: sum.splits)
  have "w_light w' ! i = fst s ! i"
    by (rule for_range_invariant [where P = "\<lambda>w. w_light w ! i = fst s ! i", OF _ w'])
       (simp_all add: indirect_texel_frame [OF zero])
  then show ?thesis by (simp add: s')
qed

lemma filter_texel_frame:
  assumes "geometryIds bakedGeometry ! i = 0"
    and "filter_texel env bakedIndirect bakedGeometry params kernelWeights k swap = Inr swap'"
  shows "swap' ! i = swap ! i"
proof (cases "unat k = i")
  case True
  then show ?thesis using assms
    by (auto simp: filter_texel_def Let_def split: if_splits sum.splits prod.splits)
next
  case False
  then show ?thesis using assms(2)
    by (auto simp: filter_texel_def Let_def split: if_splits sum.splits prod.splits)
qed

text \<open>
  C1 (as amended). A texel whose geometry id is 0 is never written: the direct baker and
  the indirect baker leave its entry of their buffer as it was. The filter writes
  neither of its two buffers at that texel and then swaps them, so after the call the
  current buffer holds there what the scratch buffer held before the call (and the
  scratch buffer what the current one held): the texel's value is as before whenever
  the two buffers agreed on it.
\<close>

theorem empty_texel_not_written:
  assumes "i < length (geometryIds bakedGeometry)" and "geometryIds bakedGeometry ! i = 0"
  shows "(BakeDirectionalLight bakedDirect bakedGeometry embreeScene light_params settings
            = Inr bakedDirect'
          \<longrightarrow> directLight bakedDirect' ! i = directLight bakedDirect ! i)
       \<and> (BakeIndirectLight env bakedIndirect charts bakedGeometry embreeScene settings random
            = Inr (bakedIndirect', random')
          \<longrightarrow> light bakedIndirect' ! i = light bakedIndirect ! i
              \<and> lightSwap bakedIndirect' = lightSwap bakedIndirect)
       \<and> (FilterIndirectLight env bakedIndirect bakedGeometry params threads
            = Inr filtered
          \<longrightarrow> light filtered ! i = lightSwap bakedIndirect ! i
              \<and> lightSwap filtered ! i = light bakedIndirect ! i
              \<and> (lightSwap bakedIndirect ! i = light bakedIndirect ! i
                   \<longrightarrow> light filtered ! i = light bakedIndirect ! i))"
proof -
  have d: "BakeDirectionalLight bakedDirect bakedGeometry embreeScene light_params settings
            = Inr bakedDirect'
          \<longrightarrow> directLight bakedDirect' ! i = directLight bakedDirect ! i"
  proof
    assume "BakeDirectionalLight bakedDirect bakedGeometry embreeScene light_params settings
              = Inr bakedDirect'"
    then obtain buf where
      run: "ParallelFor (word_of_nat (length (directLight bakedDirect))) (numThreads settings)
              (for_range (direct_texel embreeScene bakedGeometry
                 (v3_neg (Normalized (direction light_params))) (GetMaxDistance embreeScene)
                 (ToVector3 (color light_params))))
              (directLight bakedDirect) = Inr buf"
      and res: "bakedDirect' = bakedDirect\<lparr>directLight := buf\<rparr>"
      by (auto simp: BakeDirectionalLight_def Let_def split: sum.splits)
    have "buf ! i = directLight bakedDirect ! i"
      by (rule ParallelFor_invariant [where P = "\<lambda>b. b ! i = directLight bakedDirect ! i", OF _ run])
         (erule for_range_invariant [rotated], simp_all add: direct_texel_frame [OF assms(2)])
    then show "directLight bakedDirect' ! i = directLight bakedDirect ! i" by (simp add: res)
  qed
  have n: "BakeIndirectLight env bakedIndirect charts bakedGeometry embreeScene settings random
            = Inr (bakedIndirect', random')
          \<longrightarrow> light bakedIndirect' ! i = light bakedIndirect ! i
              \<and> lightSwap bakedIndirect' = lightSwap bakedIndirect"
  proof
    assume "BakeIndirectLight env bakedIndirect charts bakedGeometry embreeScene settings random
              = Inr (bakedIndirect', random')"
    then obtain buf where
      run: "ParallelFor (word_of_nat (length (light bakedIndirect))) (numThreads settings)
              (indirect_chunk env embreeScene charts bakedGeometry settings)
              (light bakedIndirect, random) = Inr (buf, random')"
      and res: "bakedIndirect' = bakedIndirect\<lparr>light := buf\<rparr>"
      by (auto simp: BakeIndirectLight_def split: sum.splits if_splits)
    have "fst (buf, random') ! i = light bakedIndirect ! i"
      by (rule ParallelFor_invariant [where P = "\<lambda>s. fst s ! i = light bakedIndirect ! i", OF _ run])
         (simp_all add: indirect_chunk_frame [OF assms(2)])
    then show "light bakedIndirect' ! i = light bakedIndirect ! i
                \<and> lightSwap bakedIndirect' = lightSwap bakedIndirect"
      by (simp add: res)
  qed
  have f: "FilterIndirectLight env bakedIndirect bakedGeometry params threads
            = Inr filtered
          \<longrightarrow> light filtered ! i = lightSwap bakedIndirect ! i
              \<and> lightSwap filtered ! i = light bakedIndirect ! i
              \<and> (lightSwap bakedIndirect ! i = light bakedIndirect ! i
                   \<longrightarrow> light filtered ! i = light bakedIndirect ! i)"
  proof
    assume "FilterIndirectLight env bakedIndirect bakedGeometry params threads = Inr filtered"
    then obtain kernelWeights swap where
      run: "ParallelFor (word_of_nat (length (light bakedIndirect))) threads
              (for_range (filter_texel env bakedIndirect bakedGeometry params kernelWeights))
              (lightSwap bakedIndirect) = Inr swap"
      and res: "filtered = bakedIndirect\<lparr>light := swap, lightSwap := light bakedIndirect\<rparr>"
      by (auto simp: FilterIndirectLight_def split: sum.splits)
    have "swap ! i = lightSwap bakedIndirect ! i"
      by (rule ParallelFor_invariant [where P = "\<lambda>b. b ! i = lightSwap bakedIndirect ! i", OF _ run])
         (erule for_range_invariant [rotated], simp_all add: filter_texel_frame [OF assms(2)])
    then show "light filtered ! i = lightSwap bakedIndirect ! i
                \<and> lightSwap filtered ! i = light bakedIndirect ! i
                \<and> (lightSwap bakedIndirect ! i = light bakedIndirect ! i
                     \<longrightarrow> light filtered ! i = light bakedIndirect ! i)"
      by (simp add: res)
  qed
  show ?thesis by (rule conjI [OF d conjI [OF n f]])
qed

theorem empty_texel_not_written_witness:
  "geometryIds example_geometry ! 0 = 0
   \<and> BakeDirectionalLight example_direct example_geometry empty_scene example_light
         example_settings = Inr \<lparr>directLight = [Vector3 0 0 0, Vector3 1 1 1]\<rparr>
   \<and> directLight example_direct ! 0 = Vector3 0 0 0
   \<and> BakeIndirectLight example_env example_indirect [] example_geometry empty_scene
         example_settings []
       = Inr (\<lparr>light = [Vector4 5 5 5 5, Vector4 1 2 3 5],
                lightSwap = [Vector4 0 0 0 0, Vector4 0 0 0 0]\<rparr>, [])
   \<and> light example_indirect ! 0 = Vector4 5 5 5 5
   \<and> FilterIndirectLight example_env example_indirect example_geometry example_filter 2
       = Inr \<lparr>light = [Vector4 0 0 0 0, Vector4 1 2 3 4],
               lightSwap = [Vector4 5 5 5 5, Vector4 1 2 3 4]\<rparr>
   \<and> lightSwap example_indirect ! 0 = Vector4 0 0 0 0"
  using empty_texel_not_written [where i = 0 and bakedGeometry = example_geometry
      and bakedDirect = example_direct and embreeScene = empty_scene
      and light_params = example_light and settings = example_settings
      and env = example_env and bakedIndirect = example_indirect and charts = "[]"
      and random = "[]" and params = example_filter and threads = 2]
    ev_direct ev_indirect ev_filter
  by (simp add: example_geometry_def example_direct_def example_indirect_def)

text \<open>
  C1 as stated fails for the filter: the first texel of the example has no geometry, the
  current buffer holds \<open>(5, 5, 5, 5)\<close> there and the scratch buffer zero; after the
  call the current buffer holds zero there.
\<close>

theorem filter_empty_texel_counterexample:
  "geometryIds example_geometry ! 0 = 0
   \<and> (\<exists>filtered.
        FilterIndirectLight example_env example_indirect example_geometry example_filter 2
          = Inr filtered
        \<and> light filtered ! 0 \<noteq> light example_indirect ! 0)"
  using ev_filter by (simp add: example_geometry_def example_indirect_def)

subsection \<open>C2: the chunks of ParallelFor\<close>

lemma post_tasks_spec_chunks:
  fixes count threads :: u32
  assumes nz: "threads \<noteq> 0" and small: "unat count + unat threads - 1 < 2 ^ 32"
  shows "post_tasks count threads ((count + threads - 1) div threads) 0 [] =
         spec_chunks (unat count) (unat threads)"
proof -
  let ?n = "unat threads" and ?c = "unat count"
  let ?cs = "(count + threads - 1) div threads"
  have pos: "0 < ?n" using nz by (simp add: unat_gt_0)
  have cs: "unat ?cs = ceil_div ?c ?n"
    using unat_chunkSize [OF nz small] ceil_div_eq [OF pos, of ?c] by simp
  have e: "ceil_div ?c ?n = (?c + ?n - 1) div ?n" by (rule ceil_div_eq [OF pos])
  have bound: "k * unat ?cs + unat ?cs < 2 ^ 32" if "k < ?n" for k
    using chunk_end_bound [OF pos that, of ?c] small unfolding cs e by linarith
  have "chunk_bounds count ?cs (word_of_nat k) =
          (word_of_nat (k * ceil_div ?c ?n),
           word_of_nat (min (k * ceil_div ?c ?n + ceil_div ?c ?n) ?c))" if "k < ?n" for k
    using unat_chunk_bounds(1) [OF bound [OF that], of count] unfolding cs .
  then have "map (\<lambda>k. chunk_bounds count ?cs (word_of_nat k)) [0..<?n] =
        spec_chunks ?c ?n"
    unfolding spec_chunks_def by (intro map_cong) simp_all
  then show ?thesis by (simp add: post_tasks_unroll)
qed

lemma spec_chunk_pair_indices:
  assumes pos: "0 < n" and small: "c + n - 1 < 2 ^ 32" and k: "k < n"
  shows "chunk_indices (word_of_nat (k * ceil_div c n) :: u32,
                        word_of_nat (min (k * ceil_div c n + ceil_div c n) c) :: u32) =
         [k * ceil_div c n..<min (k * ceil_div c n + ceil_div c n) c]"
proof -
  have "k * ceil_div c n + ceil_div c n \<le> c + n - 1"
    using chunk_end_bound [OF pos k, of c] ceil_div_eq [OF pos, of c] by simp
  then have b: "k * ceil_div c n + ceil_div c n < 2 ^ 32" using small by linarith
  then have b1: "k * ceil_div c n < 2 ^ 32"
    and b2: "min (k * ceil_div c n + ceil_div c n) c < 2 ^ 32" by linarith+
  show ?thesis
    by (simp only: chunk_indices_def fst_conv snd_conv unat_of_nat_u32 [OF b1]
        unat_of_nat_u32 [OF b2])
qed

lemma spec_chunks_nth:
  "k < n \<Longrightarrow> spec_chunks c n ! k =
     (word_of_nat (k * ceil_div c n), word_of_nat (min (k * ceil_div c n + ceil_div c n) c))"
  by (simp only: spec_chunks_def nth_map length_upt nth_upt minus_nat.diff_0 add_0)

lemma spec_chunk_indices:
  assumes pos: "0 < n" and small: "c + n - 1 < 2 ^ 32" and k: "k < n"
  shows "chunk_indices (spec_chunks c n ! k) =
         [k * ceil_div c n..<min (k * ceil_div c n + ceil_div c n) c]"
  by (simp only: spec_chunks_nth [OF k] spec_chunk_pair_indices [OF pos small k])

lemma spec_chunks_disjoint:
  assumes pos: "0 < n" and small: "c + n - 1 < 2 ^ 32" and ij: "i < j" "j < n"
  shows "set (chunk_indices (spec_chunks c n ! i)) \<inter>
         set (chunk_indices (spec_chunks c n ! j)) = {}"
proof -
  have i: "i < n" using ij by simp
  have "Suc i * ceil_div c n \<le> j * ceil_div c n"
    using ij(1) by (intro mult_le_mono1) simp
  then have "i * ceil_div c n + ceil_div c n \<le> j * ceil_div c n" by simp
  then show ?thesis
    unfolding spec_chunk_indices [OF pos small i] spec_chunk_indices [OF pos small ij(2)]
    by auto
qed

lemma spec_chunks_concat:
  assumes pos: "0 < n" and small: "c + n - 1 < 2 ^ 32"
  shows "concat (map chunk_indices (spec_chunks c n)) = [0..<c]"
proof -
  have "map chunk_indices (spec_chunks c n) =
        map (\<lambda>k. chunk_indices (word_of_nat (k * ceil_div c n) :: u32,
               word_of_nat (min (k * ceil_div c n + ceil_div c n) c) :: u32)) [0..<n]"
    by (simp only: spec_chunks_def map_map comp_def)
  also have "\<dots> = map (\<lambda>k. [k * ceil_div c n..<min (k * ceil_div c n + ceil_div c n) c]) [0..<n]"
    by (rule map_cong [OF refl]) (simp del: of_nat_mult add: spec_chunk_pair_indices [OF pos small])
  finally have "concat (map chunk_indices (spec_chunks c n)) = [0..<min (n * ceil_div c n) c]"
    by (simp only: concat_chunks_nat)
  moreover have "c \<le> n * ceil_div c n"
    using ceil_div_cover [OF pos, of c] ceil_div_eq [OF pos, of c] by simp
  ultimately show ?thesis by simp
qed

text \<open>
  C2 (as amended). When \<open>count + threads - 1\<close> does not wrap around in 32 bits and
  \<open>threads \<ge> 1\<close>: \<open>ParallelFor\<close> calls the callback on exactly the chunks
  \<open>[k * chunkSize, min ((k + 1) * chunkSize, count))\<close> for \<open>k < threads\<close> with
  \<open>chunkSize = ceil (count / threads)\<close>; the index sets of the chunks are pairwise
  disjoint and their union is \<open>[0, count)\<close>; and what it returns is the state after
  every chunk's callback has run.
\<close>

theorem ParallelFor_partition:
  fixes count threads :: u32
  assumes "threads \<noteq> 0" and "unat count + unat threads - 1 < 2 ^ 32"
  shows "ParallelFor count threads record_chunk [] =
           Inr (spec_chunks (unat count) (unat threads))
       \<and> ParallelFor count threads callback s =
           wait_tasks callback (spec_chunks (unat count) (unat threads)) s
       \<and> (\<Union>task \<in> set (spec_chunks (unat count) (unat threads)).
             set (chunk_indices task)) = {0..<unat count}
       \<and> (\<forall>i j. i < j \<and> j < unat threads \<longrightarrow>
             set (chunk_indices (spec_chunks (unat count) (unat threads) ! i)) \<inter>
             set (chunk_indices (spec_chunks (unat count) (unat threads) ! j)) = {})"
proof -
  have pos: "0 < unat threads" using assms(1) by (simp add: unat_gt_0)
  have run: "ParallelFor count threads cb t =
             wait_tasks cb (spec_chunks (unat count) (unat threads)) t"
    for cb :: "u32 \<Rightarrow> u32 \<Rightarrow> 't \<Rightarrow> error + 't" and t
    using assms by (simp add: ParallelFor_def Let_def post_tasks_spec_chunks)
  have "set (concat (map chunk_indices (spec_chunks (unat count) (unat threads)))) =
        {0..<unat count}"
    by (simp only: spec_chunks_concat [OF pos assms(2)]) simp
  then have cover: "(\<Union>task \<in> set (spec_chunks (unat count) (unat threads)).
             set (chunk_indices task)) = {0..<unat count}"
    by simp
  show ?thesis
    using run [of record_chunk "[]"] run [of callback s] cover
      spec_chunks_disjoint [OF pos assms(2)]
    by (simp add: wait_tasks_record)
qed

theorem ParallelFor_partition_witness:
  "ParallelFor (5 :: u32) 4 record_chunk [] = Inr [(0, 2), (2, 4), (4, 5), (6, 5)]
   \<and> (\<Union>task \<in> set [(0, 2), (2, 4), (4, 5), (6 :: u32, 5 :: u32)].
         set (chunk_indices task)) = {0..<5}"
proof -
  have c: "ceil_div 5 4 = 2" by (simp add: ceil_div_eq)
  have s: "spec_chunks (unat (5 :: u32)) (unat (4 :: u32)) = [(0, 2), (2, 4), (4, 5), (6, 5)]"
    by (simp add: spec_chunks_def c upt_conv_Cons)
  show ?thesis
    using ParallelFor_partition [of "4 :: u32" "5 :: u32" record_chunk "[]"]
    unfolding s by simp
qed

text \<open>
  C2 as stated fails where the sum wraps around: for \<open>count = 2^32 - 1\<close> and two
  threads \<open>chunkSize\<close> is \<open>0\<close>, both chunks are empty and no index is visited.
\<close>

theorem ParallelFor_wraps_counterexample:
  "ParallelFor (0xFFFFFFFF :: u32) 2 record_chunk [] = Inr [(0, 0), (0, 0)]
   \<and> (\<Union>task \<in> set [(0 :: u32, 0 :: u32), (0, 0)]. set (chunk_indices task))
       \<noteq> {0..<unat (0xFFFFFFFF :: u32)}"
proof -
  have "ParallelFor (0xFFFFFFFF :: u32) 2 record_chunk [] = Inr [(0, 0), (0, 0)]"
    by (simp add: ParallelFor_def Let_def post_tasks.simps chunk_bounds_def wait_tasks_record)
  moreover have "(0 :: nat) \<in> {0..<unat (0xFFFFFFFF :: u32)}" by simp
  ultimately show ?thesis by (auto simp: chunk_indices_def)
qed

subsection \<open>The loops of the indirect baker\<close>

text \<open>A loop over \<open>[a, b)\<close> that cannot fail while an invariant \<open>I\<close> of the index and the
  state holds.\<close>

lemma for_each_counted:
  assumes step: "\<And>k s. a \<le> k \<Longrightarrow> k < b \<Longrightarrow> I k s \<Longrightarrow> \<exists>s'. step k s = Inr s' \<and> I (Suc k) s'"
    and init: "I a s" and le: "a \<le> b"
  shows "\<exists>s'. for_each step [a..<b] s = Inr s' \<and> I b s'"
  using le step
proof (induction b rule: dec_induct)
  case base
  show ?case using init by simp
next
  case (step n)
  have "\<And>k s. a \<le> k \<Longrightarrow> k < n \<Longrightarrow> I k s \<Longrightarrow> \<exists>s'. step k s = Inr s' \<and> I (Suc k) s'"
    using step.prems by (meson less_Suc_eq)
  from step.IH [OF this]
  obtain s1 where s1: "for_each step [a..<n] s = Inr s1" and i1: "I n s1" by auto
  from step.prems [of n s1] step.hyps i1
  obtain s' where "step n s1 = Inr s'" and "I (Suc n) s'" by auto
  then show ?case using s1 step.hyps by (auto simp: for_each_append)
qed

lemma wait_tasks_map:
  "wait_tasks callback (map g ks) s =
   for_each (\<lambda>k. callback (fst (g k)) (snd (g k))) ks s"
proof (induction ks arbitrary: s)
  case Nil
  show ?case by simp
next
  case (Cons k ks)
  obtain f t where g: "g k = (f, t)" by (cases "g k")
  show ?case by (simp add: g Cons.IH cong: sum.case_cong)
qed

subsection \<open>The generator across the draws of a call\<close>

lemma after_draws_stuck: "RandomDirection rs = Inl e \<Longrightarrow> after_draws n rs = rs"
  by (cases n) simp_all

lemma after_draws_add: "after_draws (a + b) rs = after_draws b (after_draws a rs)"
proof (induction a arbitrary: rs)
  case 0
  show ?case by simp
next
  case (Suc a)
  show ?case
  proof (cases "RandomDirection rs")
    case (Inl e)
    then show ?thesis by (simp add: after_draws_stuck)
  next
    case (Inr p)
    then show ?thesis using Suc.IH by (cases p) simp
  qed
qed

lemma supplies_add: "supplies (a + b) rs = (supplies a rs \<and> supplies b (after_draws a rs))"
proof (induction a arbitrary: rs)
  case 0
  show ?case by simp
next
  case (Suc a)
  show ?case
  proof (cases "RandomDirection rs")
    case (Inl e)
    then show ?thesis by simp
  next
    case (Inr p)
    then show ?thesis using Suc.IH by (cases p) simp
  qed
qed

lemma supplies_mono:
  assumes "supplies n rs" and "m \<le> n"
  shows "supplies m rs"
proof -
  have "supplies (m + (n - m)) rs" using assms by simp
  then show ?thesis by (simp only: supplies_add)
qed

lemma supplies_draw:
  assumes "supplies (Suc n) rs"
  shows "\<exists>d rs'. RandomDirection rs = Inr (d, rs') \<and> supplies n rs' \<and> after_draws 1 rs = rs'"
  using assms by (cases "RandomDirection rs") auto

lemma texels_before_Suc:
  "texels_before bakedGeometry (Suc k) =
   texels_before bakedGeometry k + (if geometryIds bakedGeometry ! k \<noteq> 0 then 1 else 0)"
  by (simp add: texels_before_def)

lemma texels_before_mono: "a \<le> b \<Longrightarrow> texels_before bakedGeometry a \<le> texels_before bakedGeometry b"
proof (induction b rule: dec_induct)
  case base
  show ?case by simp
next
  case (step n)
  then show ?case by (simp add: texels_before_Suc)
qed

lemma generator_at_Suc:
  "generator_at bakedGeometry settings random (Suc k) =
   (if geometryIds bakedGeometry ! k = 0 then generator_at bakedGeometry settings random k
    else after_draws (unat (numBounces settings)) (generator_at bakedGeometry settings random k))"
proof (cases "geometryIds bakedGeometry ! k = 0")
  case True
  then show ?thesis by (simp add: generator_at_def texels_before_Suc)
next
  case False
  let ?m = "unat (numBounces settings)"
  have "?m * texels_before bakedGeometry (Suc k) = ?m * texels_before bakedGeometry k + ?m"
    using False by (simp add: texels_before_Suc)
  then show ?thesis using False by (simp only: generator_at_def after_draws_add if_False)
qed

text \<open>A generator that suffices for the whole call suffices for the path of each texel.\<close>

lemma generator_at_supplies:
  assumes fuel: "supplies (unat (numBounces settings) * texels_before bakedGeometry N) random"
    and k: "k < N" and geo: "geometryIds bakedGeometry ! k \<noteq> 0"
  shows "supplies (unat (numBounces settings)) (generator_at bakedGeometry settings random k)"
proof -
  let ?m = "unat (numBounces settings)"
  have "texels_before bakedGeometry (Suc k) \<le> texels_before bakedGeometry N"
    using k by (intro texels_before_mono) simp
  then have "Suc (texels_before bakedGeometry k) \<le> texels_before bakedGeometry N"
    using geo by (simp add: texels_before_Suc)
  then have "?m * Suc (texels_before bakedGeometry k) \<le> ?m * texels_before bakedGeometry N"
    by (rule mult_le_mono2)
  then have "?m * texels_before bakedGeometry k + ?m \<le> ?m * texels_before bakedGeometry N"
    by simp
  from supplies_mono [OF fuel this]
  show ?thesis by (simp only: supplies_add generator_at_def)
qed

subsection \<open>A bounce, a path and a texel that return\<close>

lemma bounce_returns:
  assumes draw: "RandomDirection (rng st) = Inr (d, rs')"
    and charts: "bakedDirect \<noteq> []"
    and scene: "\<forall>org dir tfar hit. rtcIntersect1 embreeScene org dir tfar = Some hit
                  \<longrightarrow> hit_geomID hit < length (GetEmbreeGeometryIndex embreeScene)"
    and slot: "unat j < length (incomingSamples st)" "unat j < length (incomingFactors st)"
  shows "\<exists>st'. bounce env embreeScene bakedDirect settings j st = Inr st'
           \<and> rng st' = rs'
           \<and> length (incomingSamples st') = length (incomingSamples st)
           \<and> length (incomingFactors st') = length (incomingFactors st)
           \<and> numSamples st' \<le> Suc (numSamples st)"
proof -
  let ?dir = "if DotProduct d (currentNormal st) < 0 then v3_neg d else d"
  let ?org = "v3_add (currentPosition st) (v3_mul (currentNormal st) (rayPositionOffset settings))"
  have h: "RandomHemisphereDirection (currentNormal st) (rng st) = Inr (?dir, rs')"
    by (simp add: RandomHemisphereDirection_def draw)
  obtain chart others where c: "bakedDirect = chart # others"
    using charts by (cases bakedDirect) auto
  show ?thesis
  proof (cases "rtcIntersect1 embreeScene ?org ?dir (GetMaxDistance embreeScene)")
    case None
    then show ?thesis by (simp add: bounce_def h Let_def)
  next
    case (Some hit)
    then have "hit_geomID hit < length (GetEmbreeGeometryIndex embreeScene)"
      using scene by blast
    then show ?thesis using Some slot by (simp add: bounce_def h Let_def c)
  qed
qed

lemma accumulate_samples_returns:
  assumes "n \<le> length samples" and "n \<le> length factors"
  shows "\<exists>v. accumulate_samples samples factors n acc = Inr v"
  using assms by (induction n arbitrary: acc) simp_all

lemma path_returns:
  assumes bounces: "unat (numBounces settings) \<le> M"
    and charts: "numBounces settings \<noteq> 0
                 \<longrightarrow> bakedDirect \<noteq> []
                     \<and> (\<forall>org dir tfar hit. rtcIntersect1 embreeScene org dir tfar = Some hit
                        \<longrightarrow> hit_geomID hit < length (GetEmbreeGeometryIndex embreeScene))"
    and len: "length xs = M" "length fs = M"
    and fuel: "supplies (unat (numBounces settings)) r"
  shows "\<exists>st. for_range (bounce env embreeScene bakedDirect settings) 0 (numBounces settings)
                \<lparr>numSamples = 0, currentPosition = p, currentNormal = n,
                 incomingSamples = xs, incomingFactors = fs, rng = r\<rparr> = Inr st
              \<and> length (incomingSamples st) = M \<and> length (incomingFactors st) = M
              \<and> numSamples st \<le> unat (numBounces settings)
              \<and> rng st = after_draws (unat (numBounces settings)) r"
proof -
  let ?m = "unat (numBounces settings)"
  let ?I = "\<lambda>j st. length (incomingSamples st) = M \<and> length (incomingFactors st) = M
                    \<and> numSamples st \<le> j \<and> supplies (?m - j) (rng st)
                    \<and> rng st = after_draws j r"
  have "\<exists>st. for_each (\<lambda>k. bounce env embreeScene bakedDirect settings (word_of_nat k)) [0..<?m]
                \<lparr>numSamples = 0, currentPosition = p, currentNormal = n,
                 incomingSamples = xs, incomingFactors = fs, rng = r\<rparr> = Inr st
              \<and> ?I ?m st"
  proof (rule for_each_counted [where I = ?I])
    fix k and st :: path_state
    assume k: "k < ?m" and st: "?I k st"
    then have nz: "numBounces settings \<noteq> 0" by auto
    have "?m < 2 ^ 32" using unsigned_less [of "numBounces settings"] by simp
    then have u: "unat (word_of_nat k :: u32) = k" using k by (simp add: unat_of_nat_u32)
    from st have s: "supplies (?m - k) (rng st)" by blast
    have "?m - k = Suc (?m - Suc k)" using k by simp
    with s have "supplies (Suc (?m - Suc k)) (rng st)" by simp
    from supplies_draw [OF this]
    obtain d rs' where d: "RandomDirection (rng st) = Inr (d, rs')"
      and rs': "supplies (?m - Suc k) rs'" and a: "after_draws 1 (rng st) = rs'" by auto
    have "after_draws (k + 1) r = rs'" using st a by (simp only: after_draws_add)
    then have r: "after_draws (Suc k) r = rs'" by simp
    from bounce_returns [OF d, of bakedDirect embreeScene "word_of_nat k" env settings]
      charts nz st k bounces u
    obtain st' where "bounce env embreeScene bakedDirect settings (word_of_nat k) st = Inr st'"
      and "rng st' = rs'"
      and "length (incomingSamples st') = length (incomingSamples st)"
      and "length (incomingFactors st') = length (incomingFactors st)"
      and "numSamples st' \<le> Suc (numSamples st)" by auto
    then show "\<exists>st'. bounce env embreeScene bakedDirect settings (word_of_nat k) st = Inr st'
                \<and> ?I (Suc k) st'"
      using st rs' r by auto
  qed (simp_all add: len fuel)
  then show ?thesis by (auto simp: for_range_for_each)
qed

lemma indirect_texel_other:
  assumes "unat k \<noteq> i"
    and "indirect_texel env embreeScene bakedDirect bakedGeometry settings k w = Inr w'"
  shows "w_light w' ! i = w_light w ! i"
  using assms by (auto simp: indirect_texel_def Let_def split: if_splits sum.splits)

lemma indirect_texel_returns:
  assumes size: "chart_size bakedGeometry N" and k: "k < N"
    and u: "unat (word_of_nat k :: u32) = k"
    and bounces: "unat (numBounces settings) \<le> MaxBounces env"
    and charts: "numBounces settings \<noteq> 0
                 \<longrightarrow> bakedDirect \<noteq> []
                     \<and> (\<forall>org dir tfar hit. rtcIntersect1 embreeScene org dir tfar = Some hit
                        \<longrightarrow> hit_geomID hit < length (GetEmbreeGeometryIndex embreeScene))"
    and len: "length (w_light w) = N" "length (w_samples w) = MaxBounces env"
      "length (w_factors w) = MaxBounces env"
    and fuel: "geometryIds bakedGeometry ! k \<noteq> 0 \<longrightarrow> supplies (unat (numBounces settings)) (w_rng w)"
  shows "\<exists>w'. indirect_texel env embreeScene bakedDirect bakedGeometry settings (word_of_nat k) w
               = Inr w'
           \<and> length (w_light w') = N \<and> length (w_samples w') = MaxBounces env
           \<and> length (w_factors w') = MaxBounces env
           \<and> w_rng w' = (if geometryIds bakedGeometry ! k = 0 then w_rng w
                         else after_draws (unat (numBounces settings)) (w_rng w))"
proof (cases "geometryIds bakedGeometry ! k = 0")
  case True
  then show ?thesis using size k len
    by (simp add: indirect_texel_def u chart_size_def Let_def)
next
  case False
  then have f: "supplies (unat (numBounces settings)) (w_rng w)" using fuel by simp
  from path_returns [OF bounces charts len(2,3) f]
  obtain st where
    path: "for_range (bounce env embreeScene bakedDirect settings) 0 (numBounces settings)
             \<lparr>numSamples = 0, currentPosition = geometryPositions bakedGeometry ! k,
              currentNormal = smoothNormals bakedGeometry ! k,
              incomingSamples = w_samples w, incomingFactors = w_factors w,
              rng = w_rng w\<rparr> = Inr st"
    and ls: "length (incomingSamples st) = MaxBounces env"
    and lf: "length (incomingFactors st) = MaxBounces env"
    and ns: "numSamples st \<le> unat (numBounces settings)"
    and r: "rng st = after_draws (unat (numBounces settings)) (w_rng w)" by blast
  have "numSamples st \<le> length (incomingSamples st)"
    and "numSamples st \<le> length (incomingFactors st)" using ns bounces ls lf by simp_all
  from accumulate_samples_returns [OF this]
  obtain v where "accumulate_samples (incomingSamples st) (incomingFactors st) (numSamples st)
                    v3_zero = Inr v" by blast
  then show ?thesis using False size k len path ls lf r
    by (simp add: indirect_texel_def u chart_size_def Let_def)
qed

subsection \<open>The whole call, texel by texel\<close>

text \<open>
  The texels of a chunk, then the chunks of the call, under one invariant of the texel
  index: the buffer keeps its length, the generator is \<open>generator_at\<close> the index, and
  the entry of texel \<open>i\<close> is its old value \<open>v\<close> before the step of texel \<open>i\<close> and
  has the property \<open>Q\<close> after it, where \<open>Q\<close> is what the step of texel \<open>i\<close>, run
  with the generator it finds, establishes of the entry.
\<close>

lemma indirect_texels_counted:
  assumes size: "chart_size bakedGeometry N"
    and bounces: "unat (numBounces settings) \<le> MaxBounces env"
    and charts: "numBounces settings \<noteq> 0
                 \<longrightarrow> bakedDirect \<noteq> []
                     \<and> (\<forall>org dir tfar hit. rtcIntersect1 embreeScene org dir tfar = Some hit
                        \<longrightarrow> hit_geomID hit < length (GetEmbreeGeometryIndex embreeScene))"
    and fuel: "supplies (unat (numBounces settings) * texels_before bakedGeometry N) random"
    and val: "\<And>w w'. w_rng w = generator_at bakedGeometry settings random i \<Longrightarrow>
                w_light w ! i = v \<Longrightarrow>
                indirect_texel env embreeScene bakedDirect bakedGeometry settings (word_of_nat i) w
                  = Inr w' \<Longrightarrow> Q (w_light w' ! i)"
    and ab: "a \<le> b" "b \<le> N" "N < 2 ^ 32"
    and s: "length (fst s) = N" "snd s = generator_at bakedGeometry settings random a"
      "if a \<le> i then fst s ! i = v else Q (fst s ! i)"
  shows "\<exists>w'. for_each (\<lambda>k. indirect_texel env embreeScene bakedDirect bakedGeometry settings
                              (word_of_nat k)) [a..<b]
                 \<lparr>w_light = fst s, w_rng = snd s,
                  w_samples = replicate (MaxBounces env) v3_zero,
                  w_factors = map (uninitialized env) [0..<MaxBounces env]\<rparr> = Inr w'
              \<and> length (w_light w') = N
              \<and> w_rng w' = generator_at bakedGeometry settings random b
              \<and> (if b \<le> i then w_light w' ! i = v else Q (w_light w' ! i))"
proof -
  let ?I = "\<lambda>k w. length (w_light w) = N \<and> length (w_samples w) = MaxBounces env
                   \<and> length (w_factors w) = MaxBounces env
                   \<and> w_rng w = generator_at bakedGeometry settings random k
                   \<and> (if k \<le> i then w_light w ! i = v else Q (w_light w ! i))"
  have "\<exists>w'. for_each (\<lambda>k. indirect_texel env embreeScene bakedDirect bakedGeometry settings
                              (word_of_nat k)) [a..<b]
                 \<lparr>w_light = fst s, w_rng = snd s,
                  w_samples = replicate (MaxBounces env) v3_zero,
                  w_factors = map (uninitialized env) [0..<MaxBounces env]\<rparr> = Inr w'
              \<and> ?I b w'"
  proof (rule for_each_counted [where I = ?I])
    fix k and w :: worker_state
    assume k: "k < b" and w: "?I k w"
    have kN: "k < N" using k ab by simp
    then have u: "unat (word_of_nat k :: u32) = k" using ab by (simp add: unat_of_nat_u32)
    have f: "geometryIds bakedGeometry ! k \<noteq> 0
             \<longrightarrow> supplies (unat (numBounces settings)) (w_rng w)"
      using generator_at_supplies [OF fuel kN] w by simp
    from w have l: "length (w_light w) = N" "length (w_samples w) = MaxBounces env"
      "length (w_factors w) = MaxBounces env" by simp_all
    from indirect_texel_returns [OF size kN u bounces charts l f]
    obtain w' where
      step: "indirect_texel env embreeScene bakedDirect bakedGeometry settings (word_of_nat k) w
               = Inr w'"
      and l': "length (w_light w') = N" "length (w_samples w') = MaxBounces env"
        "length (w_factors w') = MaxBounces env"
      and r': "w_rng w' = (if geometryIds bakedGeometry ! k = 0 then w_rng w
                           else after_draws (unat (numBounces settings)) (w_rng w))" by blast
    have g: "w_rng w' = generator_at bakedGeometry settings random (Suc k)"
      using r' w by (simp add: generator_at_Suc)
    have e: "if Suc k \<le> i then w_light w' ! i = v else Q (w_light w' ! i)"
    proof (cases "k = i")
      case True
      have "w_rng w = generator_at bakedGeometry settings random i" using w True by simp
      moreover have "w_light w ! i = v" using w True by simp
      ultimately have "Q (w_light w' ! i)" using step True by (intro val) simp_all
      then show ?thesis using True by simp
    next
      case False
      then have "unat (word_of_nat k :: u32) \<noteq> i" using u by simp
      from indirect_texel_other [OF this step] have same: "w_light w' ! i = w_light w ! i" .
      show ?thesis
      proof (cases "Suc k \<le> i")
        case True
        then show ?thesis using w same by simp
      next
        case no: False
        then have "\<not> k \<le> i" using False by simp
        then show ?thesis using w same no by simp
      qed
    qed
    show "\<exists>w'. indirect_texel env embreeScene bakedDirect bakedGeometry settings (word_of_nat k) w
                 = Inr w' \<and> ?I (Suc k) w'"
      using step l' g e by blast
  qed (simp_all add: s ab)
  then show ?thesis by blast
qed


lemma upt_clip: "[a..<min (a + c) N] = [min a N..<min (a + c) (N::nat)]"
  by (cases "a \<le> N") (simp_all add: min_def)

lemma BakeIndirectLight_texel:
  assumes size: "chart_size bakedGeometry N" and len: "length (light bakedIndirect) = N"
    and nz: "numThreads settings \<noteq> 0" and small: "N + unat (numThreads settings) - 1 < 2 ^ 32"
    and i: "i < N"
    and bounces: "unat (numBounces settings) \<le> MaxBounces env"
    and charts: "numBounces settings \<noteq> 0
                 \<longrightarrow> bakedDirect \<noteq> []
                     \<and> (\<forall>org dir tfar hit. rtcIntersect1 embreeScene org dir tfar = Some hit
                        \<longrightarrow> hit_geomID hit < length (GetEmbreeGeometryIndex embreeScene))"
    and fuel: "supplies (unat (numBounces settings) * texels_before bakedGeometry N) random"
    and val: "\<And>w w'. w_rng w = generator_at bakedGeometry settings random i \<Longrightarrow>
                w_light w ! i = light bakedIndirect ! i \<Longrightarrow>
                indirect_texel env embreeScene bakedDirect bakedGeometry settings (word_of_nat i) w
                  = Inr w' \<Longrightarrow> Q (w_light w' ! i)"
  shows "\<exists>baked random'.
           BakeIndirectLight env bakedIndirect bakedDirect bakedGeometry embreeScene settings random
             = Inr (baked, random')
           \<and> Q (light baked ! i)"
proof -
  let ?n = "unat (numThreads settings)"
  let ?cs = "ceil_div N ?n"
  let ?v = "light bakedIndirect ! i"
  let ?cb = "indirect_chunk env embreeScene bakedDirect bakedGeometry settings"
  let ?g = "\<lambda>k. (word_of_nat (k * ?cs) :: u32, word_of_nat (min (k * ?cs + ?cs) N) :: u32)"
  let ?T = "\<lambda>j s. length (fst s) = N
                   \<and> snd s = generator_at bakedGeometry settings random (min (j * ?cs) N)
                   \<and> (if min (j * ?cs) N \<le> i then fst s ! i = ?v else Q (fst s ! i))"
  have pos: "0 < ?n" using nz by (simp add: unat_gt_0)
  then have N: "N < 2 ^ 32" using small by linarith
  then have u: "unat (word_of_nat N :: u32) = N" by (rule unat_of_nat_u32)
  have "post_tasks (word_of_nat N) (numThreads settings)
          ((word_of_nat N + numThreads settings - 1) div numThreads settings) 0 []
        = spec_chunks N ?n"
    using post_tasks_spec_chunks [of "numThreads settings" "word_of_nat N"] nz small u by simp
  then have tasks: "post_tasks (word_of_nat N) (numThreads settings)
                 ((word_of_nat N + numThreads settings - 1) div numThreads settings) 0 []
               = map ?g [0..<?n]"
    by (simp only: spec_chunks_def)
  have cover: "min (?n * ?cs) N = N"
    using ceil_div_cover [OF pos, of N] ceil_div_eq [OF pos, of N] by simp
  have "\<exists>s'. for_each (\<lambda>k. ?cb (fst (?g k)) (snd (?g k))) [0..<?n] (light bakedIndirect, random)
               = Inr s' \<and> ?T ?n s'"
  proof (rule for_each_counted [where I = ?T])
    fix j and s :: "Vector4 list \<times> float list"
    assume j: "j < ?n" and s: "?T j s"
    let ?a = "min (j * ?cs) N" and ?b = "min (j * ?cs + ?cs) N"
    have ix: "[unat (fst (?g j))..<unat (snd (?g j))] = [?a..<?b]"
      using spec_chunk_pair_indices [OF pos small j] upt_clip [of "j * ?cs" ?cs N]
      by (simp only: chunk_indices_def)
    have b: "?b = min (Suc j * ?cs) N" by simp
    from s have s1: "length (fst s) = N"
      and s2: "snd s = generator_at bakedGeometry settings random ?a"
      and s3: "if ?a \<le> i then fst s ! i = ?v else Q (fst s ! i)" by blast+
    have ab: "?a \<le> ?b" "?b \<le> N" by simp_all
    have "\<exists>w'. for_each (\<lambda>k. indirect_texel env embreeScene bakedDirect bakedGeometry settings
                              (word_of_nat k)) [?a..<?b]
                 \<lparr>w_light = fst s, w_rng = snd s,
                  w_samples = replicate (MaxBounces env) v3_zero,
                  w_factors = map (uninitialized env) [0..<MaxBounces env]\<rparr> = Inr w'
              \<and> length (w_light w') = N
              \<and> w_rng w' = generator_at bakedGeometry settings random ?b
              \<and> (if ?b \<le> i then w_light w' ! i = ?v else Q (w_light w' ! i))"
    proof (rule indirect_texels_counted [where Q = Q and v = ?v,
          OF size bounces charts fuel _ ab N s1 s2 s3])
      fix w w' :: worker_state
      assume "w_rng w = generator_at bakedGeometry settings random i"
        and "w_light w ! i = ?v"
        and "indirect_texel env embreeScene bakedDirect bakedGeometry settings (word_of_nat i) w
               = Inr w'"
      then show "Q (w_light w' ! i)" by (rule val)
    qed
    then obtain w' where
      run: "for_each (\<lambda>k. indirect_texel env embreeScene bakedDirect bakedGeometry settings
                              (word_of_nat k)) [?a..<?b]
              \<lparr>w_light = fst s, w_rng = snd s,
               w_samples = replicate (MaxBounces env) v3_zero,
               w_factors = map (uninitialized env) [0..<MaxBounces env]\<rparr> = Inr w'"
      and l': "length (w_light w') = N"
      and r': "w_rng w' = generator_at bakedGeometry settings random ?b"
      and e': "if ?b \<le> i then w_light w' ! i = ?v else Q (w_light w' ! i)" by blast
    have c: "?cb (fst (?g j)) (snd (?g j)) s = Inr (w_light w', w_rng w')"
      by (simp only: indirect_chunk_def for_range_for_each ix run sum.case)
    have t1: "length (fst (w_light w', w_rng w')) = N" using l' by simp
    have t2: "snd (w_light w', w_rng w')
              = generator_at bakedGeometry settings random (min (Suc j * ?cs) N)"
      using r' by (simp only: snd_conv b)
    have t3: "if min (Suc j * ?cs) N \<le> i then fst (w_light w', w_rng w') ! i = ?v
              else Q (fst (w_light w', w_rng w') ! i)"
      using e' by (simp only: fst_conv b)
    show "\<exists>s'. ?cb (fst (?g j)) (snd (?g j)) s = Inr s' \<and> ?T (Suc j) s'"
      by (rule exI [of _ "(w_light w', w_rng w')"]) (intro conjI c t1 t2 t3)
  qed (simp_all add: len generator_at_def texels_before_def)
  then obtain s' where
    run: "for_each (\<lambda>k. ?cb (fst (?g k)) (snd (?g k))) [0..<?n] (light bakedIndirect, random)
            = Inr s'"
    and t: "?T ?n s'" by blast
  have w: "wait_tasks ?cb (map ?g [0..<?n]) (light bakedIndirect, random) = Inr s'"
    by (simp only: wait_tasks_map run)
  have e: "Q (fst s' ! i)" using t i by (simp only: cover)
  have "ParallelFor (word_of_nat N) (numThreads settings) ?cb (light bakedIndirect, random)
          = Inr s'"
    using nz by (simp only: ParallelFor_def Let_def tasks w if_False)
  then have "BakeIndirectLight env bakedIndirect bakedDirect bakedGeometry embreeScene settings
               random = Inr (bakedIndirect\<lparr>light := fst s'\<rparr>, snd s')"
    using bounces by (simp add: BakeIndirectLight_def len split: prod.splits)
  then show ?thesis using e by simp
qed

subsection \<open>Bounces that miss\<close>

lemma for_each_counted_invariant:
  assumes step: "\<And>k s s'. a \<le> k \<Longrightarrow> k < b \<Longrightarrow> step k s = Inr s' \<Longrightarrow> I k s \<Longrightarrow> I (Suc k) s'"
    and run: "for_each step [a..<b] s = Inr s'" and init: "I a s" and le: "a \<le> b"
  shows "I b s'"
  using le step run
proof (induction b arbitrary: s' rule: dec_induct)
  case base
  then show ?case using init by simp
next
  case (step n)
  from step.prems(2) step.hyps(1) obtain s1 where s1: "for_each step [a..<n] s = Inr s1"
    and last: "step n s1 = Inr s'"
    by (auto simp: for_each_append split: sum.splits)
  have "\<And>k s s'. a \<le> k \<Longrightarrow> k < n \<Longrightarrow> step k s = Inr s' \<Longrightarrow> I k s \<Longrightarrow> I (Suc k) s'"
    using step.prems(1) by (meson less_Suc_eq)
  from step.IH [OF this s1] have "I n s1" .
  with step.prems(1) [of n s1 s'] step.hyps(1) last show ?case by simp
qed

text \<open>A bounce whose ray misses changes nothing but the generator; so do the bounces from
  \<open>a\<close> to \<open>b\<close> when the rays cast from the path's point in the directions drawn one after
  the other all miss.\<close>

lemma bounce_miss:
  assumes draw: "RandomHemisphereDirection (currentNormal st) (rng st) = Inr (d, rs')"
    and miss: "rtcIntersect1 embreeScene
                 (v3_add (currentPosition st) (v3_mul (currentNormal st) (rayPositionOffset settings)))
                 d (GetMaxDistance embreeScene) = None"
  shows "bounce env embreeScene bakedDirect settings j st = Inr (st\<lparr>rng := rs'\<rparr>)"
  by (simp add: bounce_def draw miss Let_def)

lemma bounces_miss:
  assumes dark: "\<forall>d \<in> set (drawn_directions (currentNormal st0) (b - a) (rng st0)).
                   rtcIntersect1 embreeScene
                     (v3_add (currentPosition st0)
                        (v3_mul (currentNormal st0) (rayPositionOffset settings)))
                     d (GetMaxDistance embreeScene) = None"
    and run: "for_each (\<lambda>k. bounce env embreeScene bakedDirect settings (word_of_nat k)) [a..<b]
                st0 = Inr st"
    and le: "a \<le> b"
  shows "\<exists>rs. st = st0\<lparr>rng := rs\<rparr>"
proof -
  let ?n = "currentNormal st0"
  let ?org = "v3_add (currentPosition st0) (v3_mul ?n (rayPositionOffset settings))"
  let ?I = "\<lambda>k t. (\<exists>rs. t = st0\<lparr>rng := rs\<rparr>)
                   \<and> (\<forall>d \<in> set (drawn_directions ?n (b - k) (rng t)).
                         rtcIntersect1 embreeScene ?org d (GetMaxDistance embreeScene) = None)"
  have "?I b st"
  proof (rule for_each_counted_invariant [where I = ?I, OF _ run _ le])
    fix k and t t' :: path_state
    assume k: "k < b"
      and step: "bounce env embreeScene bakedDirect settings (word_of_nat k) t = Inr t'"
      and t: "?I k t"
    from t obtain rs where rs: "t = st0\<lparr>rng := rs\<rparr>" by blast
    from step obtain d rs' where d: "RandomHemisphereDirection ?n (rng t) = Inr (d, rs')"
      using rs by (auto simp: bounce_def split: sum.splits)
    have m: "b - k = Suc (b - Suc k)" using k by simp
    have dd: "drawn_directions ?n (b - k) (rng t) = d # drawn_directions ?n (b - Suc k) rs'"
      by (simp only: m drawn_directions.simps d sum.case prod.case)
    from t have all: "\<forall>d \<in> set (drawn_directions ?n (b - k) (rng t)).
                       rtcIntersect1 embreeScene ?org d (GetMaxDistance embreeScene) = None"
      by simp
    then have miss: "rtcIntersect1 embreeScene ?org d (GetMaxDistance embreeScene) = None"
      and rest: "\<forall>d \<in> set (drawn_directions ?n (b - Suc k) rs').
                   rtcIntersect1 embreeScene ?org d (GetMaxDistance embreeScene) = None"
      by (simp_all add: dd)
    have "bounce env embreeScene bakedDirect settings (word_of_nat k) t = Inr (t\<lparr>rng := rs'\<rparr>)"
      using d miss by (intro bounce_miss) (simp_all add: rs)
    then have t': "t' = st0\<lparr>rng := rs'\<rparr>" using step by (simp add: rs)
    have "\<exists>rs. t' = st0\<lparr>rng := rs\<rparr>" using t' by blast
    moreover have "\<forall>d \<in> set (drawn_directions ?n (b - Suc k) (rng t')).
                     rtcIntersect1 embreeScene ?org d (GetMaxDistance embreeScene) = None"
      using rest by (simp add: t')
    ultimately show "?I (Suc k) t'" by blast
  next
    have "st0 = st0\<lparr>rng := rng st0\<rparr>" by simp
    then have "\<exists>rs. st0 = st0\<lparr>rng := rs\<rparr>" by (rule exI)
    then show "?I a st0" using dark by blast
  qed
  then show ?thesis by blast
qed

subsection \<open>A bounce that hits\<close>

text \<open>A bounce whose ray hits a geometry of the scene's index, with slot \<open>j\<close> inside the
  two arrays, returns: it counts one more sample and writes slot \<open>j\<close> of each array.\<close>

lemma bounce_hit:
  assumes draw: "RandomHemisphereDirection (currentNormal st) (rng st) = Inr (rayDirection, rng')"
    and hit: "rtcIntersect1 embreeScene
                (v3_add (currentPosition st) (v3_mul (currentNormal st) (rayPositionOffset settings)))
                rayDirection (GetMaxDistance embreeScene) = Some hit"
    and geom: "hit_geomID hit < length (GetEmbreeGeometryIndex embreeScene)"
    and slot: "unat j < length (incomingSamples st)" "unat j < length (incomingFactors st)"
  shows "\<exists>st'. bounce env embreeScene (chart # others) settings j st = Inr st'
           \<and> numSamples st' = numSamples st + 1
           \<and> incomingSamples st' =
               (incomingSamples st)
                 [unat j := SampleNearest env chart
                    (rtcInterpolate0 embreeScene
                       (GetEmbreeGeometryIndex embreeScene ! hit_geomID hit)
                       (hit_primID hit) (hit_u hit) (hit_v hit))]
           \<and> incomingFactors st' =
               (incomingFactors st)
                 [unat j := ((1 / pi) / pi) * DotProduct rayDirection (currentNormal st)
                              / (1 / (2 * pi))]"
  using geom slot by (simp add: bounce_def draw hit Let_def M_PI_def)

subsection \<open>The whole call, when it returns\<close>

text \<open>A call that returns has drawn one direction per bounce for every texel with geometry,
  whatever its rays hit: the generator at each texel is \<open>generator_at\<close> the texel.\<close>

lemma bounce_rng:
  assumes "bounce env embreeScene bakedDirect settings j st = Inr st'"
  shows "rng st' = after_draws 1 (rng st)"
proof -
  from assms obtain d rs' where
    h: "RandomHemisphereDirection (currentNormal st) (rng st) = Inr (d, rs')"
    by (auto simp: bounce_def split: sum.splits)
  then obtain d0 where d0: "RandomDirection (rng st) = Inr (d0, rs')"
    by (auto simp: RandomHemisphereDirection_def split: sum.splits)
  have "rng st' = rs'"
    using assms h
    by (auto simp: bounce_def Let_def split: option.splits if_splits list.splits)
  then show ?thesis by (simp add: d0)
qed

lemma path_rng:
  assumes "for_range (bounce env embreeScene bakedDirect settings) 0 (numBounces settings) st0
             = Inr st"
  shows "rng st = after_draws (unat (numBounces settings)) (rng st0)"
proof -
  let ?m = "unat (numBounces settings)"
  from assms have run: "for_each (\<lambda>k. bounce env embreeScene bakedDirect settings (word_of_nat k))
                          [0..<?m] st0 = Inr st"
    by (simp add: for_range_for_each)
  show ?thesis
  proof (rule for_each_counted_invariant
      [where I = "\<lambda>k t. rng t = after_draws k (rng st0)", OF _ run])
    fix k and t t' :: path_state
    assume step: "bounce env embreeScene bakedDirect settings (word_of_nat k) t = Inr t'"
      and t: "rng t = after_draws k (rng st0)"
    have "rng t' = after_draws 1 (after_draws k (rng st0))"
      using bounce_rng [OF step] t by simp
    also have "\<dots> = after_draws (k + 1) (rng st0)" by (simp only: after_draws_add)
    finally show "rng t' = after_draws (Suc k) (rng st0)" by simp
  qed simp_all
qed

lemma indirect_texel_rng:
  assumes "indirect_texel env embreeScene bakedDirect bakedGeometry settings k w = Inr w'"
  shows "w_rng w' = (if geometryIds bakedGeometry ! unat k = 0 then w_rng w
                     else after_draws (unat (numBounces settings)) (w_rng w))"
proof (cases "geometryIds bakedGeometry ! unat k = 0")
  case True
  then show ?thesis using assms by (auto simp: indirect_texel_def Let_def split: if_splits)
next
  case False
  with assms obtain st where
    path: "for_range (bounce env embreeScene bakedDirect settings) 0 (numBounces settings)
             \<lparr>numSamples = 0, currentPosition = geometryPositions bakedGeometry ! unat k,
              currentNormal = smoothNormals bakedGeometry ! unat k,
              incomingSamples = w_samples w, incomingFactors = w_factors w,
              rng = w_rng w\<rparr> = Inr st"
    and r: "w_rng w' = rng st"
    by (auto simp: indirect_texel_def Let_def split: if_splits sum.splits)
  show ?thesis using path_rng [OF path] r False by simp
qed

lemma indirect_texels_returned:
  assumes val: "\<And>w w'. w_rng w = generator_at bakedGeometry settings random i \<Longrightarrow>
                w_light w ! i = v \<Longrightarrow>
                indirect_texel env embreeScene bakedDirect bakedGeometry settings (word_of_nat i) w
                  = Inr w' \<Longrightarrow> Q (w_light w' ! i)"
    and ab: "a \<le> b" "b < 2 ^ 32"
    and w: "w_rng w = generator_at bakedGeometry settings random a"
      "if a \<le> i then w_light w ! i = v else Q (w_light w ! i)"
    and run: "for_each (\<lambda>k. indirect_texel env embreeScene bakedDirect bakedGeometry settings
                              (word_of_nat k)) [a..<b] w = Inr w'"
  shows "w_rng w' = generator_at bakedGeometry settings random b
         \<and> (if b \<le> i then w_light w' ! i = v else Q (w_light w' ! i))"
proof (rule for_each_counted_invariant
    [where I = "\<lambda>k w. w_rng w = generator_at bakedGeometry settings random k
                       \<and> (if k \<le> i then w_light w ! i = v else Q (w_light w ! i))",
     OF _ run _ ab(1)])
  fix k and t t' :: worker_state
  assume k: "k < b"
    and step: "indirect_texel env embreeScene bakedDirect bakedGeometry settings (word_of_nat k) t
                 = Inr t'"
    and t: "w_rng t = generator_at bakedGeometry settings random k
            \<and> (if k \<le> i then w_light t ! i = v else Q (w_light t ! i))"
  have u: "unat (word_of_nat k :: u32) = k" using k ab(2) by (simp add: unat_of_nat_u32)
  have g: "w_rng t' = generator_at bakedGeometry settings random (Suc k)"
    using indirect_texel_rng [OF step] t by (simp add: u generator_at_Suc)
  have e: "if Suc k \<le> i then w_light t' ! i = v else Q (w_light t' ! i)"
  proof (cases "k = i")
    case True
    have "w_rng t = generator_at bakedGeometry settings random i" using t True by simp
    moreover have "w_light t ! i = v" using t True by simp
    ultimately have "Q (w_light t' ! i)" using step True by (intro val) simp_all
    then show ?thesis using True by simp
  next
    case False
    then have "unat (word_of_nat k :: u32) \<noteq> i" using u by simp
    from indirect_texel_other [OF this step] have same: "w_light t' ! i = w_light t ! i" .
    show ?thesis
    proof (cases "Suc k \<le> i")
      case True
      then show ?thesis using t same by simp
    next
      case no: False
      then have "\<not> k \<le> i" using False by simp
      then show ?thesis using t same no by simp
    qed
  qed
  show "w_rng t' = generator_at bakedGeometry settings random (Suc k)
        \<and> (if Suc k \<le> i then w_light t' ! i = v else Q (w_light t' ! i))"
    using g e by blast
qed (use w in blast)

lemma BakeIndirectLight_texel_returned:
  assumes len: "length (light bakedIndirect) = N"
    and nz: "numThreads settings \<noteq> 0" and small: "N + unat (numThreads settings) - 1 < 2 ^ 32"
    and i: "i < N"
    and val: "\<And>w w'. w_rng w = generator_at bakedGeometry settings random i \<Longrightarrow>
                w_light w ! i = light bakedIndirect ! i \<Longrightarrow>
                indirect_texel env embreeScene bakedDirect bakedGeometry settings (word_of_nat i) w
                  = Inr w' \<Longrightarrow> Q (w_light w' ! i)"
    and run: "BakeIndirectLight env bakedIndirect bakedDirect bakedGeometry embreeScene settings
                random = Inr (baked, random')"
  shows "Q (light baked ! i)"
proof -
  let ?n = "unat (numThreads settings)"
  let ?cs = "ceil_div N ?n"
  let ?v = "light bakedIndirect ! i"
  let ?cb = "indirect_chunk env embreeScene bakedDirect bakedGeometry settings"
  let ?g = "\<lambda>k. (word_of_nat (k * ?cs) :: u32, word_of_nat (min (k * ?cs + ?cs) N) :: u32)"
  let ?T = "\<lambda>j s. snd s = generator_at bakedGeometry settings random (min (j * ?cs) N)
                   \<and> (if min (j * ?cs) N \<le> i then fst s ! i = ?v else Q (fst s ! i))"
  have pos: "0 < ?n" using nz by (simp add: unat_gt_0)
  then have N: "N < 2 ^ 32" using small by linarith
  then have u: "unat (word_of_nat N :: u32) = N" by (rule unat_of_nat_u32)
  have "post_tasks (word_of_nat N) (numThreads settings)
          ((word_of_nat N + numThreads settings - 1) div numThreads settings) 0 []
        = spec_chunks N ?n"
    using post_tasks_spec_chunks [of "numThreads settings" "word_of_nat N"] nz small u by simp
  then have tasks: "post_tasks (word_of_nat N) (numThreads settings)
                 ((word_of_nat N + numThreads settings - 1) div numThreads settings) 0 []
               = map ?g [0..<?n]"
    by (simp only: spec_chunks_def)
  have cover: "min (?n * ?cs) N = N"
    using ceil_div_cover [OF pos, of N] ceil_div_eq [OF pos, of N] by simp
  from run obtain buf where
    par: "ParallelFor (word_of_nat N) (numThreads settings) ?cb (light bakedIndirect, random)
            = Inr (buf, random')"
    and res: "baked = bakedIndirect\<lparr>light := buf\<rparr>"
    by (auto simp: BakeIndirectLight_def len split: sum.splits if_splits)
  have "wait_tasks ?cb (map ?g [0..<?n]) (light bakedIndirect, random) = Inr (buf, random')"
    using par nz by (simp only: ParallelFor_def Let_def tasks if_False)
  then have loop: "for_each (\<lambda>k. ?cb (fst (?g k)) (snd (?g k))) [0..<?n]
                     (light bakedIndirect, random) = Inr (buf, random')"
    by (simp only: wait_tasks_map)
  have "?T ?n (buf, random')"
  proof (rule for_each_counted_invariant [where I = ?T, OF _ loop])
    fix j and s s' :: "Vector4 list \<times> float list"
    assume j: "j < ?n" and c: "?cb (fst (?g j)) (snd (?g j)) s = Inr s'" and s: "?T j s"
    let ?a = "min (j * ?cs) N" and ?b = "min (j * ?cs + ?cs) N"
    let ?w = "\<lparr>w_light = fst s, w_rng = snd s,
                w_samples = replicate (MaxBounces env) v3_zero,
                w_factors = map (uninitialized env) [0..<MaxBounces env]\<rparr>"
    have ix: "[unat (fst (?g j))..<unat (snd (?g j))] = [?a..<?b]"
      using spec_chunk_pair_indices [OF pos small j] upt_clip [of "j * ?cs" ?cs N]
      by (simp only: chunk_indices_def)
    have b: "?b = min (Suc j * ?cs) N" by simp
    from c obtain w' where
      texels: "for_each (\<lambda>k. indirect_texel env embreeScene bakedDirect bakedGeometry settings
                                (word_of_nat k)) [?a..<?b] ?w = Inr w'"
      and s': "s' = (w_light w', w_rng w')"
      by (auto simp only: indirect_chunk_def for_range_for_each ix split: sum.splits)
    from s have s2: "w_rng ?w = generator_at bakedGeometry settings random ?a"
      and s3: "if ?a \<le> i then w_light ?w ! i = ?v else Q (w_light ?w ! i)" by simp_all
    have ab: "?a \<le> ?b" "?b < 2 ^ 32" using N by simp_all
    have "w_rng w' = generator_at bakedGeometry settings random ?b
          \<and> (if ?b \<le> i then w_light w' ! i = ?v else Q (w_light w' ! i))"
    proof (rule indirect_texels_returned [where Q = Q and v = ?v, OF _ ab s2 s3 texels])
      fix w w' :: worker_state
      assume "w_rng w = generator_at bakedGeometry settings random i"
        and "w_light w ! i = ?v"
        and "indirect_texel env embreeScene bakedDirect bakedGeometry settings (word_of_nat i) w
               = Inr w'"
      then show "Q (w_light w' ! i)" by (rule val)
    qed
    then show "?T (Suc j) s'" by (simp only: s' fst_conv snd_conv b) blast
  qed (simp_all add: generator_at_def texels_before_def)
  then have "Q (buf ! i)" using i by (simp only: cover fst_conv)
  then show ?thesis by (simp add: res)
qed

subsection \<open>C3: a path without a hit\<close>

lemma dark_path:
  assumes dark: "\<forall>d \<in> set (drawn_directions n (unat (numBounces settings)) r).
                   rtcIntersect1 embreeScene (v3_add p (v3_mul n (rayPositionOffset settings)))
                     d (GetMaxDistance embreeScene) = None"
    and run: "for_range (bounce env embreeScene bakedDirect settings) 0 (numBounces settings)
                \<lparr>numSamples = 0, currentPosition = p, currentNormal = n,
                 incomingSamples = xs, incomingFactors = fs, rng = r\<rparr> = Inr st"
  shows "numSamples st = 0"
proof -
  let ?st0 = "\<lparr>numSamples = 0, currentPosition = p, currentNormal = n,
               incomingSamples = xs, incomingFactors = fs, rng = r\<rparr>"
  from run have run': "for_each (\<lambda>k. bounce env embreeScene bakedDirect settings (word_of_nat k))
                  [0..<unat (numBounces settings)] ?st0 = Inr st"
    by (simp add: for_range_for_each)
  have "\<forall>d \<in> set (drawn_directions (currentNormal ?st0) (unat (numBounces settings) - 0)
                         (rng ?st0)).
          rtcIntersect1 embreeScene
            (v3_add (currentPosition ?st0) (v3_mul (currentNormal ?st0) (rayPositionOffset settings)))
            d (GetMaxDistance embreeScene) = None"
    using dark by simp
  from bounces_miss [OF this run'] obtain rs where "st = ?st0\<lparr>rng := rs\<rparr>" by blast
  then show ?thesis by simp
qed

lemma indirect_texel_dark:
  assumes geo: "geometryIds bakedGeometry ! i \<noteq> 0"
    and dark: "\<forall>d \<in> set (drawn_directions (smoothNormals bakedGeometry ! i)
                            (unat (numBounces settings)) (w_rng w)).
                 rtcIntersect1 embreeScene
                   (v3_add (geometryPositions bakedGeometry ! i)
                      (v3_mul (smoothNormals bakedGeometry ! i) (rayPositionOffset settings)))
                   d (GetMaxDistance embreeScene) = None"
    and k: "unat k = i"
    and run: "indirect_texel env embreeScene bakedDirect bakedGeometry settings k w = Inr w'"
  shows "w_light w' ! i = v4_add (w_light w ! i) (Vector4 0 0 0 1)"
proof -
  from run geo k obtain st indirectLighting where
    path: "for_range (bounce env embreeScene bakedDirect settings) 0 (numBounces settings)
             \<lparr>numSamples = 0, currentPosition = geometryPositions bakedGeometry ! i,
              currentNormal = smoothNormals bakedGeometry ! i,
              incomingSamples = w_samples w, incomingFactors = w_factors w,
              rng = w_rng w\<rparr> = Inr st"
    and acc: "accumulate_samples (incomingSamples st) (incomingFactors st) (numSamples st) v3_zero
                = Inr indirectLighting"
    and len: "i < length (w_light w)"
    and w': "w_light w' = (w_light w)[i := v4_add (w_light w ! i) (Vector4_of indirectLighting 1)]"
    by (auto simp: indirect_texel_def Let_def split: if_splits sum.splits)
  have "numSamples st = 0" by (rule dark_path [OF dark path])
  then have "indirectLighting = v3_zero" using acc by simp
  then show ?thesis using len by (simp add: w' Vector4_of_def v3_zero_def)
qed

text \<open>The directions drawn for a normal lie in the hemisphere about it, so the rays of a
  path that has not hit are among the rays into the hemisphere of the texel.\<close>

lemma RandomHemisphereDirection_hemisphere:
  assumes "RandomHemisphereDirection normal rs = Inr (d, rs')"
  shows "0 \<le> DotProduct d normal"
proof -
  from assms obtain r where
    d: "d = (if DotProduct r normal < 0 then v3_neg r else r)"
    by (auto simp: RandomHemisphereDirection_def split: sum.splits)
  have "DotProduct (v3_neg r) normal = - DotProduct r normal"
    by (simp add: DotProduct_def v3_neg_def)
  then show ?thesis by (simp add: d)
qed

lemma drawn_directions_hemisphere:
  "d \<in> set (drawn_directions normal n rs) \<Longrightarrow> 0 \<le> DotProduct d normal"
proof (induction n arbitrary: rs)
  case 0
  then show ?case by simp
next
  case (Suc n)
  show ?case
  proof (cases "RandomHemisphereDirection normal rs")
    case (Inl e)
    then show ?thesis using Suc.prems by simp
  next
    case (Inr p)
    obtain d0 rs' where p: "p = (d0, rs')" by (cases p)
    from Suc.prems Inr p have "d = d0 \<or> d \<in> set (drawn_directions normal n rs')" by simp
    then show ?thesis
      using RandomHemisphereDirection_hemisphere [of normal rs d0 rs'] Inr p Suc.IH by auto
  qed
qed

text \<open>
  C3 (as amended). For a texel with geometry, if \<open>numBounces = 0\<close>, or every ray cast
  during the texel's path misses the scene, one call of the indirect baker adds
  \<open>(0, 0, 0, 1)\<close> to the texel's entry: its RGB is unchanged and its alpha grows by one.

  The rays of the texel's path are cast from the texel's offset position in the directions
  drawn, one per bounce, from the generator as the path finds it (\<open>generator_at\<close>); no
  other ray is asked to miss, and the rays of the other texels may hit. This holds of every
  call that returns, and the call does return: for \<open>numBounces = 0\<close> always, and otherwise
  when the bounce count is within the capacity of the per-thread arrays, there is a chart
  to sample, every hit names a geometry of the scene, and the generator supplies the
  directions of the call.
\<close>

theorem dark_path_adds_alpha:
  assumes "chart_size bakedGeometry N" and "length (light bakedIndirect) = N"
    and "numThreads settings \<noteq> 0" and "N + unat (numThreads settings) - 1 < 2 ^ 32"
    and "i < N" and "geometryIds bakedGeometry ! i \<noteq> 0"
    and "numBounces settings = 0
      \<or> (\<forall>d \<in> set (drawn_directions (smoothNormals bakedGeometry ! i)
                       (unat (numBounces settings))
                       (generator_at bakedGeometry settings random i)).
            rtcIntersect1 embreeScene
              (v3_add (geometryPositions bakedGeometry ! i)
                 (v3_mul (smoothNormals bakedGeometry ! i) (rayPositionOffset settings)))
              d (GetMaxDistance embreeScene) = None)"
  shows "(BakeIndirectLight env bakedIndirect charts bakedGeometry embreeScene settings random
            = Inr (baked, random')
          \<longrightarrow> light baked ! i =
                Vector4 (v4x (light bakedIndirect ! i)) (v4y (light bakedIndirect ! i))
                        (v4z (light bakedIndirect ! i)) (v4w (light bakedIndirect ! i) + 1))
       \<and> (numBounces settings = 0
          \<or> (unat (numBounces settings) \<le> MaxBounces env
             \<and> charts \<noteq> []
             \<and> (\<forall>org dir tfar hit. rtcIntersect1 embreeScene org dir tfar = Some hit
                  \<longrightarrow> hit_geomID hit < length (GetEmbreeGeometryIndex embreeScene))
             \<and> supplies (unat (numBounces settings) * texels_before bakedGeometry N) random)
          \<longrightarrow> (\<exists>b r.
                BakeIndirectLight env bakedIndirect charts bakedGeometry embreeScene settings
                  random = Inr (b, r)
                \<and> light b ! i =
                    Vector4 (v4x (light bakedIndirect ! i)) (v4y (light bakedIndirect ! i))
                            (v4z (light bakedIndirect ! i)) (v4w (light bakedIndirect ! i) + 1)))"
proof -
  let ?m = "unat (numBounces settings)"
  let ?org = "v3_add (geometryPositions bakedGeometry ! i)
                (v3_mul (smoothNormals bakedGeometry ! i) (rayPositionOffset settings))"
  let ?V = "Vector4 (v4x (light bakedIndirect ! i)) (v4y (light bakedIndirect ! i))
              (v4z (light bakedIndirect ! i)) (v4w (light bakedIndirect ! i) + 1)"
  have "0 < unat (numThreads settings)" using assms(3) by (simp add: unat_gt_0)
  then have N: "N < 2 ^ 32" using assms(4) by linarith
  have u: "unat (word_of_nat i :: u32) = i" using assms(5) N by (simp add: unat_of_nat_u32)
  have dark: "\<forall>d \<in> set (drawn_directions (smoothNormals bakedGeometry ! i) ?m
                            (generator_at bakedGeometry settings random i)).
                rtcIntersect1 embreeScene ?org d (GetMaxDistance embreeScene) = None"
    using assms(7) by auto
  have val: "w_light w' ! i = ?V"
    if g: "w_rng w = generator_at bakedGeometry settings random i"
      and v: "w_light w ! i = light bakedIndirect ! i"
      and step: "indirect_texel env embreeScene charts bakedGeometry settings (word_of_nat i) w
                   = Inr w'"
    for w w' :: worker_state
  proof -
    have d: "\<forall>d \<in> set (drawn_directions (smoothNormals bakedGeometry ! i) ?m (w_rng w)).
               rtcIntersect1 embreeScene ?org d (GetMaxDistance embreeScene) = None"
      using dark by (simp only: g)
    from indirect_texel_dark [OF assms(6) d u step]
    show ?thesis by (simp add: v v4_add_def)
  qed
  have returned: "BakeIndirectLight env bakedIndirect charts bakedGeometry embreeScene settings
                    random = Inr (baked, random') \<longrightarrow> light baked ! i = ?V"
  proof
    assume run: "BakeIndirectLight env bakedIndirect charts bakedGeometry embreeScene settings
                   random = Inr (baked, random')"
    show "light baked ! i = ?V"
    proof (rule BakeIndirectLight_texel_returned
        [where Q = "\<lambda>u. u = ?V", OF assms(2,3,4,5) _ run])
      fix w w' :: worker_state
      assume "w_rng w = generator_at bakedGeometry settings random i"
        and "w_light w ! i = light bakedIndirect ! i"
        and "indirect_texel env embreeScene charts bakedGeometry settings (word_of_nat i) w
               = Inr w'"
      then show "w_light w' ! i = ?V" by (rule val)
    qed
  qed
  have returns: "numBounces settings = 0
          \<or> (?m \<le> MaxBounces env
             \<and> charts \<noteq> []
             \<and> (\<forall>org dir tfar hit. rtcIntersect1 embreeScene org dir tfar = Some hit
                  \<longrightarrow> hit_geomID hit < length (GetEmbreeGeometryIndex embreeScene))
             \<and> supplies (?m * texels_before bakedGeometry N) random)
          \<longrightarrow> (\<exists>b r.
                BakeIndirectLight env bakedIndirect charts bakedGeometry embreeScene settings
                  random = Inr (b, r)
                \<and> light b ! i = ?V)"
  proof
    assume wf: "numBounces settings = 0
          \<or> (?m \<le> MaxBounces env
             \<and> charts \<noteq> []
             \<and> (\<forall>org dir tfar hit. rtcIntersect1 embreeScene org dir tfar = Some hit
                  \<longrightarrow> hit_geomID hit < length (GetEmbreeGeometryIndex embreeScene))
             \<and> supplies (?m * texels_before bakedGeometry N) random)"
    have bounces: "?m \<le> MaxBounces env" using wf by auto
    have charts: "numBounces settings \<noteq> 0
                   \<longrightarrow> charts \<noteq> []
                       \<and> (\<forall>org dir tfar hit. rtcIntersect1 embreeScene org dir tfar = Some hit
                          \<longrightarrow> hit_geomID hit < length (GetEmbreeGeometryIndex embreeScene))"
      using wf by blast
    have fuel: "supplies (?m * texels_before bakedGeometry N) random" using wf by auto
    show "\<exists>b r.
            BakeIndirectLight env bakedIndirect charts bakedGeometry embreeScene settings
              random = Inr (b, r)
            \<and> light b ! i = ?V"
    proof (rule BakeIndirectLight_texel
        [where Q = "\<lambda>u. u = ?V", OF assms(1,2,3,4,5) bounces charts fuel])
      fix w w' :: worker_state
      assume "w_rng w = generator_at bakedGeometry settings random i"
        and "w_light w ! i = light bakedIndirect ! i"
        and "indirect_texel env embreeScene charts bakedGeometry settings (word_of_nat i) w
               = Inr w'"
      then show "w_light w' ! i = ?V" by (rule val)
    qed
  qed
  show ?thesis by (rule conjI [OF returned returns])
qed

theorem dark_path_adds_alpha_witness:
  "(\<exists>baked random'.
      BakeIndirectLight example_env example_indirect [lit_chart] pair_geometry floor_scene
        two_workers [1, 0, 0, 0, 3 / 5, - (4 / 5)] = Inr (baked, random')
      \<and> light baked ! 1 = Vector4 1 2 3 5)
   \<and> light example_indirect ! 1 = Vector4 1 2 3 4
   \<and> drawn_directions (smoothNormals pair_geometry ! 1) (unat (numBounces two_workers))
        (generator_at pair_geometry two_workers [1, 0, 0, 0, 3 / 5, - (4 / 5)] 1)
      = [Vector3 0 (- (3 / 5)) (4 / 5)]
   \<and> rtcIntersect1 floor_scene (Vector3 1 0 (1 / 1000)) (Vector3 0 0 (- 1)) 100 \<noteq> None"
proof -
  let ?R = "[1, 0, 0, 0, 3 / 5, - (4 / 5)] :: float list"
  have c: "chart_size pair_geometry 2"
    by (simp add: chart_size_def pair_geometry_def example_geometry_def)
  have l: "length (light example_indirect) = 2" by (simp add: example_indirect_def)
  have n: "numThreads two_workers \<noteq> 0" "2 + unat (numThreads two_workers) - 1 < 2 ^ 32"
    by (simp_all add: two_workers_def)
  have i: "(1 :: nat) < 2" by simp
  have g: "geometryIds pair_geometry ! 1 \<noteq> 0"
    by (simp add: pair_geometry_def example_geometry_def)
  have m: "unat (numBounces two_workers) = 1" by (simp add: two_workers_def)
  have rd1: "RandomDirection ?R = Inr (Vector3 1 0 0, [0, 3 / 5, - (4 / 5)])"
    by (simp add: Length_def LengthSquared_def v3_div_def)
  have rd2: "RandomDirection [0, 3 / 5, - (4 / 5)] = Inr (Vector3 0 (3 / 5) (- (4 / 5)), [])"
    by (simp add: Length_def LengthSquared_def v3_div_def)
  have tb1: "texels_before pair_geometry (Suc 0) = Suc 0"
    by (simp add: texels_before_def pair_geometry_def example_geometry_def)
  have tb2: "texels_before pair_geometry 2 = Suc (Suc 0)"
    by (simp add: texels_before_def pair_geometry_def example_geometry_def upt_rec)
  have ga: "generator_at pair_geometry two_workers ?R 1 = [0, 3 / 5, - (4 / 5)]"
    by (simp add: generator_at_def m tb1 rd1 del: RandomDirection.simps)
  have n1: "smoothNormals pair_geometry ! 1 = Vector3 0 0 1"
    by (simp add: pair_geometry_def example_geometry_def)
  have "drawn_directions (Vector3 0 0 1) 1 [0, 3 / 5, - (4 / 5)] = [Vector3 0 (- (3 / 5)) (4 / 5)]"
    by (simp add: RandomHemisphereDirection_def rd2 DotProduct_def v3_neg_def
        del: RandomDirection.simps)
  then have dd: "drawn_directions (smoothNormals pair_geometry ! 1)
              (unat (numBounces two_workers))
              (generator_at pair_geometry two_workers ?R 1) = [Vector3 0 (- (3 / 5)) (4 / 5)]"
    by (simp only: ga m n1)
  have s: "supplies (unat (numBounces two_workers) * texels_before pair_geometry 2) ?R"
    by (simp add: m tb2 rd1 rd2 del: RandomDirection.simps)
  have h: "\<forall>org dir tfar hit. rtcIntersect1 floor_scene org dir tfar = Some hit
             \<longrightarrow> hit_geomID hit < length (GetEmbreeGeometryIndex floor_scene)"
    by (auto simp: floor_scene_def split: if_splits)
  have d: "numBounces two_workers = 0
      \<or> (\<forall>d \<in> set (drawn_directions (smoothNormals pair_geometry ! 1)
                       (unat (numBounces two_workers))
                       (generator_at pair_geometry two_workers ?R 1)).
            rtcIntersect1 floor_scene
              (v3_add (geometryPositions pair_geometry ! 1)
                 (v3_mul (smoothNormals pair_geometry ! 1) (rayPositionOffset two_workers)))
              d (GetMaxDistance floor_scene) = None)"
    by (rule disjI2) (simp only: dd, simp add: floor_scene_def)
  have wf: "numBounces two_workers = 0
          \<or> (unat (numBounces two_workers) \<le> MaxBounces example_env
             \<and> [lit_chart] \<noteq> []
             \<and> (\<forall>org dir tfar hit. rtcIntersect1 floor_scene org dir tfar = Some hit
                  \<longrightarrow> hit_geomID hit < length (GetEmbreeGeometryIndex floor_scene))
             \<and> supplies (unat (numBounces two_workers) * texels_before pair_geometry 2) ?R)"
  proof (intro disjI2 conjI)
    show "unat (numBounces two_workers) \<le> MaxBounces example_env"
      by (simp add: m example_env_def)
    show "[lit_chart] \<noteq> []" by simp
  qed (rule h, rule s)
  from dark_path_adds_alpha [OF c l n i g d, of example_env "[lit_chart]", THEN conjunct2,
      THEN mp, OF wf]
  have "\<exists>baked random'.
      BakeIndirectLight example_env example_indirect [lit_chart] pair_geometry floor_scene
        two_workers ?R = Inr (baked, random')
      \<and> light baked ! 1 = Vector4 1 2 3 5"
    by (simp add: example_indirect_def)
  then show ?thesis using dd by (simp add: example_indirect_def floor_scene_def)
qed

text \<open>
  C3 as stated fails: the value added is never zero. With no bounce at all the entry
  \<open>(1, 2, 3, 4)\<close> of the texel with geometry becomes \<open>(1, 2, 3, 5)\<close>.
\<close>

theorem no_bounce_counterexample:
  "numBounces example_settings = 0
   \<and> geometryIds example_geometry ! 1 \<noteq> 0
   \<and> (\<exists>baked random'.
        BakeIndirectLight example_env example_indirect [] example_geometry empty_scene
          example_settings [] = Inr (baked, random')
        \<and> light baked ! 1 \<noteq> light example_indirect ! 1)"
  using ev_indirect
  by (simp add: example_settings_def example_geometry_def example_indirect_def)

subsection \<open>C4: what the direct baker adds\<close>

lemma direct_texel_step:
  assumes "chart_size bakedGeometry N" and "k < N" and "N < 2 ^ 32" and "length buf = N"
  shows "direct_texel embreeScene bakedGeometry
           (v3_neg (Normalized (direction light_params))) (GetMaxDistance embreeScene)
           (ToVector3 (color light_params)) (word_of_nat k) buf
         = Inr (buf[k := if geometryIds bakedGeometry ! k = 0 then buf ! k
                         else v3_add (buf ! k)
                                (direct_contribution embreeScene bakedGeometry light_params k)])"
proof -
  have u: "unat (word_of_nat k :: u32) = k" using assms(2,3) by (rule unat_of_nat_small)
  show ?thesis
    using assms(1,2,4)
    by (simp add: direct_texel_def u chart_size_def direct_contribution_def Let_def
        v3_add_def v3_mul_def)
qed

lemma BakeDirectionalLight_result:
  assumes size: "chart_size bakedGeometry N" and len: "length (directLight bakedDirect) = N"
    and nz: "numThreads settings \<noteq> 0" and small: "N + unat (numThreads settings) - 1 < 2 ^ 32"
  shows "BakeDirectionalLight bakedDirect bakedGeometry embreeScene light_params settings =
         Inr (bakedDirect\<lparr>directLight :=
           map (\<lambda>k. if geometryIds bakedGeometry ! k = 0 then directLight bakedDirect ! k
                     else v3_add (directLight bakedDirect ! k)
                            (direct_contribution embreeScene bakedGeometry light_params k))
               [0..<N]\<rparr>)"
proof -
  have "0 < unat (numThreads settings)" using nz by (simp add: unat_gt_0)
  then have N: "N < 2 ^ 32" using small by linarith
  have "ParallelFor (word_of_nat N) (numThreads settings)
          (for_range (direct_texel embreeScene bakedGeometry
             (v3_neg (Normalized (direction light_params))) (GetMaxDistance embreeScene)
             (ToVector3 (color light_params))))
          (directLight bakedDirect) =
        Inr (map (\<lambda>k. if geometryIds bakedGeometry ! k = 0 then directLight bakedDirect ! k
                     else v3_add (directLight bakedDirect ! k)
                            (direct_contribution embreeScene bakedGeometry light_params k))
               [0..<N])"
    by (rule ParallelFor_pointwise [OF direct_texel_step [OF size _ N] nz small len])
  then show ?thesis by (simp add: BakeDirectionalLight_def Let_def len)
qed

text \<open>
  C4 (as amended). On a chart of \<open>N\<close> texels (with \<open>N + numThreads - 1 < 2^32\<close> and at
  least one thread) one call adds to the direct value of every texel with geometry
  exactly \<open>lightColor * visibility * max (0, dot (smoothNormal, reverse))\<close>, where
  \<open>reverse\<close> is the reversed and normalised light direction, and \<open>visibility\<close> is 1 when
  the shadow ray from \<open>position + 0.001 * reverse\<close> along \<open>reverse\<close> up to the scene's
  maximal distance finds nothing and 0 otherwise. A second call with another light adds
  that light's contribution to the sum.
\<close>

theorem BakeDirectionalLight_adds:
  assumes "chart_size bakedGeometry N" and "length (directLight bakedDirect) = N"
    and "numThreads settings \<noteq> 0" and "N + unat (numThreads settings) - 1 < 2 ^ 32"
  shows "BakeDirectionalLight bakedDirect bakedGeometry embreeScene light1 settings =
           Inr (bakedDirect\<lparr>directLight :=
             map (\<lambda>k. if geometryIds bakedGeometry ! k = 0 then directLight bakedDirect ! k
                       else v3_add (directLight bakedDirect ! k)
                              (direct_contribution embreeScene bakedGeometry light1 k))
                 [0..<N]\<rparr>)
       \<and> (case BakeDirectionalLight bakedDirect bakedGeometry embreeScene light1 settings of
            Inl e \<Rightarrow> False
          | Inr baked1 \<Rightarrow>
              BakeDirectionalLight baked1 bakedGeometry embreeScene light2 settings =
                Inr (bakedDirect\<lparr>directLight :=
                  map (\<lambda>k. if geometryIds bakedGeometry ! k = 0 then directLight bakedDirect ! k
                            else v3_add
                                   (v3_add (directLight bakedDirect ! k)
                                      (direct_contribution embreeScene bakedGeometry light1 k))
                                   (direct_contribution embreeScene bakedGeometry light2 k))
                      [0..<N]\<rparr>))"
proof -
  let ?L1 = "map (\<lambda>k. if geometryIds bakedGeometry ! k = 0 then directLight bakedDirect ! k
                       else v3_add (directLight bakedDirect ! k)
                              (direct_contribution embreeScene bakedGeometry light1 k))
                 [0..<N]"
  let ?b1 = "bakedDirect\<lparr>directLight := ?L1\<rparr>"
  have one: "BakeDirectionalLight bakedDirect bakedGeometry embreeScene light1 settings = Inr ?b1"
    by (rule BakeDirectionalLight_result [OF assms])
  have len1: "length (directLight ?b1) = N" by simp
  have "map (\<lambda>k. if geometryIds bakedGeometry ! k = 0 then directLight ?b1 ! k
                  else v3_add (directLight ?b1 ! k)
                         (direct_contribution embreeScene bakedGeometry light2 k)) [0..<N]
        = map (\<lambda>k. if geometryIds bakedGeometry ! k = 0 then directLight bakedDirect ! k
                    else v3_add
                           (v3_add (directLight bakedDirect ! k)
                              (direct_contribution embreeScene bakedGeometry light1 k))
                           (direct_contribution embreeScene bakedGeometry light2 k)) [0..<N]"
    by (rule map_cong) simp_all
  then have two: "BakeDirectionalLight ?b1 bakedGeometry embreeScene light2 settings =
      Inr (bakedDirect\<lparr>directLight :=
        map (\<lambda>k. if geometryIds bakedGeometry ! k = 0 then directLight bakedDirect ! k
                  else v3_add
                         (v3_add (directLight bakedDirect ! k)
                            (direct_contribution embreeScene bakedGeometry light1 k))
                         (direct_contribution embreeScene bakedGeometry light2 k))
            [0..<N]\<rparr>)"
    using BakeDirectionalLight_result [OF assms(1) len1 assms(3,4), of embreeScene light2]
    by simp
  show ?thesis using one two by simp
qed

theorem BakeDirectionalLight_adds_witness:
  "chart_size example_geometry 2
   \<and> BakeDirectionalLight example_direct example_geometry empty_scene example_light
         example_settings = Inr \<lparr>directLight = [Vector3 0 0 0, Vector3 1 1 1]\<rparr>
   \<and> BakeDirectionalLight \<lparr>directLight = [Vector3 0 0 0, Vector3 1 1 1]\<rparr> example_geometry
         empty_scene long_light example_settings
       = Inr \<lparr>directLight = [Vector3 0 0 0, Vector3 2 2 2]\<rparr>"
proof -
  have c: "chart_size example_geometry 2" by (simp add: chart_size_def example_geometry_def)
  have l: "length (directLight example_direct) = 2" by (simp add: example_direct_def)
  have n: "numThreads example_settings \<noteq> 0" by (simp add: example_settings_def)
  have s: "2 + unat (numThreads example_settings) - 1 < 2 ^ 32"
    by (simp add: example_settings_def)
  have d: "direct_contribution empty_scene example_geometry example_light (Suc 0) = Vector3 1 1 1"
    "direct_contribution empty_scene example_geometry long_light (Suc 0) = Vector3 1 1 1"
    by (simp_all add: direct_contribution_def example_geometry_def example_light_def
        long_light_def empty_scene_def Normalized_def LengthSquared_def v3_neg_def v3_mul_def
        ToVector3_def DotProduct_def)
  have g: "geometryIds example_geometry ! 0 = 0" "geometryIds example_geometry ! Suc 0 = 1"
    "directLight example_direct ! 0 = Vector3 0 0 0"
    "directLight example_direct ! Suc 0 = Vector3 0 0 0"
    by (simp_all add: example_geometry_def example_direct_def)
  have r1: "example_direct\<lparr>directLight :=
             map (\<lambda>k. if geometryIds example_geometry ! k = 0 then directLight example_direct ! k
                       else v3_add (directLight example_direct ! k)
                              (direct_contribution empty_scene example_geometry example_light k))
                 [0..<2]\<rparr> = \<lparr>directLight = [Vector3 0 0 0, Vector3 1 1 1]\<rparr>"
    by (simp add: upt_conv_Cons g d v3_add_def example_direct_def)
  have r2: "example_direct\<lparr>directLight :=
             map (\<lambda>k. if geometryIds example_geometry ! k = 0 then directLight example_direct ! k
                       else v3_add
                              (v3_add (directLight example_direct ! k)
                                 (direct_contribution empty_scene example_geometry example_light k))
                              (direct_contribution empty_scene example_geometry long_light k))
                 [0..<2]\<rparr> = \<lparr>directLight = [Vector3 0 0 0, Vector3 2 2 2]\<rparr>"
    by (simp add: upt_conv_Cons g d v3_add_def example_direct_def)
  note t = BakeDirectionalLight_adds [OF c l n s, of empty_scene example_light long_light,
      unfolded r1 r2]
  from t have one: "BakeDirectionalLight example_direct example_geometry empty_scene example_light
         example_settings = Inr \<lparr>directLight = [Vector3 0 0 0, Vector3 1 1 1]\<rparr>"
    by (rule conjunct1)
  from t have "case BakeDirectionalLight example_direct example_geometry empty_scene example_light
         example_settings of
      Inl e \<Rightarrow> False
    | Inr baked1 \<Rightarrow>
        BakeDirectionalLight baked1 example_geometry empty_scene long_light example_settings
          = Inr \<lparr>directLight = [Vector3 0 0 0, Vector3 2 2 2]\<rparr>"
    by (rule conjunct2)
  then have two: "BakeDirectionalLight \<lparr>directLight = [Vector3 0 0 0, Vector3 1 1 1]\<rparr>
         example_geometry empty_scene long_light example_settings
       = Inr \<lparr>directLight = [Vector3 0 0 0, Vector3 2 2 2]\<rparr>"
    unfolding one by simp
  show ?thesis using c one two by simp
qed

text \<open>
  C4 as stated fails for a light direction that is not of unit length: the code
  normalises it. For the direction \<open>(0, 0, -2)\<close>, white light and a normal that faces
  the light, the code adds \<open>(1, 1, 1)\<close> where the claim's formula gives \<open>(2, 2, 2)\<close>.
\<close>

theorem unnormalised_light_counterexample:
  "BakeDirectionalLight example_direct example_geometry empty_scene long_light example_settings
     = Inr \<lparr>directLight = [Vector3 0 0 0, Vector3 1 1 1]\<rparr>
   \<and> v3_add (directLight example_direct ! 1)
        (claimed_direct_contribution empty_scene example_geometry long_light 1)
     = Vector3 2 2 2
   \<and> geometryIds example_geometry ! 1 \<noteq> 0
   \<and> [Vector3 0 0 0, Vector3 1 1 1] ! 1
     \<noteq> v3_add (directLight example_direct ! 1)
          (claimed_direct_contribution empty_scene example_geometry long_light 1)"
  by (simp add: BakeDirectionalLight_def run_simps direct_texel_def example_direct_def
      example_geometry_def empty_scene_def long_light_def example_settings_def
      claimed_direct_contribution_def
      Normalized_def LengthSquared_def v3_neg_def v3_mul_def v3_add_def ToVector3_def
      DotProduct_def)

subsection \<open>C5: combining the recorded samples\<close>

text \<open>The loop folds the first \<open>n\<close> slots of the two arrays back to front.\<close>

lemma accumulate_samples_fold:
  assumes "n \<le> length samples" and "n \<le> length factors"
  shows "accumulate_samples samples factors n acc =
         Inr (foldr (\<lambda>pair accumulator. v3_mul (v3_add accumulator (fst pair)) (snd pair))
                (zip (take n samples) (take n factors)) acc)"
  using assms
proof (induction n arbitrary: acc)
  case 0
  show ?case by simp
next
  case (Suc j)
  then have j: "j < length samples" "j < length factors" by simp_all
  have z: "zip (take (Suc j) samples) (take (Suc j) factors) =
           zip (take j samples) (take j factors) @ [(samples ! j, factors ! j)]"
    using j by (simp add: take_Suc_conv_app_nth)
  show ?case using Suc.IH j by (simp add: z)
qed

text \<open>
  C5 on a path whose first ray misses and whose second ray hits: the hit is recorded in
  slot 1 (sample \<open>(1, 1, 1)\<close>, weight \<open>2 / \<pi>\<close>) and counted as one sample; the loop
  then reads slot 0, which the path never wrote, so the texel receives \<open>(0, 0, 0, 1)\<close>
  where the recorded pair combines to \<open>2 / \<pi>\<close> in each colour.
\<close>

theorem miss_then_hit_reads_unwritten_slot:
  "for_range (bounce example_env ceiling_scene [lit_chart] two_bounces) 0 (numBounces two_bounces)
     \<lparr>numSamples = 0, currentPosition = Vector3 0 0 0, currentNormal = Vector3 0 0 1,
      incomingSamples = replicate 16 v3_zero, incomingFactors = replicate 16 0,
      rng = [1, 0, 0, 0, 0, 1]\<rparr>
   = Inr \<lparr>numSamples = 1, currentPosition = Vector3 0 0 (1001 / 1000),
          currentNormal = Vector3 0 0 (- 1),
          incomingSamples = (replicate 16 v3_zero)[1 := Vector3 1 1 1],
          incomingFactors = (replicate 16 0)[1 := 2 / pi],
          rng = []\<rparr>
   \<and> BakeIndirectLight example_env dark_indirect [lit_chart] lit_texel_geometry ceiling_scene
       two_bounces [1, 0, 0, 0, 0, 1]
     = Inr (\<lparr>light = [Vector4 0 0 0 1], lightSwap = [Vector4 0 0 0 0]\<rparr>, [])
   \<and> Vector4_of (combine_back_to_front [(Vector3 1 1 1, 2 / pi)]) 1
     = Vector4 (2 / pi) (2 / pi) (2 / pi) 1"
proof -
  have h1: "RandomHemisphereDirection (Vector3 0 0 1) [1, 0, 0, 0, 0, 1]
              = Inr (Vector3 1 0 0, [0, 0, 1])"
    by (simp add: RandomHemisphereDirection_def Length_def LengthSquared_def v3_div_def
        DotProduct_def)
  have path: "for_range (bounce example_env ceiling_scene [lit_chart] two_bounces) 0
       (numBounces two_bounces)
       \<lparr>numSamples = 0, currentPosition = Vector3 0 0 0, currentNormal = Vector3 0 0 1,
        incomingSamples = replicate 16 v3_zero, incomingFactors = replicate 16 0,
        rng = [1, 0, 0, 0, 0, 1]\<rparr>
     = Inr \<lparr>numSamples = 1, currentPosition = Vector3 0 0 (1001 / 1000),
            currentNormal = Vector3 0 0 (- 1),
            incomingSamples = (replicate 16 v3_zero)[1 := Vector3 1 1 1],
            incomingFactors = (replicate 16 0)[1 := 2 / pi],
            rng = []\<rparr>"
    by (simp add: for_range.simps bounce_def h1 ev_hemi two_bounces_def ceiling_scene_def
        example_env_def lit_chart_def v3_add_def v3_mul_def DotProduct_def M_PI_def Let_def
        Normalized_def LengthSquared_def)
  have call: "BakeIndirectLight example_env dark_indirect [lit_chart] lit_texel_geometry
       ceiling_scene two_bounces [1, 0, 0, 0, 0, 1]
     = Inr (\<lparr>light = [Vector4 0 0 0 1], lightSwap = [Vector4 0 0 0 0]\<rparr>, [])"
    by (simp add: BakeIndirectLight_def run_simps indirect_chunk_def indirect_texel_def
        bounce_def h1 ev_hemi two_bounces_def ceiling_scene_def
        example_env_def lit_chart_def dark_indirect_def lit_texel_geometry_def hole_geometry_def
        v3_zero_def v3_add_def v3_mul_def v4_add_def Vector4_of_def DotProduct_def M_PI_def
        Normalized_def LengthSquared_def)
  have spec: "Vector4_of (combine_back_to_front [(Vector3 1 1 1, 2 / pi)]) 1
     = Vector4 (2 / pi) (2 / pi) (2 / pi) 1"
    by (simp add: combine_back_to_front_def Vector4_of_def v3_zero_def v3_add_def v3_mul_def)
  show ?thesis by (rule conjI [OF path conjI [OF call spec]])
qed

subsection \<open>A path whose hits come before its misses\<close>

text \<open>The bounces from \<open>j\<close> on, for a path that has hit at every bounce before \<open>j\<close>:
  they record the pairs of \<open>path_pairs\<close> in the slots from \<open>j\<close> on and count them.\<close>

lemma take_update_end:
  assumes "j < length xs"
  shows "take (Suc j) (xs[j := v]) = take j xs @ [v]"
  using assms by (simp add: take_Suc_conv_app_nth)

lemma bounces_record:
  assumes run: "for_each (\<lambda>k. bounce env embreeScene (chart # others) settings (word_of_nat k))
                  [j..<unat (numBounces settings)] st = Inr st'"
    and j: "j \<le> unat (numBounces settings)" and ns: "numSamples st = j"
    and pairs: "path_pairs env embreeScene chart settings (unat (numBounces settings) - j)
                  (currentPosition st) (currentNormal st) (rng st) = Some ps"
  shows "numSamples st' = j + length ps
         \<and> take (j + length ps) (incomingSamples st') = take j (incomingSamples st) @ map fst ps
         \<and> take (j + length ps) (incomingFactors st') = take j (incomingFactors st) @ map snd ps"
  using run j ns pairs
proof (induction "unat (numBounces settings) - j" arbitrary: j st ps)
  case 0
  then have "j = unat (numBounces settings)" by simp
  then show ?case using "0.prems" by simp
next
  case (Suc k)
  let ?m = "unat (numBounces settings)"
  let ?body = "\<lambda>k. bounce env embreeScene (chart # others) settings (word_of_nat k)"
  let ?org = "v3_add (currentPosition st) (v3_mul (currentNormal st) (rayPositionOffset settings))"
  have jm: "j < ?m" and k: "k = ?m - Suc j" using Suc.hyps(2) by simp_all
  have "?m < 2 ^ 32" using unsigned_less [of "numBounces settings"] by simp
  then have u: "unat (word_of_nat j :: u32) = j" using jm by (simp add: unat_of_nat_u32)
  have "[j..<?m] = j # [Suc j..<?m]" using jm by (simp add: upt_conv_Cons)
  with Suc.prems(1) obtain st1 where
    first: "bounce env embreeScene (chart # others) settings (word_of_nat j) st = Inr st1"
    and rest: "for_each ?body [Suc j..<?m] st1 = Inr st'"
    by (auto split: sum.splits)
  from first obtain d rs' where
    draw: "RandomHemisphereDirection (currentNormal st) (rng st) = Inr (d, rs')"
    by (auto simp: bounce_def split: sum.splits)
  have pp: "path_pairs env embreeScene chart settings (Suc k) (currentPosition st)
              (currentNormal st) (rng st) = Some ps"
    using Suc.prems(4) Suc.hyps(2) by simp
  show ?case
  proof (cases "rtcIntersect1 embreeScene ?org d (GetMaxDistance embreeScene)")
    case None
    from pp draw None have ps: "ps = []"
      and later: "list_all
                    (\<lambda>d. rtcIntersect1 embreeScene ?org d (GetMaxDistance embreeScene) = None)
                    (drawn_directions (currentNormal st) k rs')"
      by (auto simp: Let_def split: if_splits)
    have st1: "st1 = st\<lparr>rng := rs'\<rparr>"
      using first bounce_miss [OF draw None, of env "chart # others" "word_of_nat j"] by simp
    have dark: "\<forall>d \<in> set (drawn_directions (currentNormal st1) (?m - Suc j) (rng st1)).
                  rtcIntersect1 embreeScene
                    (v3_add (currentPosition st1)
                       (v3_mul (currentNormal st1) (rayPositionOffset settings)))
                    d (GetMaxDistance embreeScene) = None"
      using later by (simp add: st1 k list_all_iff)
    have "Suc j \<le> ?m" using jm by simp
    from bounces_miss [OF dark rest this] obtain rs where "st' = st1\<lparr>rng := rs\<rparr>" by blast
    then show ?thesis using Suc.prems(3) by (simp add: st1 ps)
  next
    case (Some hit)
    let ?s = "SampleNearest env chart
                (rtcInterpolate0 embreeScene
                   (GetEmbreeGeometryIndex embreeScene ! hit_geomID hit)
                   (hit_primID hit) (hit_u hit) (hit_v hit))"
    let ?w = "((1 / pi) / pi) * DotProduct d (currentNormal st) / (1 / (2 * pi))"
    let ?p = "v3_add ?org (v3_mul d (hit_tfar hit))"
    let ?n = "Normalized (hit_Ng hit)"
    from pp draw Some obtain ps' where
      ps': "path_pairs env embreeScene chart settings k ?p ?n rs' = Some ps'"
      and ps: "ps = (?s, ?w) # ps'"
      by (auto simp: Let_def split: option.splits)
    from first draw Some have
      geom: "hit_geomID hit < length (GetEmbreeGeometryIndex embreeScene)"
      and sl: "j < length (incomingSamples st)" and fl: "j < length (incomingFactors st)"
      by (auto simp: bounce_def Let_def u split: if_splits)
    from first draw Some geom sl fl have
      n1: "numSamples st1 = Suc j" and r1: "rng st1 = rs'"
      and s1: "incomingSamples st1 = (incomingSamples st)[j := ?s]"
      and f1: "incomingFactors st1 = (incomingFactors st)[j := ?w]"
      and adv: "Suc j < ?m \<longrightarrow> currentPosition st1 = ?p \<and> currentNormal st1 = ?n"
      using Suc.prems(3)
      by (auto simp: bounce_def Let_def u M_PI_def split: if_splits)
    have pp1: "path_pairs env embreeScene chart settings (?m - Suc j)
                 (currentPosition st1) (currentNormal st1) (rng st1) = Some ps'"
    proof (cases "Suc j < ?m")
      case True
      then show ?thesis using adv ps' by (simp add: r1 k)
    next
      case False
      then have z: "?m - Suc j = 0" by simp
      then have "ps' = []" using ps' k by simp
      then show ?thesis by (simp add: z)
    qed
    have "Suc j \<le> ?m" using jm by simp
    from Suc.hyps(1) [OF k rest this n1 pp1]
    have a: "numSamples st' = Suc j + length ps'"
      and b: "take (Suc j + length ps') (incomingSamples st')
                = take (Suc j) (incomingSamples st1) @ map fst ps'"
      and c: "take (Suc j + length ps') (incomingFactors st')
                = take (Suc j) (incomingFactors st1) @ map snd ps'"
      by simp_all
    show ?thesis
      using a b c by (simp add: ps s1 f1 take_update_end [OF sl] take_update_end [OF fl])
  qed
qed

text \<open>What the step of a texel with geometry adds to the texel's entry when the hits of its
  path come before its misses: the recorded pairs combined back to front.\<close>

lemma indirect_texel_path:
  assumes geo: "geometryIds bakedGeometry ! i \<noteq> 0" and k: "unat k = i"
    and run: "indirect_texel env embreeScene (chart # others) bakedGeometry settings k w = Inr w'"
    and pairs: "path_pairs env embreeScene chart settings (unat (numBounces settings))
                  (geometryPositions bakedGeometry ! i) (smoothNormals bakedGeometry ! i)
                  (w_rng w) = Some ps"
  shows "w_light w' ! i = v4_add (w_light w ! i) (Vector4_of (combine_back_to_front ps) 1)"
proof -
  let ?st0 = "\<lparr>numSamples = 0, currentPosition = geometryPositions bakedGeometry ! i,
               currentNormal = smoothNormals bakedGeometry ! i,
               incomingSamples = w_samples w, incomingFactors = w_factors w,
               rng = w_rng w\<rparr>"
  from run geo k obtain st indirectLighting where
    path: "for_range (bounce env embreeScene (chart # others) settings) 0 (numBounces settings)
             ?st0 = Inr st"
    and acc: "accumulate_samples (incomingSamples st) (incomingFactors st) (numSamples st) v3_zero
                = Inr indirectLighting"
    and len: "i < length (w_light w)"
    and w': "w_light w' = (w_light w)[i := v4_add (w_light w ! i) (Vector4_of indirectLighting 1)]"
    by (auto simp: indirect_texel_def Let_def split: if_splits sum.splits)
  from path have loop: "for_each (\<lambda>k. bounce env embreeScene (chart # others) settings
                                        (word_of_nat k))
                          [0..<unat (numBounces settings)] ?st0 = Inr st"
    by (simp add: for_range_for_each)
  have pp: "path_pairs env embreeScene chart settings (unat (numBounces settings) - 0)
              (currentPosition ?st0) (currentNormal ?st0) (rng ?st0) = Some ps"
    using pairs by simp
  from bounces_record [OF loop _ _ pp]
  have n: "numSamples st = length ps"
    and s: "take (length ps) (incomingSamples st) = map fst ps"
    and f: "take (length ps) (incomingFactors st) = map snd ps"
    by simp_all
  have "length (take (length ps) (incomingSamples st)) = length ps"
    and "length (take (length ps) (incomingFactors st)) = length ps"
    by (simp_all only: s f length_map)
  then have ls: "length ps \<le> length (incomingSamples st)"
    and lf: "length ps \<le> length (incomingFactors st)" by simp_all
  have "zip (take (length ps) (incomingSamples st)) (take (length ps) (incomingFactors st)) = ps"
    by (simp only: s f zip_map_fst_snd)
  then have "accumulate_samples (incomingSamples st) (incomingFactors st) (numSamples st) v3_zero
               = Inr (combine_back_to_front ps)"
    using accumulate_samples_fold [OF ls lf, of v3_zero]
    by (simp add: n combine_back_to_front_def)
  then have "indirectLighting = combine_back_to_front ps" using acc by simp
  then show ?thesis using len by (simp add: w')
qed

text \<open>The whole call on a texel with geometry: it returns, and when the hits of the
  texel's path come before its misses it has added the recorded pairs, combined back to
  front, to the texel's entry.\<close>

lemma BakeIndirectLight_path:
  assumes size: "chart_size bakedGeometry N" and len: "length (light bakedIndirect) = N"
    and nz: "numThreads settings \<noteq> 0" and small: "N + unat (numThreads settings) - 1 < 2 ^ 32"
    and i: "i < N" and geo: "geometryIds bakedGeometry ! i \<noteq> 0"
    and cap: "unat (numBounces settings) \<le> MaxBounces env"
    and scene: "\<forall>org dir tfar hit. rtcIntersect1 embreeScene org dir tfar = Some hit
                  \<longrightarrow> hit_geomID hit < length (GetEmbreeGeometryIndex embreeScene)"
    and fuel: "supplies (unat (numBounces settings) * texels_before bakedGeometry N) random"
  shows "\<exists>baked random'.
           BakeIndirectLight env bakedIndirect (chart # others) bakedGeometry embreeScene settings
             random = Inr (baked, random')
           \<and> (\<forall>pairs.
                 path_pairs env embreeScene chart settings (unat (numBounces settings))
                   (geometryPositions bakedGeometry ! i) (smoothNormals bakedGeometry ! i)
                   (generator_at bakedGeometry settings random i) = Some pairs
                 \<longrightarrow> light baked ! i = v4_add (light bakedIndirect ! i)
                       (Vector4_of (combine_back_to_front pairs) 1))"
proof -
  let ?g = "generator_at bakedGeometry settings random i"
  let ?Q = "\<lambda>u. \<forall>pairs.
              path_pairs env embreeScene chart settings (unat (numBounces settings))
                (geometryPositions bakedGeometry ! i) (smoothNormals bakedGeometry ! i) ?g
                = Some pairs
              \<longrightarrow> u = v4_add (light bakedIndirect ! i)
                    (Vector4_of (combine_back_to_front pairs) 1)"
  have "0 < unat (numThreads settings)" using nz by (simp add: unat_gt_0)
  then have N: "N < 2 ^ 32" using small by linarith
  have u: "unat (word_of_nat i :: u32) = i" using i N by (simp add: unat_of_nat_u32)
  have charts: "numBounces settings \<noteq> 0
                 \<longrightarrow> chart # others \<noteq> []
                     \<and> (\<forall>org dir tfar hit. rtcIntersect1 embreeScene org dir tfar = Some hit
                          \<longrightarrow> hit_geomID hit < length (GetEmbreeGeometryIndex embreeScene))"
    using scene by simp
  show ?thesis
  proof (rule BakeIndirectLight_texel [where Q = ?Q, OF size len nz small i cap charts fuel])
    fix w w' :: worker_state
    assume g: "w_rng w = ?g" and v: "w_light w ! i = light bakedIndirect ! i"
      and step: "indirect_texel env embreeScene (chart # others) bakedGeometry settings
                   (word_of_nat i) w = Inr w'"
    show "?Q (w_light w' ! i)"
    proof (intro allI impI)
      fix pairs
      assume "path_pairs env embreeScene chart settings (unat (numBounces settings))
                (geometryPositions bakedGeometry ! i) (smoothNormals bakedGeometry ! i) ?g
                = Some pairs"
      then have "path_pairs env embreeScene chart settings (unat (numBounces settings))
                (geometryPositions bakedGeometry ! i) (smoothNormals bakedGeometry ! i)
                (w_rng w) = Some pairs"
        by (simp only: g)
      from indirect_texel_path [OF geo u step this]
      show "w_light w' ! i = v4_add (light bakedIndirect ! i)
              (Vector4_of (combine_back_to_front pairs) 1)"
        by (simp only: v)
    qed
  qed
qed

subsection \<open>C6: the Monte Carlo weight of a bounce that hits\<close>

text \<open>
  C6. A bounce whose ray hits does record a weight, and the weight is
  \<open>brdf * cosTheta / probability\<close> with \<open>brdf = (1 / \<pi>) / \<pi>\<close>,
  \<open>cosTheta = dot (rayDirection, currentNormal)\<close> and \<open>probability = 1 / (2 \<pi>)\<close>,
  which is \<open>2 * cosTheta / \<pi>\<close>:
  \<^item> the body of the bounce loop, run for bounce \<open>j\<close> from any state of the path with a
    ray that hits a geometry of the scene's index, returns, counts one more sample and
    holds the weight at slot \<open>j\<close> (the slot is inside the arrays for every bounce of a call
    whose bounce count is within their capacity);
  \<^item> the whole call returns, given enough random values, and gives a texel the pairs its
    path records (\<open>path_pairs\<close>, each hit with this weight), combined back to front,
    whenever the hits of the path come before its misses.
\<close>

theorem bounce_records_weight:
  "(RandomHemisphereDirection (currentNormal st) (rng st) = Inr (rayDirection, rng')
      \<and> rtcIntersect1 embreeScene
           (v3_add (currentPosition st) (v3_mul (currentNormal st) (rayPositionOffset settings)))
           rayDirection (GetMaxDistance embreeScene) = Some hit
      \<and> hit_geomID hit < length (GetEmbreeGeometryIndex embreeScene)
      \<and> bakedDirect \<noteq> []
      \<and> unat j < length (incomingSamples st) \<and> unat j < length (incomingFactors st)
    \<longrightarrow> (\<exists>st'. bounce env embreeScene bakedDirect settings j st = Inr st'
            \<and> numSamples st' = numSamples st + 1
            \<and> incomingFactors st' ! unat j =
                ((1 / pi) / pi) * DotProduct rayDirection (currentNormal st) / (1 / (2 * pi))
            \<and> incomingFactors st' ! unat j
                = 2 * DotProduct rayDirection (currentNormal st) / pi))
   \<and> (chart_size bakedGeometry N \<and> length (light bakedIndirect) = N
      \<and> numThreads settings \<noteq> 0 \<and> N + unat (numThreads settings) - 1 < 2 ^ 32
      \<and> i < N \<and> geometryIds bakedGeometry ! i \<noteq> 0
      \<and> unat (numBounces settings) \<le> MaxBounces env
      \<and> bakedDirect \<noteq> []
      \<and> (\<forall>org dir tfar hit. rtcIntersect1 embreeScene org dir tfar = Some hit
             \<longrightarrow> hit_geomID hit < length (GetEmbreeGeometryIndex embreeScene))
      \<and> supplies (unat (numBounces settings) * texels_before bakedGeometry N) random
    \<longrightarrow> (\<exists>baked random'.
           BakeIndirectLight env bakedIndirect bakedDirect bakedGeometry embreeScene settings
             random = Inr (baked, random')
           \<and> (\<forall>pairs.
                 path_pairs env embreeScene (bakedDirect ! 0) settings (unat (numBounces settings))
                   (geometryPositions bakedGeometry ! i) (smoothNormals bakedGeometry ! i)
                   (generator_at bakedGeometry settings random i) = Some pairs
                 \<longrightarrow> light baked ! i = v4_add (light bakedIndirect ! i)
                       (Vector4_of (combine_back_to_front pairs) 1))))"
proof (intro conjI impI, elim conjE)
  assume draw: "RandomHemisphereDirection (currentNormal st) (rng st) = Inr (rayDirection, rng')"
    and hit: "rtcIntersect1 embreeScene
           (v3_add (currentPosition st) (v3_mul (currentNormal st) (rayPositionOffset settings)))
           rayDirection (GetMaxDistance embreeScene) = Some hit"
    and geom: "hit_geomID hit < length (GetEmbreeGeometryIndex embreeScene)"
    and charts: "bakedDirect \<noteq> []"
    and slot: "unat j < length (incomingSamples st)" "unat j < length (incomingFactors st)"
  obtain chart others where c: "bakedDirect = chart # others"
    using charts by (cases bakedDirect) auto
  have f: "((1 / pi) / pi) * c / (1 / (2 * pi)) = 2 * c / pi" for c :: real
    by (simp add: field_simps)
  from bounce_hit [OF draw hit geom slot, of env chart others]
  obtain st' where r: "bounce env embreeScene bakedDirect settings j st = Inr st'"
    and n: "numSamples st' = numSamples st + 1"
    and w: "incomingFactors st' =
              (incomingFactors st)
                [unat j := ((1 / pi) / pi) * DotProduct rayDirection (currentNormal st)
                             / (1 / (2 * pi))]"
    unfolding c by blast
  have w1: "incomingFactors st' ! unat j =
              ((1 / pi) / pi) * DotProduct rayDirection (currentNormal st) / (1 / (2 * pi))"
    using slot(2) by (simp only: w nth_list_update_eq)
  then have w2: "incomingFactors st' ! unat j
                   = 2 * DotProduct rayDirection (currentNormal st) / pi"
    by (simp only: f)
  show "\<exists>st'. bounce env embreeScene bakedDirect settings j st = Inr st'
            \<and> numSamples st' = numSamples st + 1
            \<and> incomingFactors st' ! unat j =
                ((1 / pi) / pi) * DotProduct rayDirection (currentNormal st) / (1 / (2 * pi))
            \<and> incomingFactors st' ! unat j
                = 2 * DotProduct rayDirection (currentNormal st) / pi"
    using r n w1 w2 by blast
next
  assume a: "chart_size bakedGeometry N \<and> length (light bakedIndirect) = N
      \<and> numThreads settings \<noteq> 0 \<and> N + unat (numThreads settings) - 1 < 2 ^ 32
      \<and> i < N \<and> geometryIds bakedGeometry ! i \<noteq> 0
      \<and> unat (numBounces settings) \<le> MaxBounces env
      \<and> bakedDirect \<noteq> []
      \<and> (\<forall>org dir tfar hit. rtcIntersect1 embreeScene org dir tfar = Some hit
             \<longrightarrow> hit_geomID hit < length (GetEmbreeGeometryIndex embreeScene))
      \<and> supplies (unat (numBounces settings) * texels_before bakedGeometry N) random"
  then obtain chart others where c: "bakedDirect = chart # others"
    by (cases bakedDirect) auto
  have z: "bakedDirect ! 0 = chart" by (simp add: c)
  from a have size: "chart_size bakedGeometry N" and len: "length (light bakedIndirect) = N"
    and nz: "numThreads settings \<noteq> 0" and small: "N + unat (numThreads settings) - 1 < 2 ^ 32"
    and i: "i < N" and geo: "geometryIds bakedGeometry ! i \<noteq> 0"
    and cap: "unat (numBounces settings) \<le> MaxBounces env"
    and fuel: "supplies (unat (numBounces settings) * texels_before bakedGeometry N) random"
    by simp_all
  from a have scene: "\<forall>org dir tfar hit. rtcIntersect1 embreeScene org dir tfar = Some hit
                        \<longrightarrow> hit_geomID hit < length (GetEmbreeGeometryIndex embreeScene)"
    by blast
  show "\<exists>baked random'.
           BakeIndirectLight env bakedIndirect bakedDirect bakedGeometry embreeScene settings
             random = Inr (baked, random')
           \<and> (\<forall>pairs.
                 path_pairs env embreeScene (bakedDirect ! 0) settings (unat (numBounces settings))
                   (geometryPositions bakedGeometry ! i) (smoothNormals bakedGeometry ! i)
                   (generator_at bakedGeometry settings random i) = Some pairs
                 \<longrightarrow> light baked ! i = v4_add (light bakedIndirect ! i)
                       (Vector4_of (combine_back_to_front pairs) 1))"
    unfolding z unfolding c
    by (rule BakeIndirectLight_path [OF size len nz small i geo cap scene fuel])
qed

theorem bounce_records_weight_witness:
  "(\<exists>st'. bounce example_env dome_scene [lit_chart, other_chart] two_bounces 1 slanted_path
             = Inr st'
      \<and> numSamples st' = 1 \<and> incomingFactors st' ! 1 = 8 / (5 * pi))
   \<and> (\<exists>baked random'.
        BakeIndirectLight example_env dark_indirect [lit_chart, other_chart] lit_texel_geometry
          dome_scene two_bounces [0, 3 / 5, 4 / 5, 0, 0, 1] = Inr (baked, random')
        \<and> light baked ! 0 = Vector4 (8 / (5 * pi)) (8 / (5 * pi)) (8 / (5 * pi)) 1)"
proof (rule conjI)
  let ?hit = "\<lparr>hit_tfar = 1, hit_geomID = 0, hit_primID = 0, hit_u = 0, hit_v = 0,
               hit_Ng = Vector3 0 0 (- 1)\<rparr>"
  have rd: "RandomDirection [0, 3 / 5, 4 / 5] = Inr (Vector3 0 (3 / 5) (4 / 5), [])"
    by (simp add: Length_def LengthSquared_def v3_div_def)
  have h: "RandomHemisphereDirection (currentNormal slanted_path) (rng slanted_path)
             = Inr (Vector3 0 (3 / 5) (4 / 5), [])"
    by (simp add: slanted_path_def example_path_def RandomHemisphereDirection_def rd
        DotProduct_def del: RandomDirection.simps)
  have i: "rtcIntersect1 dome_scene
             (v3_add (currentPosition slanted_path)
                (v3_mul (currentNormal slanted_path) (rayPositionOffset two_bounces)))
             (Vector3 0 (3 / 5) (4 / 5)) (GetMaxDistance dome_scene) = Some ?hit"
    by (simp add: dome_scene_def)
  have g: "hit_geomID ?hit < length (GetEmbreeGeometryIndex dome_scene)"
    by (simp add: dome_scene_def)
  have c: "[lit_chart, other_chart] \<noteq> []" by simp
  have s: "unat (1 :: u32) < length (incomingSamples slanted_path)"
    "unat (1 :: u32) < length (incomingFactors slanted_path)"
    by (simp_all add: slanted_path_def example_path_def)
  have "\<exists>st'. bounce example_env dome_scene [lit_chart, other_chart] two_bounces 1 slanted_path
               = Inr st'
          \<and> numSamples st' = numSamples slanted_path + 1
          \<and> incomingFactors st' ! unat (1 :: u32) =
              ((1 / pi) / pi)
                * DotProduct (Vector3 0 (3 / 5) (4 / 5)) (currentNormal slanted_path)
                / (1 / (2 * pi))
          \<and> incomingFactors st' ! unat (1 :: u32)
              = 2 * DotProduct (Vector3 0 (3 / 5) (4 / 5)) (currentNormal slanted_path) / pi"
    using bounce_records_weight [where st = slanted_path and rayDirection = "Vector3 0 (3 / 5) (4 / 5)"
        and rng' = "[]" and embreeScene = dome_scene and settings = two_bounces and hit = ?hit
        and bakedDirect = "[lit_chart, other_chart]" and j = 1 and env = example_env,
        THEN conjunct1] h i g c s
    by blast
  then obtain st' where
    r: "bounce example_env dome_scene [lit_chart, other_chart] two_bounces 1 slanted_path = Inr st'"
    and n: "numSamples st' = numSamples slanted_path + 1"
    and w: "incomingFactors st' ! unat (1 :: u32)
              = 2 * DotProduct (Vector3 0 (3 / 5) (4 / 5)) (currentNormal slanted_path) / pi"
    by blast
  from n have "numSamples st' = 1" by (simp add: slanted_path_def example_path_def)
  moreover from w have "incomingFactors st' ! 1 = 8 / (5 * pi)"
    by (simp add: slanted_path_def example_path_def DotProduct_def)
  ultimately show "\<exists>st'. bounce example_env dome_scene [lit_chart, other_chart] two_bounces 1
                     slanted_path = Inr st'
      \<and> numSamples st' = 1 \<and> incomingFactors st' ! 1 = 8 / (5 * pi)"
    using r by blast
next
  let ?R = "[0, 3 / 5, 4 / 5, 0, 0, 1] :: float list"
  have m: "unat (numBounces two_bounces) = Suc (Suc 0)" by (simp add: two_bounces_def)
  have rd1: "RandomDirection ?R = Inr (Vector3 0 (3 / 5) (4 / 5), [0, 0, 1])"
    by (simp add: Length_def LengthSquared_def v3_div_def)
  have rd2: "RandomDirection [0, 0, 1] = Inr (Vector3 0 0 1, [])"
    by (simp add: Length_def LengthSquared_def v3_div_def)
  have tb: "texels_before lit_texel_geometry (Suc 0) = Suc 0"
    by (simp add: texels_before_def lit_texel_geometry_def hole_geometry_def)
  have n0: "smoothNormals lit_texel_geometry ! 0 = Vector3 0 0 1"
    and p0: "geometryPositions lit_texel_geometry ! 0 = Vector3 0 0 0"
    by (simp_all add: lit_texel_geometry_def hole_geometry_def)
  have ga: "generator_at lit_texel_geometry two_bounces ?R 0 = ?R"
    by (simp add: generator_at_def texels_before_def)
  have w: "((1 / pi) / pi) * (4 / 5) / (1 / (2 * pi)) = 8 / (5 * pi)"
    by (simp add: field_simps)
  have "path_pairs example_env dome_scene lit_chart two_bounces (Suc (Suc 0))
          (Vector3 0 0 0) (Vector3 0 0 1) ?R
        = Some [(Vector3 1 1 1, ((1 / pi) / pi) * (4 / 5) / (1 / (2 * pi)))]"
    by (simp add: RandomHemisphereDirection_def rd1 rd2 DotProduct_def v3_neg_def v3_add_def
        v3_mul_def Normalized_def LengthSquared_def dome_scene_def example_env_def lit_chart_def
        two_bounces_def Let_def del: RandomDirection.simps)
  then have pp: "path_pairs example_env dome_scene ([lit_chart, other_chart] ! 0) two_bounces
                   (unat (numBounces two_bounces))
                   (geometryPositions lit_texel_geometry ! 0)
                   (smoothNormals lit_texel_geometry ! 0)
                   (generator_at lit_texel_geometry two_bounces ?R 0)
                 = Some [(Vector3 1 1 1, 8 / (5 * pi))]"
    by (simp only: ga m n0 p0 nth_Cons_0 w)
  have a: "chart_size lit_texel_geometry 1 \<and> length (light dark_indirect) = 1
      \<and> numThreads two_bounces \<noteq> 0 \<and> 1 + unat (numThreads two_bounces) - 1 < 2 ^ 32
      \<and> (0 :: nat) < 1 \<and> geometryIds lit_texel_geometry ! 0 \<noteq> 0
      \<and> unat (numBounces two_bounces) \<le> MaxBounces example_env
      \<and> [lit_chart, other_chart] \<noteq> []
      \<and> (\<forall>org dir tfar hit. rtcIntersect1 dome_scene org dir tfar = Some hit
             \<longrightarrow> hit_geomID hit < length (GetEmbreeGeometryIndex dome_scene))
      \<and> supplies (unat (numBounces two_bounces) * texels_before lit_texel_geometry 1) ?R"
  proof (intro conjI)
    show "chart_size lit_texel_geometry 1"
      by (simp add: chart_size_def lit_texel_geometry_def hole_geometry_def)
    show "\<forall>org dir tfar hit. rtcIntersect1 dome_scene org dir tfar = Some hit
            \<longrightarrow> hit_geomID hit < length (GetEmbreeGeometryIndex dome_scene)"
      by (auto simp: dome_scene_def split: if_splits)
    show "supplies (unat (numBounces two_bounces) * texels_before lit_texel_geometry 1) ?R"
      by (simp add: m tb rd1 rd2 del: RandomDirection.simps)
    show "unat (numBounces two_bounces) \<le> MaxBounces example_env"
      by (simp add: m example_env_def)
  qed (simp_all add: dark_indirect_def two_bounces_def lit_texel_geometry_def hole_geometry_def)
  from bounce_records_weight [where env = example_env and bakedIndirect = dark_indirect
      and bakedDirect = "[lit_chart, other_chart]" and bakedGeometry = lit_texel_geometry
      and embreeScene = dome_scene and settings = two_bounces and random = ?R and N = 1
      and i = 0, THEN conjunct2, THEN mp, OF a]
  obtain baked random' where
    run: "BakeIndirectLight example_env dark_indirect [lit_chart, other_chart] lit_texel_geometry
            dome_scene two_bounces ?R = Inr (baked, random')"
    and val: "\<forall>pairs.
                 path_pairs example_env dome_scene ([lit_chart, other_chart] ! 0) two_bounces
                   (unat (numBounces two_bounces))
                   (geometryPositions lit_texel_geometry ! 0)
                   (smoothNormals lit_texel_geometry ! 0)
                   (generator_at lit_texel_geometry two_bounces ?R 0) = Some pairs
                 \<longrightarrow> light baked ! 0 = v4_add (light dark_indirect ! 0)
                       (Vector4_of (combine_back_to_front pairs) 1)"
    by blast
  from val pp have "light baked ! 0 = v4_add (light dark_indirect ! 0)
                      (Vector4_of (combine_back_to_front [(Vector3 1 1 1, 8 / (5 * pi))]) 1)"
    by blast
  then have "light baked ! 0 = Vector4 (8 / (5 * pi)) (8 / (5 * pi)) (8 / (5 * pi)) 1"
    by (simp add: dark_indirect_def combine_back_to_front_def v3_zero_def v3_add_def
        v3_mul_def Vector4_of_def v4_add_def)
  with run show "\<exists>baked random'.
        BakeIndirectLight example_env dark_indirect [lit_chart, other_chart] lit_texel_geometry
          dome_scene two_bounces ?R = Inr (baked, random')
        \<and> light baked ! 0 = Vector4 (8 / (5 * pi)) (8 / (5 * pi)) (8 / (5 * pi)) 1"
    by blast
qed

subsection \<open>C7: the filter with radius 0\<close>

lemma filter_sums_radius0:
  assumes "kernelRadius params = 0"
  shows "filter_sums env bakedIndirect bakedGeometry params [1] k =
         Inr (v4_mul (light bakedIndirect ! k) 1, 1)"
  using assms by (simp add: filter_sums_def filter_tap_def Let_def)

lemma filter_texel_radius0:
  assumes size: "chart_size bakedGeometry N" and len: "length (light bakedIndirect) = N"
    and k: "k < N" and N: "N < 2 ^ 32" and swap: "length swap = N"
    and r: "kernelRadius params = 0" and eps: "M_EPSILON env \<le> 1"
  shows "filter_texel env bakedIndirect bakedGeometry params [1] (word_of_nat k) swap =
         Inr (swap[k := if geometryIds bakedGeometry ! k = 0 then swap ! k
                        else light bakedIndirect ! k])"
proof -
  have u: "unat (word_of_nat k :: u32) = k" using k N by (rule unat_of_nat_small)
  have m: "max (M_EPSILON env) 1 = 1" using eps by simp
  show ?thesis
    using size len k swap
    by (simp add: filter_texel_def u chart_size_def filter_sums_radius0 [OF r] m
        v4_mul_def v4_div_def)
qed

text \<open>
  C7 (as amended). With \<open>kernelRadius = 0\<close> (and \<open>M_EPSILON \<le> 1\<close>) the filter returns,
  as the current buffer, the old current value at every texel with geometry and the old
  scratch value at every texel without; the scratch buffer becomes the old current
  buffer. So it is the identity on the texels with geometry, and on the whole buffer
  when the two buffers agree on the texels without.
\<close>

theorem filter_radius0:
  assumes "chart_size bakedGeometry N"
    and "length (light bakedIndirect) = N" and "length (lightSwap bakedIndirect) = N"
    and "threads \<noteq> 0" and "N + unat threads - 1 < 2 ^ 32"
    and "kernelRadius params = 0" and "M_EPSILON env \<le> 1"
  shows "FilterIndirectLight env bakedIndirect bakedGeometry params threads =
           Inr (bakedIndirect\<lparr>
             light := map (\<lambda>k. if geometryIds bakedGeometry ! k = 0
                                then lightSwap bakedIndirect ! k
                                else light bakedIndirect ! k) [0..<N],
             lightSwap := light bakedIndirect\<rparr>)
       \<and> (\<forall>k < N. geometryIds bakedGeometry ! k \<noteq> 0 \<longrightarrow>
             map (\<lambda>k. if geometryIds bakedGeometry ! k = 0
                        then lightSwap bakedIndirect ! k
                        else light bakedIndirect ! k) [0..<N] ! k = light bakedIndirect ! k)
       \<and> ((\<forall>k < N. geometryIds bakedGeometry ! k = 0 \<longrightarrow>
               lightSwap bakedIndirect ! k = light bakedIndirect ! k) \<longrightarrow>
             map (\<lambda>k. if geometryIds bakedGeometry ! k = 0
                        then lightSwap bakedIndirect ! k
                        else light bakedIndirect ! k) [0..<N] = light bakedIndirect)"
proof -
  have "0 < unat threads" using assms(4) by (simp add: unat_gt_0)
  then have N: "N < 2 ^ 32" using assms(5) by linarith
  have "ParallelFor (word_of_nat N) threads
          (for_range (filter_texel env bakedIndirect bakedGeometry params [1]))
          (lightSwap bakedIndirect) =
        Inr (map (\<lambda>k. if geometryIds bakedGeometry ! k = 0 then lightSwap bakedIndirect ! k
                       else light bakedIndirect ! k) [0..<N])"
    by (rule ParallelFor_pointwise
        [OF filter_texel_radius0 [OF assms(1,2) _ N _ assms(6,7)] assms(4,5,3)])
  then have call: "FilterIndirectLight env bakedIndirect bakedGeometry params threads =
           Inr (bakedIndirect\<lparr>
             light := map (\<lambda>k. if geometryIds bakedGeometry ! k = 0
                                then lightSwap bakedIndirect ! k
                                else light bakedIndirect ! k) [0..<N],
             lightSwap := light bakedIndirect\<rparr>)"
    by (simp add: FilterIndirectLight_def GetKernel_def assms(2,6))
  have each: "\<forall>k < N. geometryIds bakedGeometry ! k \<noteq> 0 \<longrightarrow>
             map (\<lambda>k. if geometryIds bakedGeometry ! k = 0
                        then lightSwap bakedIndirect ! k
                        else light bakedIndirect ! k) [0..<N] ! k = light bakedIndirect ! k"
    by simp
  have whole: "(\<forall>k < N. geometryIds bakedGeometry ! k = 0 \<longrightarrow>
               lightSwap bakedIndirect ! k = light bakedIndirect ! k) \<longrightarrow>
             map (\<lambda>k. if geometryIds bakedGeometry ! k = 0
                        then lightSwap bakedIndirect ! k
                        else light bakedIndirect ! k) [0..<N] = light bakedIndirect"
  proof
    assume "\<forall>k < N. geometryIds bakedGeometry ! k = 0 \<longrightarrow>
               lightSwap bakedIndirect ! k = light bakedIndirect ! k"
    then show "map (\<lambda>k. if geometryIds bakedGeometry ! k = 0
                        then lightSwap bakedIndirect ! k
                        else light bakedIndirect ! k) [0..<N] = light bakedIndirect"
      using assms(2) by (intro nth_equalityI) auto
  qed
  show ?thesis by (rule conjI [OF call conjI [OF each whole]])
qed

theorem filter_radius0_witness:
  "FilterIndirectLight example_env example_indirect example_geometry example_filter 2
     = Inr \<lparr>light = [Vector4 0 0 0 0, Vector4 1 2 3 4],
             lightSwap = [Vector4 5 5 5 5, Vector4 1 2 3 4]\<rparr>
   \<and> geometryIds example_geometry ! 1 \<noteq> 0
   \<and> light example_indirect ! 1 = Vector4 1 2 3 4"
proof -
  have c: "chart_size example_geometry 2" by (simp add: chart_size_def example_geometry_def)
  have l: "length (light example_indirect) = 2" "length (lightSwap example_indirect) = 2"
    by (simp_all add: example_indirect_def)
  have t: "(2 :: u32) \<noteq> 0" "2 + unat (2 :: u32) - 1 < 2 ^ 32" by simp_all
  have r: "kernelRadius example_filter = 0" by (simp add: example_filter_def)
  have e: "M_EPSILON example_env \<le> 1" by (simp add: example_env_def)
  have m: "example_indirect\<lparr>
             light := map (\<lambda>k. if geometryIds example_geometry ! k = 0
                                then lightSwap example_indirect ! k
                                else light example_indirect ! k) [0..<2],
             lightSwap := light example_indirect\<rparr>
           = \<lparr>light = [Vector4 0 0 0 0, Vector4 1 2 3 4],
              lightSwap = [Vector4 5 5 5 5, Vector4 1 2 3 4]\<rparr>"
    by (simp add: upt_conv_Cons example_geometry_def example_indirect_def)
  from filter_radius0 [OF c l t r e]
  have "FilterIndirectLight example_env example_indirect example_geometry example_filter 2
     = Inr \<lparr>light = [Vector4 0 0 0 0, Vector4 1 2 3 4],
             lightSwap = [Vector4 5 5 5 5, Vector4 1 2 3 4]\<rparr>"
    unfolding m by (rule conjunct1)
  then show ?thesis by (simp add: example_geometry_def example_indirect_def)
qed

text \<open>
  C7 as stated fails at a texel without geometry: on a chart of one such texel, whose
  current buffer holds \<open>(1, 1, 1, 1)\<close> and whose scratch buffer holds zero, the filter
  with radius 0 leaves zero in the current buffer.
\<close>

theorem filter_radius0_counterexample:
  "kernelRadius example_filter = 0
   \<and> FilterIndirectLight example_env hole_indirect hole_geometry example_filter 1
       = Inr \<lparr>light = [Vector4 0 0 0 0], lightSwap = [Vector4 1 1 1 1]\<rparr>
   \<and> light hole_indirect ! 0 = Vector4 1 1 1 1"
  by (simp add: FilterIndirectLight_def GetKernel_def run_simps filter_texel_def
      hole_indirect_def hole_geometry_def example_filter_def)

subsection \<open>C8: the chart the indirect baker samples\<close>

text \<open>The charts and the sampling function reach the call only through the samples of the
  first chart of the array.\<close>

lemma bounce_sampler:
  assumes "\<forall>uv. SampleNearest env chart uv = sampler chart' uv"
  shows "bounce env embreeScene (chart # others) settings =
         bounce (env\<lparr>SampleNearest := sampler\<rparr>) embreeScene (chart' # others') settings"
  by (rule ext, rule ext)
     (simp add: bounce_def Let_def assms
        cong: sum.case_cong prod.case_cong option.case_cong if_cong)

lemma BakeIndirectLight_sampler:
  assumes "\<forall>uv. SampleNearest env chart uv = sampler chart' uv"
  shows "BakeIndirectLight env bakedIndirect (chart # others) bakedGeometry embreeScene settings
           random
         = BakeIndirectLight (env\<lparr>SampleNearest := sampler\<rparr>) bakedIndirect (chart' # others')
             bakedGeometry embreeScene settings random"
proof -
  let ?env = "env\<lparr>SampleNearest := sampler\<rparr>"
  have t: "indirect_texel env embreeScene (chart # others) bakedGeometry settings =
           indirect_texel ?env embreeScene (chart' # others') bakedGeometry settings"
    by (rule ext, rule ext)
       (simp only: indirect_texel_def
          bounce_sampler [where env = env and chart = chart and sampler = sampler
            and chart' = chart' and others = others and others' = others', OF assms])
  have c: "indirect_chunk env embreeScene (chart # others) bakedGeometry settings =
           indirect_chunk ?env embreeScene (chart' # others') bakedGeometry settings"
    by (intro ext) (simp add: indirect_chunk_def t)
  show ?thesis by (simp add: BakeIndirectLight_def c)
qed

text \<open>
  C8. The indirect baker samples the incoming direct light of every hit from the chart at
  index 0 of the array it is given:
  \<^item> the whole call depends on the array and on the sampling function only through the
    samples of the chart at index 0: it returns the same for another array and another
    sampling function that give, at the head of the array, the same sample at every UV;
  \<^item> the body of the bounce loop, run for bounce \<open>j\<close> from any state of the path with a
    ray that hits a geometry of the scene's index, returns and holds at slot \<open>j\<close> the
    sample of the chart at index 0 at the hit's lightmap UV;
  \<^item> the whole call returns, given enough random values, and gives a texel the pairs its
    path records (\<open>path_pairs\<close>, every sample taken from the chart at index 0), combined
    back to front, whenever the hits of the path come before its misses.
\<close>

theorem indirect_samples_first_chart:
  "((\<forall>uv. SampleNearest env chart uv = sampler chart' uv)
    \<longrightarrow> BakeIndirectLight env bakedIndirect (chart # others) bakedGeometry embreeScene settings
          random
        = BakeIndirectLight (env\<lparr>SampleNearest := sampler\<rparr>) bakedIndirect (chart' # others')
            bakedGeometry embreeScene settings random)
   \<and> (RandomHemisphereDirection (currentNormal st) (rng st) = Inr (rayDirection, rng')
      \<and> rtcIntersect1 embreeScene
           (v3_add (currentPosition st) (v3_mul (currentNormal st) (rayPositionOffset settings)))
           rayDirection (GetMaxDistance embreeScene) = Some hit
      \<and> hit_geomID hit < length (GetEmbreeGeometryIndex embreeScene)
      \<and> unat j < length (incomingSamples st) \<and> unat j < length (incomingFactors st)
    \<longrightarrow> (\<exists>st'. bounce env embreeScene (chart # others) settings j st = Inr st'
            \<and> numSamples st' = numSamples st + 1
            \<and> incomingSamples st' ! unat j =
                SampleNearest env ((chart # others) ! 0)
                  (rtcInterpolate0 embreeScene
                     (GetEmbreeGeometryIndex embreeScene ! hit_geomID hit)
                     (hit_primID hit) (hit_u hit) (hit_v hit))))
   \<and> (chart_size bakedGeometry N \<and> length (light bakedIndirect) = N
      \<and> numThreads settings \<noteq> 0 \<and> N + unat (numThreads settings) - 1 < 2 ^ 32
      \<and> i < N \<and> geometryIds bakedGeometry ! i \<noteq> 0
      \<and> unat (numBounces settings) \<le> MaxBounces env
      \<and> (\<forall>org dir tfar hit. rtcIntersect1 embreeScene org dir tfar = Some hit
             \<longrightarrow> hit_geomID hit < length (GetEmbreeGeometryIndex embreeScene))
      \<and> supplies (unat (numBounces settings) * texels_before bakedGeometry N) random
    \<longrightarrow> (\<exists>baked random'.
           BakeIndirectLight env bakedIndirect (chart # others) bakedGeometry embreeScene settings
             random = Inr (baked, random')
           \<and> (\<forall>pairs.
                 path_pairs env embreeScene ((chart # others) ! 0) settings (unat (numBounces settings))
                   (geometryPositions bakedGeometry ! i) (smoothNormals bakedGeometry ! i)
                   (generator_at bakedGeometry settings random i) = Some pairs
                 \<longrightarrow> light baked ! i = v4_add (light bakedIndirect ! i)
                       (Vector4_of (combine_back_to_front pairs) 1))))"
proof (intro conjI impI)
  assume "\<forall>uv. SampleNearest env chart uv = sampler chart' uv"
  then show "BakeIndirectLight env bakedIndirect (chart # others) bakedGeometry embreeScene
               settings random
             = BakeIndirectLight (env\<lparr>SampleNearest := sampler\<rparr>) bakedIndirect
                 (chart' # others') bakedGeometry embreeScene settings random"
    by (rule BakeIndirectLight_sampler)
next
  assume a: "RandomHemisphereDirection (currentNormal st) (rng st) = Inr (rayDirection, rng')
      \<and> rtcIntersect1 embreeScene
           (v3_add (currentPosition st) (v3_mul (currentNormal st) (rayPositionOffset settings)))
           rayDirection (GetMaxDistance embreeScene) = Some hit
      \<and> hit_geomID hit < length (GetEmbreeGeometryIndex embreeScene)
      \<and> unat j < length (incomingSamples st) \<and> unat j < length (incomingFactors st)"
  then have draw: "RandomHemisphereDirection (currentNormal st) (rng st) = Inr (rayDirection, rng')"
    and hit: "rtcIntersect1 embreeScene
           (v3_add (currentPosition st) (v3_mul (currentNormal st) (rayPositionOffset settings)))
           rayDirection (GetMaxDistance embreeScene) = Some hit"
    and geom: "hit_geomID hit < length (GetEmbreeGeometryIndex embreeScene)"
    and slot: "unat j < length (incomingSamples st)" "unat j < length (incomingFactors st)"
    by simp_all
  let ?uv = "rtcInterpolate0 embreeScene (GetEmbreeGeometryIndex embreeScene ! hit_geomID hit)
               (hit_primID hit) (hit_u hit) (hit_v hit)"
  from bounce_hit [OF draw hit geom slot, of env chart others]
  obtain st' where r: "bounce env embreeScene (chart # others) settings j st = Inr st'"
    and n: "numSamples st' = numSamples st + 1"
    and s: "incomingSamples st' = (incomingSamples st)[unat j := SampleNearest env chart ?uv]"
    by blast
  have "incomingSamples st' ! unat j = SampleNearest env ((chart # others) ! 0) ?uv"
    using slot(1) by (simp only: s nth_list_update_eq nth_Cons_0)
  with r n show "\<exists>st'. bounce env embreeScene (chart # others) settings j st = Inr st'
            \<and> numSamples st' = numSamples st + 1
            \<and> incomingSamples st' ! unat j = SampleNearest env ((chart # others) ! 0) ?uv"
    by blast
next
  assume a: "chart_size bakedGeometry N \<and> length (light bakedIndirect) = N
      \<and> numThreads settings \<noteq> 0 \<and> N + unat (numThreads settings) - 1 < 2 ^ 32
      \<and> i < N \<and> geometryIds bakedGeometry ! i \<noteq> 0
      \<and> unat (numBounces settings) \<le> MaxBounces env
      \<and> (\<forall>org dir tfar hit. rtcIntersect1 embreeScene org dir tfar = Some hit
             \<longrightarrow> hit_geomID hit < length (GetEmbreeGeometryIndex embreeScene))
      \<and> supplies (unat (numBounces settings) * texels_before bakedGeometry N) random"
  then have size: "chart_size bakedGeometry N" and len: "length (light bakedIndirect) = N"
    and nz: "numThreads settings \<noteq> 0" and small: "N + unat (numThreads settings) - 1 < 2 ^ 32"
    and i: "i < N" and geo: "geometryIds bakedGeometry ! i \<noteq> 0"
    and cap: "unat (numBounces settings) \<le> MaxBounces env"
    and fuel: "supplies (unat (numBounces settings) * texels_before bakedGeometry N) random"
    by simp_all
  from a have scene: "\<forall>org dir tfar hit. rtcIntersect1 embreeScene org dir tfar = Some hit
                        \<longrightarrow> hit_geomID hit < length (GetEmbreeGeometryIndex embreeScene)"
    by blast
  show "\<exists>baked random'.
           BakeIndirectLight env bakedIndirect (chart # others) bakedGeometry embreeScene settings
             random = Inr (baked, random')
           \<and> (\<forall>pairs.
                 path_pairs env embreeScene ((chart # others) ! 0) settings (unat (numBounces settings))
                   (geometryPositions bakedGeometry ! i) (smoothNormals bakedGeometry ! i)
                   (generator_at bakedGeometry settings random i) = Some pairs
                 \<longrightarrow> light baked ! i = v4_add (light bakedIndirect ! i)
                       (Vector4_of (combine_back_to_front pairs) 1))"
    unfolding nth_Cons_0
    by (rule BakeIndirectLight_path [OF size len nz small i geo cap scene fuel])
qed

theorem indirect_samples_first_chart_witness:
  "(\<exists>baked random'.
      BakeIndirectLight example_env dark_indirect [lit_chart, other_chart] lit_texel_geometry
        closed_scene two_bounces [0, 0, 1, 0, 0, - 1] = Inr (baked, random')
      \<and> light baked ! 0 =
          Vector4 ((2 / pi + 1) * (2 / pi)) ((2 / pi + 1) * (2 / pi)) ((2 / pi + 1) * (2 / pi)) 1)
   \<and> directLight lit_chart = [Vector3 1 1 1] \<and> directLight other_chart = [Vector3 9 9 9]
   \<and> (\<exists>st'. bounce example_env dome_scene [lit_chart, other_chart] two_bounces 1 slanted_path
               = Inr st'
        \<and> incomingSamples st' ! 1 = Vector3 1 1 1)
   \<and> BakeIndirectLight example_env dark_indirect [lit_chart, other_chart] lit_texel_geometry
        ceiling_scene one_bounce [0, 0, 1]
      = BakeIndirectLight (example_env\<lparr>SampleNearest := (\<lambda>chart uv. Vector3 1 1 1)\<rparr>)
          dark_indirect [other_chart] lit_texel_geometry ceiling_scene one_bounce [0, 0, 1]"
proof (intro conjI)
  let ?R = "[0, 0, 1, 0, 0, - 1] :: float list"
  have m: "unat (numBounces two_bounces) = Suc (Suc 0)" by (simp add: two_bounces_def)
  have rd1: "RandomDirection ?R = Inr (Vector3 0 0 1, [0, 0, - 1])"
    by (simp add: Length_def LengthSquared_def v3_div_def)
  have rd2: "RandomDirection [0, 0, - 1] = Inr (Vector3 0 0 (- 1), [])"
    by (simp add: Length_def LengthSquared_def v3_div_def)
  have tb: "texels_before lit_texel_geometry (Suc 0) = Suc 0"
    by (simp add: texels_before_def lit_texel_geometry_def hole_geometry_def)
  have n0: "smoothNormals lit_texel_geometry ! 0 = Vector3 0 0 1"
    and p0: "geometryPositions lit_texel_geometry ! 0 = Vector3 0 0 0"
    by (simp_all add: lit_texel_geometry_def hole_geometry_def)
  have ga: "generator_at lit_texel_geometry two_bounces ?R 0 = ?R"
    by (simp add: generator_at_def texels_before_def)
  have w: "((1 / pi) / pi) * 1 / (1 / (2 * pi)) = 2 / pi"
    by (simp add: field_simps)
  have "path_pairs example_env closed_scene lit_chart two_bounces (Suc (Suc 0))
          (Vector3 0 0 0) (Vector3 0 0 1) ?R
        = Some [(Vector3 1 1 1, ((1 / pi) / pi) * 1 / (1 / (2 * pi))),
                (Vector3 1 1 1, ((1 / pi) / pi) * 1 / (1 / (2 * pi)))]"
    by (simp add: RandomHemisphereDirection_def rd1 rd2 DotProduct_def v3_neg_def v3_add_def
        v3_mul_def Normalized_def LengthSquared_def closed_scene_def example_env_def lit_chart_def
        two_bounces_def Let_def del: RandomDirection.simps)
  then have pp: "path_pairs example_env closed_scene ([lit_chart, other_chart] ! 0) two_bounces
                   (unat (numBounces two_bounces))
                   (geometryPositions lit_texel_geometry ! 0)
                   (smoothNormals lit_texel_geometry ! 0)
                   (generator_at lit_texel_geometry two_bounces ?R 0)
                 = Some [(Vector3 1 1 1, 2 / pi), (Vector3 1 1 1, 2 / pi)]"
    by (simp only: ga m n0 p0 nth_Cons_0 w)
  have a: "chart_size lit_texel_geometry 1 \<and> length (light dark_indirect) = 1
      \<and> numThreads two_bounces \<noteq> 0 \<and> 1 + unat (numThreads two_bounces) - 1 < 2 ^ 32
      \<and> (0 :: nat) < 1 \<and> geometryIds lit_texel_geometry ! 0 \<noteq> 0
      \<and> unat (numBounces two_bounces) \<le> MaxBounces example_env
      \<and> (\<forall>org dir tfar hit. rtcIntersect1 closed_scene org dir tfar = Some hit
             \<longrightarrow> hit_geomID hit < length (GetEmbreeGeometryIndex closed_scene))
      \<and> supplies (unat (numBounces two_bounces) * texels_before lit_texel_geometry 1) ?R"
  proof (intro conjI)
    show "chart_size lit_texel_geometry 1"
      by (simp add: chart_size_def lit_texel_geometry_def hole_geometry_def)
    show "\<forall>org dir tfar hit. rtcIntersect1 closed_scene org dir tfar = Some hit
            \<longrightarrow> hit_geomID hit < length (GetEmbreeGeometryIndex closed_scene)"
      by (auto simp: closed_scene_def)
    show "supplies (unat (numBounces two_bounces) * texels_before lit_texel_geometry 1) ?R"
      by (simp add: m tb rd1 rd2 del: RandomDirection.simps)
    show "unat (numBounces two_bounces) \<le> MaxBounces example_env"
      by (simp add: m example_env_def)
  qed (simp_all add: dark_indirect_def two_bounces_def lit_texel_geometry_def hole_geometry_def)
  from indirect_samples_first_chart [where env = example_env and bakedIndirect = dark_indirect
      and chart = lit_chart and others = "[other_chart]" and bakedGeometry = lit_texel_geometry
      and embreeScene = closed_scene and settings = two_bounces and random = ?R and N = 1
      and i = 0, THEN conjunct2, THEN conjunct2, THEN mp, OF a]
  obtain baked random' where
    run: "BakeIndirectLight example_env dark_indirect [lit_chart, other_chart] lit_texel_geometry
            closed_scene two_bounces ?R = Inr (baked, random')"
    and val: "\<forall>pairs.
                 path_pairs example_env closed_scene ([lit_chart, other_chart] ! 0) two_bounces
                   (unat (numBounces two_bounces))
                   (geometryPositions lit_texel_geometry ! 0)
                   (smoothNormals lit_texel_geometry ! 0)
                   (generator_at lit_texel_geometry two_bounces ?R 0) = Some pairs
                 \<longrightarrow> light baked ! 0 = v4_add (light dark_indirect ! 0)
                       (Vector4_of (combine_back_to_front pairs) 1)"
    by blast
  from val pp have "light baked ! 0 = v4_add (light dark_indirect ! 0)
                      (Vector4_of (combine_back_to_front
                         [(Vector3 1 1 1, 2 / pi), (Vector3 1 1 1, 2 / pi)]) 1)"
    by blast
  then have "light baked ! 0 =
          Vector4 ((2 / pi + 1) * (2 / pi)) ((2 / pi + 1) * (2 / pi)) ((2 / pi + 1) * (2 / pi)) 1"
    by (simp add: dark_indirect_def combine_back_to_front_def v3_zero_def v3_add_def
        v3_mul_def Vector4_of_def v4_add_def)
  with run show "\<exists>baked random'.
      BakeIndirectLight example_env dark_indirect [lit_chart, other_chart] lit_texel_geometry
        closed_scene two_bounces ?R = Inr (baked, random')
      \<and> light baked ! 0 =
          Vector4 ((2 / pi + 1) * (2 / pi)) ((2 / pi + 1) * (2 / pi)) ((2 / pi + 1) * (2 / pi)) 1"
    by blast
next
  show "directLight lit_chart = [Vector3 1 1 1]" by (simp add: lit_chart_def)
  show "directLight other_chart = [Vector3 9 9 9]" by (simp add: other_chart_def)
next
  let ?hit = "\<lparr>hit_tfar = 1, hit_geomID = 0, hit_primID = 0, hit_u = 0, hit_v = 0,
               hit_Ng = Vector3 0 0 (- 1)\<rparr>"
  have rd: "RandomDirection [0, 3 / 5, 4 / 5] = Inr (Vector3 0 (3 / 5) (4 / 5), [])"
    by (simp add: Length_def LengthSquared_def v3_div_def)
  have h: "RandomHemisphereDirection (currentNormal slanted_path) (rng slanted_path)
             = Inr (Vector3 0 (3 / 5) (4 / 5), [])"
    by (simp add: slanted_path_def example_path_def RandomHemisphereDirection_def rd
        DotProduct_def del: RandomDirection.simps)
  have i: "rtcIntersect1 dome_scene
             (v3_add (currentPosition slanted_path)
                (v3_mul (currentNormal slanted_path) (rayPositionOffset two_bounces)))
             (Vector3 0 (3 / 5) (4 / 5)) (GetMaxDistance dome_scene) = Some ?hit"
    by (simp add: dome_scene_def)
  have g: "hit_geomID ?hit < length (GetEmbreeGeometryIndex dome_scene)"
    by (simp add: dome_scene_def)
  have s: "unat (1 :: u32) < length (incomingSamples slanted_path)"
    "unat (1 :: u32) < length (incomingFactors slanted_path)"
    by (simp_all add: slanted_path_def example_path_def)
  from indirect_samples_first_chart [where env = example_env and chart = lit_chart
      and others = "[other_chart]" and embreeScene = dome_scene and settings = two_bounces
      and st = slanted_path and rayDirection = "Vector3 0 (3 / 5) (4 / 5)" and rng' = "[]"
      and hit = ?hit and j = 1, THEN conjunct2, THEN conjunct1] h i g s
  obtain st' where
    r: "bounce example_env dome_scene [lit_chart, other_chart] two_bounces 1 slanted_path
          = Inr st'"
    and v: "incomingSamples st' ! unat (1 :: u32) =
              SampleNearest example_env ([lit_chart, other_chart] ! 0)
                (rtcInterpolate0 dome_scene
                   (GetEmbreeGeometryIndex dome_scene ! hit_geomID ?hit)
                   (hit_primID ?hit) (hit_u ?hit) (hit_v ?hit))"
    by blast
  from v have "incomingSamples st' ! 1 = Vector3 1 1 1"
    by (simp add: example_env_def lit_chart_def)
  with r show "\<exists>st'. bounce example_env dome_scene [lit_chart, other_chart] two_bounces 1
                     slanted_path = Inr st'
        \<and> incomingSamples st' ! 1 = Vector3 1 1 1"
    by blast
next
  have "\<forall>uv. SampleNearest example_env lit_chart uv = (\<lambda>chart uv. Vector3 1 1 1) other_chart uv"
    by (simp add: example_env_def lit_chart_def)
  with indirect_samples_first_chart [where env = example_env and chart = lit_chart
      and sampler = "\<lambda>chart uv. Vector3 1 1 1" and chart' = other_chart
      and others = "[other_chart]" and others' = "[]" and bakedIndirect = dark_indirect
      and bakedGeometry = lit_texel_geometry and embreeScene = ceiling_scene
      and settings = one_bounce and random = "[0, 0, 1]", THEN conjunct1]
  show "BakeIndirectLight example_env dark_indirect [lit_chart, other_chart] lit_texel_geometry
        ceiling_scene one_bounce [0, 0, 1]
      = BakeIndirectLight (example_env\<lparr>SampleNearest := (\<lambda>chart uv. Vector3 1 1 1)\<rparr>)
          dark_indirect [other_chart] lit_texel_geometry ceiling_scene one_bounce [0, 0, 1]"
    by blast
qed

subsection \<open>C9: unsupported configurations\<close>

text \<open>
  C9 (as amended). In a build with assertions compiled in, a kernel radius outside
  \<open>{0, 1, 2}\<close> makes the filter abort, and a bounce count above \<open>MaxBounces\<close> makes the
  indirect baker abort, both before any texel is processed. In a build without them
  (\<^verbatim>\<open>NDEBUG\<close>) neither check exists: \<open>GetKernel\<close> returns the empty kernel.
\<close>

theorem configuration_asserted:
  "(assertions env \<and> kernelRadius params \<notin> {0, 1, 2}
      \<longrightarrow> FilterIndirectLight env bakedIndirect bakedGeometry params threads
            = Inl AssertionFailed)
   \<and> (assertions env \<and> MaxBounces env < unat (numBounces settings)
      \<longrightarrow> BakeIndirectLight env bakedIndirect charts bakedGeometry embreeScene settings random
            = Inl AssertionFailed)
   \<and> (\<not> assertions env \<and> radius \<notin> {0, 1, 2} \<longrightarrow> GetKernel env radius = Inr [])"
  by (simp add: FilterIndirectLight_def GetKernel_def BakeIndirectLight_def)

theorem configuration_asserted_witness:
  "FilterIndirectLight example_env example_indirect example_geometry wide_filter 2
     = Inl AssertionFailed
   \<and> BakeIndirectLight example_env example_indirect [] example_geometry empty_scene
       many_bounces [] = Inl AssertionFailed
   \<and> GetKernel ndebug_env 3 = Inr []"
  using configuration_asserted [where env = example_env and params = wide_filter
      and settings = many_bounces and bakedIndirect = example_indirect
      and bakedGeometry = example_geometry and threads = 2 and charts = "[]"
      and embreeScene = empty_scene and random = "[]"]
    configuration_asserted [where env = ndebug_env and radius = 3]
  by (simp add: example_env_def ndebug_env_def wide_filter_def example_filter_def
      many_bounces_def)

text \<open>
  C9 as stated fails in a build without assertions: the filter with radius 3 runs to its
  end on a chart without geometry, and the indirect baker with 17 bounces (capacity 16)
  runs to its end under an empty sky.
\<close>

theorem release_build_counterexample:
  "kernelRadius wide_filter \<notin> {0, 1, 2}
   \<and> FilterIndirectLight ndebug_env example_indirect blank_geometry wide_filter 2
       = Inr \<lparr>light = [Vector4 0 0 0 0, Vector4 0 0 0 0],
               lightSwap = [Vector4 5 5 5 5, Vector4 1 2 3 4]\<rparr>
   \<and> MaxBounces ndebug_env < unat (numBounces many_bounces)
   \<and> BakeIndirectLight ndebug_env example_indirect [] example_geometry empty_scene
       many_bounces (concat (replicate 17 [0, 0, 1]))
       = Inr (\<lparr>light = [Vector4 5 5 5 5, Vector4 1 2 3 5],
                lightSwap = [Vector4 0 0 0 0, Vector4 0 0 0 0]\<rparr>, [])"
proof -
  have a: "FilterIndirectLight ndebug_env example_indirect blank_geometry wide_filter 2
       = Inr \<lparr>light = [Vector4 0 0 0 0, Vector4 0 0 0 0],
               lightSwap = [Vector4 5 5 5 5, Vector4 1 2 3 4]\<rparr>"
    by (simp add: FilterIndirectLight_def GetKernel_def run_simps filter_texel_def
        example_indirect_def example_env_def ndebug_env_def wide_filter_def example_filter_def
        example_geometry_def blank_geometry_def)
  have h: "RandomHemisphereDirection (Vector3 0 0 1) (0 # 0 # 1 # rest) = Inr (Vector3 0 0 1, rest)"
    for rest
    by (simp add: RandomHemisphereDirection_def Length_def LengthSquared_def v3_div_def
        DotProduct_def)
  have m: "bounce ndebug_env empty_scene [] many_bounces j
             \<lparr>numSamples = 0, currentPosition = p, currentNormal = Vector3 0 0 1,
              incomingSamples = xs, incomingFactors = fs, rng = 0 # 0 # 1 # rest\<rparr>
           = Inr \<lparr>numSamples = 0, currentPosition = p, currentNormal = Vector3 0 0 1,
              incomingSamples = xs, incomingFactors = fs, rng = rest\<rparr>" for j p xs fs rest
    by (simp add: bounce_def h empty_scene_def)
  have r: "concat (replicate 17 [0, 0, 1 :: float]) =
      [0, 0, 1, 0, 0, 1, 0, 0, 1, 0, 0, 1, 0, 0, 1, 0, 0, 1, 0, 0, 1, 0, 0, 1, 0, 0, 1,
       0, 0, 1, 0, 0, 1, 0, 0, 1, 0, 0, 1, 0, 0, 1, 0, 0, 1, 0, 0, 1, 0, 0, 1]"
    by (simp add: eval_nat_numeral)
  have e: "assertions ndebug_env = False" "MaxBounces ndebug_env = 16"
    "uninitialized ndebug_env = (\<lambda>k. 0)"
    by (simp_all add: ndebug_env_def example_env_def)
  have s: "numBounces many_bounces = 17" "numThreads many_bounces = 1"
    by (simp_all add: many_bounces_def)
  have b: "BakeIndirectLight ndebug_env example_indirect [] example_geometry empty_scene
       many_bounces (concat (replicate 17 [0, 0, 1]))
       = Inr (\<lparr>light = [Vector4 5 5 5 5, Vector4 1 2 3 5],
                lightSwap = [Vector4 0 0 0 0, Vector4 0 0 0 0]\<rparr>, [])"
    unfolding r
    by (simp add: BakeIndirectLight_def run_simps indirect_chunk_def indirect_texel_def m e s
        example_indirect_def example_geometry_def v3_zero_def v4_add_def Vector4_of_def)
  show ?thesis
    using a b
    by (simp add: wide_filter_def example_filter_def ndebug_env_def example_env_def
        many_bounces_def)
qed

subsection \<open>C10: the weights of the filter and its normalisation\<close>








end
